(* ===== verification/Prelude.thy ===== *)
theory Prelude
  imports Main "HOL-Library.Word"
begin

text \<open>
  Shared vocabulary of the development: C++ exceptions as values, the pure result type, the
  state-passing computations used for code that touches the operating system, and a small
  program logic for them.

  A C++ function that may throw returns \<open>'a result\<close>; one that also acts on the system is an
  \<open>('w, 'a) io\<close>: it takes the state \<open>'w\<close> and returns a result together with the new state, so
  that effects performed before a \<open>throw\<close> survive it, as they do in the code.
\<close>

section \<open>Exceptions and results\<close>

text \<open>The exception classes the sources throw; each carries the text of \<open>what()\<close>.\<close>

datatype exn =
    Runtime_error string
  | Invalid_argument string
  | Logic_error string
  | Out_of_range string
  | Filesystem_error string

fun what :: "exn \<Rightarrow> string" where
  "what (Runtime_error m) = m"
| "what (Invalid_argument m) = m"
| "what (Logic_error m) = m"
| "what (Out_of_range m) = m"
| "what (Filesystem_error m) = m"

type_synonym 'a result = "exn + 'a"

definition bind_r :: "'a result \<Rightarrow> ('a \<Rightarrow> 'b result) \<Rightarrow> 'b result" where
  "bind_r m k = (case m of Inl e \<Rightarrow> Inl e | Inr x \<Rightarrow> k x)"

named_theorems result_simps

lemma bind_r_Inl [simp]: "bind_r (Inl e) k = Inl e"
  by (simp add: bind_r_def)

lemma bind_r_Inr [simp]: "bind_r (Inr x) k = k x"
  by (simp add: bind_r_def)

lemma bind_r_eq_Inr [result_simps]:
  "bind_r m k = Inr y \<longleftrightarrow> (\<exists>x. m = Inr x \<and> k x = Inr y)"
  by (cases m) auto

lemma bind_r_eq_Inl [result_simps]:
  "bind_r m k = Inl e \<longleftrightarrow> m = Inl e \<or> (\<exists>x. m = Inr x \<and> k x = Inl e)"
  by (cases m) auto

text \<open>Running a fallible step over a list stops at the first exception.\<close>

fun fold_r :: "('a \<Rightarrow> 's \<Rightarrow> 's result) \<Rightarrow> 'a list \<Rightarrow> 's \<Rightarrow> 's result" where
  "fold_r f [] s = Inr s"
| "fold_r f (x # xs) s = bind_r (f x s) (fold_r f xs)"

lemma fold_r_append [simp]:
  "fold_r f (xs @ ys) s = bind_r (fold_r f xs s) (fold_r f ys)"
  by (induction xs arbitrary: s) (auto simp: bind_r_def split: sum.split)

lemma fold_r_invariant:
  assumes "fold_r f xs s = Inr t" and "P s"
    and "\<And>x s t. x \<in> set xs \<Longrightarrow> P s \<Longrightarrow> f x s = Inr t \<Longrightarrow> P t"
  shows "P t"
  using assms by (induction xs arbitrary: s) (auto simp: result_simps)

section \<open>Effects as state passing\<close>

type_synonym ('w, 'a) io = "'w \<Rightarrow> 'a result \<times> 'w"

definition ret :: "'a \<Rightarrow> ('w, 'a) io" where
  "ret x = (\<lambda>w. (Inr x, w))"

definition throw :: "exn \<Rightarrow> ('w, 'a) io" where
  "throw e = (\<lambda>w. (Inl e, w))"

definition bind_io :: "('w, 'a) io \<Rightarrow> ('a \<Rightarrow> ('w, 'b) io) \<Rightarrow> ('w, 'b) io" where
  "bind_io m k = (\<lambda>w. case m w of (Inl e, v) \<Rightarrow> (Inl e, v) | (Inr x, v) \<Rightarrow> k x v)"

text \<open>\<open>try { m } catch (...) { h }\<close>: the handler starts in the state the body left behind.\<close>

definition catch_io :: "('w, 'a) io \<Rightarrow> (exn \<Rightarrow> ('w, 'a) io) \<Rightarrow> ('w, 'a) io" where
  "catch_io m h = (\<lambda>w. case m w of (Inl e, v) \<Rightarrow> h e v | (Inr x, v) \<Rightarrow> (Inr x, v))"

definition gets :: "('w \<Rightarrow> 'a) \<Rightarrow> ('w, 'a) io" where
  "gets f = (\<lambda>w. (Inr (f w), w))"

definition modify :: "('w \<Rightarrow> 'w) \<Rightarrow> ('w, unit) io" where
  "modify f = (\<lambda>w. (Inr (), f w))"

definition lift_r :: "'a result \<Rightarrow> ('w, 'a) io" where
  "lift_r r = (\<lambda>w. (r, w))"

text \<open>A destructor runs \<open>d\<close> on both the normal and the exceptional exit; it does not throw.\<close>

definition finally_io :: "('w, 'a) io \<Rightarrow> ('w \<Rightarrow> 'w) \<Rightarrow> ('w, 'a) io" where
  "finally_io m d = (\<lambda>w. case m w of (r, v) \<Rightarrow> (r, d v))"

fun for_each :: "('a \<Rightarrow> ('w, unit) io) \<Rightarrow> 'a list \<Rightarrow> ('w, unit) io" where
  "for_each f [] = ret ()"
| "for_each f (x # xs) = bind_io (f x) (\<lambda>_. for_each f xs)"

named_theorems io_defs
declare ret_def [io_defs] throw_def [io_defs] bind_io_def [io_defs] catch_io_def [io_defs]
  gets_def [io_defs] modify_def [io_defs] lift_r_def [io_defs] finally_io_def [io_defs]

section \<open>A program logic with an exceptional postcondition\<close>

text \<open>
  \<open>hoare P m Q E\<close>: from a state satisfying \<open>P\<close>, \<open>m\<close> ends either normally with \<open>x\<close> in a
  state satisfying \<open>Q x\<close>, or with exception \<open>e\<close> in a state satisfying \<open>E e\<close>. Computations are
  total functions, so this is total correctness.
\<close>

definition hoare :: "('w \<Rightarrow> bool) \<Rightarrow> ('w, 'a) io \<Rightarrow> ('a \<Rightarrow> 'w \<Rightarrow> bool) \<Rightarrow> (exn \<Rightarrow> 'w \<Rightarrow> bool) \<Rightarrow> bool"
  where
  "hoare P m Q E \<longleftrightarrow>
     (\<forall>w. P w \<longrightarrow> (case m w of (Inl e, v) \<Rightarrow> E e v | (Inr x, v) \<Rightarrow> Q x v))"

named_theorems hoare_rules

lemma hoareI:
  assumes "\<And>w x v. P w \<Longrightarrow> m w = (Inr x, v) \<Longrightarrow> Q x v"
    and "\<And>w e v. P w \<Longrightarrow> m w = (Inl e, v) \<Longrightarrow> E e v"
  shows "hoare P m Q E"
  using assms by (auto simp: hoare_def split: prod.splits sum.splits)

lemma hoareD_ok: "hoare P m Q E \<Longrightarrow> P w \<Longrightarrow> m w = (Inr x, v) \<Longrightarrow> Q x v"
  by (fastforce simp: hoare_def)

lemma hoareD_exn: "hoare P m Q E \<Longrightarrow> P w \<Longrightarrow> m w = (Inl e, v) \<Longrightarrow> E e v"
  by (fastforce simp: hoare_def)

lemma hoare_weaken:
  assumes "hoare P m Q E" and "\<And>w. P' w \<Longrightarrow> P w"
    and "\<And>x w. Q x w \<Longrightarrow> Q' x w" and "\<And>e w. E e w \<Longrightarrow> E' e w"
  shows "hoare P' m Q' E'"
  using assms by (fastforce simp: hoare_def split: prod.splits sum.splits)

lemma hoare_pre: "hoare P m Q E \<Longrightarrow> (\<And>w. P' w \<Longrightarrow> P w) \<Longrightarrow> hoare P' m Q E"
  by (rule hoare_weaken)

lemma hoare_ret [hoare_rules]: "hoare (Q x) (ret x) Q E"
  by (simp add: hoare_def ret_def)

lemma hoare_throw [hoare_rules]: "hoare (E e) (throw e) Q E"
  by (simp add: hoare_def throw_def)

lemma hoare_gets [hoare_rules]: "hoare (\<lambda>w. Q (f w) w) (gets f) Q E"
  by (simp add: hoare_def gets_def)

lemma hoare_modify [hoare_rules]: "hoare (\<lambda>w. Q () (f w)) (modify f) Q E"
  by (simp add: hoare_def modify_def)

lemma hoare_bind [hoare_rules]:
  assumes "hoare P m R E" and "\<And>x. hoare (R x) (k x) Q E"
  shows "hoare P (bind_io m k) Q E"
  using assms by (fastforce simp: hoare_def bind_io_def split: prod.splits sum.splits)

lemma hoare_catch [hoare_rules]:
  assumes "hoare P m Q R" and "\<And>e. hoare (R e) (h e) Q E"
  shows "hoare P (catch_io m h) Q E"
  using assms by (fastforce simp: hoare_def catch_io_def split: prod.splits sum.splits)

lemma hoare_finally:
  assumes "hoare P m (\<lambda>x w. Q x (d w)) (\<lambda>e w. E e (d w))"
  shows "hoare P (finally_io m d) Q E"
  using assms by (fastforce simp: hoare_def finally_io_def split: prod.splits sum.splits)

lemma hoare_conj:
  assumes "hoare P m Q E" and "hoare P' m Q' E'"
  shows "hoare (\<lambda>w. P w \<and> P' w) m (\<lambda>x w. Q x w \<and> Q' x w) (\<lambda>e w. E e w \<and> E' e w)"
  using assms by (fastforce simp: hoare_def split: prod.splits sum.splits)

lemma hoare_if [hoare_rules]:
  assumes "b \<Longrightarrow> hoare P m Q E" and "\<not> b \<Longrightarrow> hoare P n Q E"
  shows "hoare P (if b then m else n) Q E"
  using assms by simp

text \<open>\<open>keeps I m\<close>: the assertion \<open>I\<close> survives \<open>m\<close>, whether or not \<open>m\<close> throws.\<close>

definition keeps :: "('w \<Rightarrow> bool) \<Rightarrow> ('w, 'a) io \<Rightarrow> bool" where
  "keeps I m \<longleftrightarrow> (\<forall>w. I w \<longrightarrow> I (snd (m w)))"

named_theorems keeps_rules

lemma keepsD: "keeps I m \<Longrightarrow> I w \<Longrightarrow> I (snd (m w))"
  by (simp add: keeps_def)

lemma keeps_iff_hoare: "keeps I m \<longleftrightarrow> hoare I m (\<lambda>_. I) (\<lambda>_. I)"
proof -
  have "I (snd r) \<longleftrightarrow> (case r of (Inl e, v) \<Rightarrow> I v | (Inr x, v) \<Rightarrow> I v)" for r :: "'b result \<times> 'a"
    by (auto split: prod.splits sum.splits)
  then show ?thesis by (simp add: keeps_def hoare_def)
qed

lemma keeps_ret [keeps_rules]: "keeps I (ret x)"
  by (simp add: keeps_def ret_def)

lemma keeps_throw [keeps_rules]: "keeps I (throw e)"
  by (simp add: keeps_def throw_def)

lemma keeps_gets [keeps_rules]: "keeps I (gets f)"
  by (simp add: keeps_def gets_def)

lemma keeps_lift [keeps_rules]: "keeps I (lift_r r)"
  by (simp add: keeps_def lift_r_def)

lemma keeps_bind [keeps_rules]: "keeps I m \<Longrightarrow> (\<And>x. keeps I (k x)) \<Longrightarrow> keeps I (bind_io m k)"
  by (fastforce simp: keeps_def bind_io_def split: prod.splits sum.splits)

lemma keeps_catch [keeps_rules]: "keeps I m \<Longrightarrow> (\<And>e. keeps I (h e)) \<Longrightarrow> keeps I (catch_io m h)"
  by (fastforce simp: keeps_def catch_io_def split: prod.splits sum.splits)

lemma keeps_if [keeps_rules]: "keeps I m \<Longrightarrow> keeps I n \<Longrightarrow> keeps I (if b then m else n)"
  by simp

lemma keeps_finally [keeps_rules]:
  "keeps I m \<Longrightarrow> (\<And>w. I w \<Longrightarrow> I (d w)) \<Longrightarrow> keeps I (finally_io m d)"
  by (fastforce simp: keeps_def finally_io_def split: prod.splits)

lemma keeps_for_each [keeps_rules]: "(\<And>x. keeps I (f x)) \<Longrightarrow> keeps I (for_each f xs)"
  by (induction xs) (auto intro: keeps_rules)

end
