(* ===== verification/Strings.thy ===== *)
theory Strings
  imports Prelude "HOL-Library.List_Lexorder" "HOL-Library.Char_ord" "HOL-Library.Sublist"
begin

text \<open>
  The part of the C++ standard library's \<open>std::string\<close>, \<open><cctype>\<close> and number conversion that
  the sources use. A \<open>std::string\<close> is a list of bytes (\<open>char\<close> of HOL), \<open>std::string::npos\<close> is
  \<open>None\<close>. The comparison \<open><\<close> on strings is lexicographic on bytes, as \<open>std::string\<close>'s.
  Also here: the small text helpers that several source files define alike (\<open>trim\<close>,
  \<open>for_each_line\<close>, the \<open>std::getline\<close> loop), with the lemmas their users share.
\<close>

section \<open>Characters\<close>

abbreviation NL :: char where "NL \<equiv> CHR 0x0A"
abbreviation CR :: char where "CR \<equiv> CHR 0x0D"
abbreviation TAB :: char where "TAB \<equiv> CHR 0x09"
abbreviation DQUOTE :: char where "DQUOTE \<equiv> CHR 0x22"
abbreviation SQUOTE :: char where "SQUOTE \<equiv> CHR 0x27"
abbreviation BSLASH :: char where "BSLASH \<equiv> CHR 0x5C"

text \<open>The set \<open>" \t\r\n"\<close> that every \<open>trim\<close> of the sources strips.\<close>

definition is_ws :: "char \<Rightarrow> bool" where
  "is_ws c \<longleftrightarrow> c = CHR '' '' \<or> c = TAB \<or> c = CR \<or> c = NL"

text \<open>\<open>std::isspace\<close>, \<open>isdigit\<close>, \<open>isxdigit\<close>, \<open>tolower\<close> and \<open>toupper\<close> in the C locale.\<close>

definition isspace :: "char \<Rightarrow> bool" where
  "isspace c \<longleftrightarrow> is_ws c \<or> c = CHR 0x0B \<or> c = CHR 0x0C"

definition isdigit :: "char \<Rightarrow> bool" where
  "isdigit c \<longleftrightarrow> 48 \<le> (of_char c :: nat) \<and> (of_char c :: nat) \<le> 57"

definition isxdigit :: "char \<Rightarrow> bool" where
  "isxdigit c \<longleftrightarrow> isdigit c \<or>
     65 \<le> (of_char c :: nat) \<and> (of_char c :: nat) \<le> 70 \<or>
     97 \<le> (of_char c :: nat) \<and> (of_char c :: nat) \<le> 102"

definition tolower :: "char \<Rightarrow> char" where
  "tolower c = (if 65 \<le> (of_char c :: nat) \<and> (of_char c :: nat) \<le> 90
                then char_of ((of_char c :: nat) + 32) else c)"

definition toupper :: "char \<Rightarrow> char" where
  "toupper c = (if 97 \<le> (of_char c :: nat) \<and> (of_char c :: nat) \<le> 122
                then char_of ((of_char c :: nat) - 32) else c)"

definition lower :: "string \<Rightarrow> string" where
  "lower s = map tolower s"

lemma tolower_idem [simp]: "tolower (tolower c) = tolower c"
proof (cases "65 \<le> (of_char c :: nat) \<and> (of_char c :: nat) \<le> 90")
  case True
  then have "(of_char (char_of ((of_char c :: nat) + 32) :: char) :: nat) = of_char c + 32"
    by (simp add: of_char_of)
  with True show ?thesis by (simp add: tolower_def)
next
  case False
  then show ?thesis unfolding tolower_def by (simp only: if_False)
qed

lemma lower_idem [simp]: "lower (lower s) = lower s"
  by (simp add: lower_def comp_def)

lemma length_lower [simp]: "length (lower s) = length s"
  by (simp add: lower_def)

lemma lower_Nil_iff [simp]: "lower s = [] \<longleftrightarrow> s = []"
  by (simp add: lower_def)

section \<open>Searching and slicing\<close>

definition substr :: "string \<Rightarrow> nat \<Rightarrow> nat \<Rightarrow> string" where
  "substr s pos n = take n (drop pos s)"

fun find_index :: "('a \<Rightarrow> bool) \<Rightarrow> 'a list \<Rightarrow> nat option" where
  "find_index P [] = None"
| "find_index P (x # xs) = (if P x then Some 0 else map_option Suc (find_index P xs))"

definition find_last_index :: "('a \<Rightarrow> bool) \<Rightarrow> 'a list \<Rightarrow> nat option" where
  "find_last_index P xs = map_option (\<lambda>i. length xs - 1 - i) (find_index P (rev xs))"

definition find_char :: "char \<Rightarrow> string \<Rightarrow> nat option" where
  "find_char c s = find_index ((=) c) s"

definition starts_with :: "string \<Rightarrow> string \<Rightarrow> bool" where
  "starts_with s p \<longleftrightarrow> take (length p) s = p"

definition ends_with :: "string \<Rightarrow> string \<Rightarrow> bool" where
  "ends_with s p \<longleftrightarrow> length p \<le> length s \<and> drop (length s - length p) s = p"

text \<open>\<open>s.find(p)\<close>: the first position at which \<open>p\<close> occurs in \<open>s\<close>.\<close>

fun find_sub :: "string \<Rightarrow> string \<Rightarrow> nat option" where
  "find_sub [] p = (if p = [] then Some 0 else None)"
| "find_sub (c # s) p =
     (if starts_with (c # s) p then Some 0 else map_option Suc (find_sub s p))"

definition contains_sub :: "string \<Rightarrow> string \<Rightarrow> bool" where
  "contains_sub s p \<longleftrightarrow> find_sub s p \<noteq> None"

lemma find_index_None_iff: "find_index P xs = None \<longleftrightarrow> (\<forall>x\<in>set xs. \<not> P x)"
  by (induction xs) auto

lemma find_index_Some:
  "find_index P xs = Some i \<Longrightarrow>
     i < length xs \<and> P (xs ! i) \<and> take i xs = takeWhile (\<lambda>x. \<not> P x) xs"
  by (induction xs arbitrary: i) (auto split: if_splits)

lemma find_index_takeWhile:
  "find_index P xs =
     (if \<exists>x\<in>set xs. P x then Some (length (takeWhile (\<lambda>x. \<not> P x) xs)) else None)"
  by (induction xs) auto

lemma find_char_append_notin [simp]:
  "c \<notin> set s \<Longrightarrow> find_char c (s @ c # t) = Some (length s)"
  by (induction s) (auto simp: find_char_def)

lemma find_char_None_iff: "find_char c s = None \<longleftrightarrow> c \<notin> set s"
  by (auto simp: find_char_def find_index_None_iff)

lemma find_char_SomeD:
  "find_char c s = Some i \<Longrightarrow> i < length s \<and> s ! i = c \<and> c \<notin> set (take i s)"
  using find_index_Some [of "(=) c" s i] by (auto simp: find_char_def dest: set_takeWhileD)

lemma starts_with_iff: "starts_with s p \<longleftrightarrow> (\<exists>t. s = p @ t)"
proof
  assume "starts_with s p"
  then have "s = p @ drop (length p) s"
    by (metis append_take_drop_id starts_with_def)
  then show "\<exists>t. s = p @ t" by blast
qed (auto simp: starts_with_def)

lemma starts_with_append [simp]: "starts_with (p @ t) p"
  by (simp add: starts_with_def)

lemma starts_with_Nil [simp]: "starts_with s []"
  by (simp add: starts_with_def)

lemma ends_with_iff: "ends_with s p \<longleftrightarrow> (\<exists>t. s = t @ p)"
proof
  assume "ends_with s p"
  then have "s = take (length s - length p) s @ p"
    by (metis append_take_drop_id ends_with_def)
  then show "\<exists>t. s = t @ p" by blast
qed (auto simp: ends_with_def)

lemma ends_with_append [simp]: "ends_with (t @ p) p"
  by (simp add: ends_with_def)

lemma find_sub_None_iff: "find_sub s p = None \<longleftrightarrow> \<not> sublist p s"
  by (induction s) (auto simp: starts_with_iff sublist_Cons_right prefix_def)

lemma contains_sub_iff: "contains_sub s p \<longleftrightarrow> sublist p s"
  by (simp add: contains_sub_def find_sub_None_iff)

section \<open>Trimming\<close>

text \<open>
  \<open>find_first_not_of(" \t\r\n")\<close>, \<open>find_last_not_of(" \t\r\n")\<close> and the slice between them, as in
  each of the sources' \<open>trim\<close> functions.
\<close>

definition trim :: "string \<Rightarrow> string" where
  "trim s = (case find_index (\<lambda>c. \<not> is_ws c) s of
       None \<Rightarrow> []
     | Some b \<Rightarrow>
         (case find_last_index (\<lambda>c. \<not> is_ws c) s of
            None \<Rightarrow> []
          | Some e \<Rightarrow> substr s b (e - b + 1)))"

definition ltrim :: "string \<Rightarrow> string" where
  "ltrim s = dropWhile is_ws s"

definition rtrim :: "string \<Rightarrow> string" where
  "rtrim s = rev (dropWhile is_ws (rev s))"

lemma drop_length_takeWhile: "drop (length (takeWhile P xs)) xs = dropWhile P xs"
  by (simp add: dropWhile_eq_drop)

lemma trim_eq: "trim s = rtrim (ltrim s)"
proof (cases "\<exists>c\<in>set s. \<not> is_ws c")
  case False
  then have "ltrim s = []" by (simp add: ltrim_def)
  moreover have "trim s = []" using False by (simp add: trim_def find_index_takeWhile)
  ultimately show ?thesis by (simp add: rtrim_def)
next
  case True
  let ?a = "takeWhile is_ws s" and ?m = "dropWhile is_ws s"
  let ?b = "takeWhile is_ws (rev s)"
  obtain c t where m: "?m = c # t" "\<not> is_ws c"
    using True by (metis (mono_tags, lifting) dropWhile_eq_Nil_conv hd_dropWhile list.exhaust list.sel(1))
  have rs: "rev s = rev ?m @ rev ?a" by (metis rev_append takeWhile_dropWhile_id)
  have b: "?b = takeWhile is_ws (rev ?m)"
    using m by (subst rs) (auto simp: takeWhile_append)
  have len: "length s = length ?a + length ?m"
    by (metis length_append takeWhile_dropWhile_id)
  have lb: "length ?b < length ?m"
    using m by (subst b) (metis (mono_tags, lifting) in_set_conv_decomp length_rev list.set_intros(1)
        nat_less_le set_rev length_takeWhile_le takeWhile_eq_all_conv takeWhile_eq_take take_all_iff)
  have "trim s = take (length s - 1 - length ?b - length ?a + 1) ?m"
    using True by (auto simp: trim_def find_last_index_def find_index_takeWhile substr_def drop_length_takeWhile)
  also have "length s - 1 - length ?b - length ?a + 1 = length ?m - length ?b"
    using len lb by linarith
  also have "take (length ?m - length ?b) ?m = rev (drop (length ?b) (rev ?m))"
    by (simp add: rev_drop)
  also have "\<dots> = rev (dropWhile is_ws (rev ?m))"
    using b by (simp add: dropWhile_eq_drop)
  finally show ?thesis by (simp add: ltrim_def rtrim_def)
qed

text \<open>A string with no blank at either end; \<open>trim\<close> produces such strings and keeps them.\<close>

definition trimmed :: "string \<Rightarrow> bool" where
  "trimmed s \<longleftrightarrow> s = [] \<or> \<not> is_ws (hd s) \<and> \<not> is_ws (last s)"

lemma trim_trimmed_id: "trimmed s \<Longrightarrow> trim s = s"
proof -
  assume t: "trimmed s"
  have "ltrim s = s" using t by (auto simp: trimmed_def ltrim_def dropWhile_eq_self_iff)
  moreover have "dropWhile is_ws (rev s) = rev s"
    using t by (auto simp: trimmed_def dropWhile_eq_self_iff hd_rev)
  ultimately show ?thesis by (simp add: trim_eq rtrim_def)
qed

lemma trimmed_trim [simp]: "trimmed (trim s)"
proof -
  have l: "ltrim s = [] \<or> \<not> is_ws (hd (ltrim s))"
    using hd_dropWhile [of is_ws s] by (auto simp: ltrim_def)
  have r: "rtrim u = [] \<or> \<not> is_ws (last (rtrim u))" for u
    using hd_dropWhile [of is_ws "rev u"] by (auto simp: rtrim_def last_rev)
  have p: "\<exists>v. u = rtrim u @ v" for u
    by (metis rev_append rev_rev_ident rtrim_def takeWhile_dropWhile_id)
  obtain v where "ltrim s = rtrim (ltrim s) @ v" using p by blast
  then have "rtrim (ltrim s) = [] \<or> hd (rtrim (ltrim s)) = hd (ltrim s) \<and> ltrim s \<noteq> []"
    by (metis hd_append2 append_is_Nil_conv)
  with l r [of "ltrim s"] show ?thesis by (auto simp: trim_eq trimmed_def)
qed

lemma trim_idem [simp]: "trim (trim s) = trim s"
  by (simp add: trim_trimmed_id)

lemma trim_Nil [simp]: "trim [] = []"
  by (simp add: trim_def)

lemma set_trim: "set (trim s) \<subseteq> set s"
  by (auto simp: trim_eq ltrim_def rtrim_def dest!: set_dropWhileD)

lemma trim_ws_Cons [simp]: "is_ws c \<Longrightarrow> trim (c # s) = trim s"
  by (simp add: trim_eq ltrim_def)

lemma trim_ws_snoc [simp]: "is_ws c \<Longrightarrow> trim (s @ [c]) = trim s"
proof (cases "\<forall>x\<in>set s. is_ws x")
  case True
  moreover assume "is_ws c"
  ultimately have "ltrim (s @ [c]) = []" and "ltrim s = []" by (auto simp: ltrim_def)
  then show ?thesis by (simp add: trim_eq)
next
  case False
  moreover assume "is_ws c"
  ultimately show ?thesis by (auto simp: trim_eq ltrim_def rtrim_def dropWhile_append)
qed

lemma is_ws_simps [simp]:
  "is_ws (CHR '' '')" "is_ws TAB" "is_ws CR" "is_ws NL" "\<not> is_ws (CHR ''='')" "\<not> is_ws (CHR ''['')"
  by (auto simp: is_ws_def)

section \<open>Splitting\<close>

text \<open>
  The lines a \<open>while (std::getline(input, line))\<close> loop sees: a final line without a newline
  counts, an empty rest after a final newline does not.
\<close>

function getlines :: "string \<Rightarrow> string list" where
  "getlines s =
     (if s = [] then []
      else case find_char NL s of
             None \<Rightarrow> [s]
           | Some i \<Rightarrow> substr s 0 i # getlines (drop (i + 1) s))"
  by pat_completeness auto
termination
  by (relation "measure length") (auto simp: find_char_def dest: find_index_Some)

declare getlines.simps [simp del]

lemma getlines_Nil [simp]: "getlines [] = []"
  by (simp add: getlines.simps)

lemma getlines_line [simp]: "NL \<notin> set l \<Longrightarrow> getlines (l @ NL # s) = l # getlines s"
  by (subst getlines.simps) (simp add: substr_def)

lemma getlines_last: "NL \<notin> set l \<Longrightarrow> l \<noteq> [] \<Longrightarrow> getlines l = [l]"
  by (subst getlines.simps) (simp add: find_char_None_iff [THEN iffD2])

lemma getlines_concat [simp]:
  "(\<forall>l\<in>set ls. NL \<notin> set l) \<Longrightarrow> getlines (concat (map (\<lambda>l. l @ [NL]) ls) @ s) = ls @ getlines s"
  by (induction ls) auto

lemma getlines_no_NL: "l \<in> set (getlines s) \<Longrightarrow> NL \<notin> set l"
proof (induction s rule: getlines.induct)
  case (1 s)
  show ?case
  proof (cases "find_char NL s")
    case None
    with "1.prems" have "l = s" by (simp add: getlines.simps [of s] split: if_splits)
    with None show ?thesis by (simp add: find_char_None_iff)
  next
    case (Some i)
    with 1 show ?thesis
      by (auto simp: getlines.simps [of s] substr_def dest: find_char_SomeD split: if_splits)
  qed
qed

text \<open>
  The template \<open>for_each_line\<close> of the command output parsers: lines lose one trailing carriage
  return and empty lines are skipped; this is the sequence of lines the callback receives.
\<close>

definition strip_cr :: "string \<Rightarrow> string" where
  "strip_cr l = (if l \<noteq> [] \<and> last l = CR then butlast l else l)"

definition output_lines :: "string \<Rightarrow> string list" where
  "output_lines s = filter (\<lambda>l. l \<noteq> []) (map strip_cr (getlines s))"

lemma output_lines_no_NL: "l \<in> set (output_lines s) \<Longrightarrow> NL \<notin> set l"
  by (auto simp: output_lines_def strip_cr_def dest!: getlines_no_NL dest: in_set_butlastD split: if_splits)

text \<open>The loop \<open>while (begin <= value.size())\<close> over pieces ended by \<open>c\<close>.\<close>

function split_on :: "char \<Rightarrow> string \<Rightarrow> string list" where
  "split_on c s =
     (case find_char c s of
        None \<Rightarrow> [s]
      | Some i \<Rightarrow> substr s 0 i # split_on c (drop (i + 1) s))"
  by pat_completeness auto
termination
  by (relation "measure (\<lambda>(c, s). length s)") (auto simp: find_char_def dest: find_index_Some)

declare split_on.simps [simp del]

lemma split_on_piece [simp]: "c \<notin> set p \<Longrightarrow> split_on c (p @ c # s) = p # split_on c s"
  by (subst split_on.simps) (simp add: substr_def)

lemma split_on_last [simp]: "c \<notin> set p \<Longrightarrow> split_on c p = [p]"
  by (subst split_on.simps) (simp add: find_char_None_iff [THEN iffD2])

lemma split_on_notin: "p \<in> set (split_on c s) \<Longrightarrow> c \<notin> set p"
proof (induction c s rule: split_on.induct)
  case (1 c s)
  show ?case
  proof (cases "find_char c s")
    case None
    with 1 show ?thesis by (auto simp: split_on.simps [of c s] find_char_None_iff)
  next
    case (Some i)
    with 1 show ?thesis by (auto simp: split_on.simps [of c s] substr_def dest: find_char_SomeD)
  qed
qed

section \<open>Numbers\<close>

text \<open>\<open>std::size_t\<close> and \<open>unsigned long\<close> are 64 bits wide on the supported target.\<close>

type_synonym size_t = "64 word"
type_synonym ulong = "64 word"

definition digit_char :: "nat \<Rightarrow> char" where
  "digit_char d = char_of (48 + d)"

definition digit_val :: "char \<Rightarrow> nat" where
  "digit_val c = of_char c - 48"

text \<open>\<open>std::to_string\<close> and \<open>operator<<\<close> on an unsigned number.\<close>

fun dec :: "nat \<Rightarrow> string" where
  "dec n = (if n < 10 then [digit_char n] else dec (n div 10) @ [digit_char (n mod 10)])"

declare dec.simps [simp del]

definition digits_val :: "string \<Rightarrow> nat" where
  "digits_val s = foldl (\<lambda>a c. a * 10 + digit_val c) 0 s"

lemma digit_val_digit_char [simp]: "d < 10 \<Longrightarrow> digit_val (digit_char d) = d"
  by (simp add: digit_val_def digit_char_def)

lemma isdigit_digit_char [simp]: "d < 10 \<Longrightarrow> isdigit (digit_char d)"
  by (simp add: isdigit_def digit_char_def)

lemma dec_not_Nil [simp]: "dec n \<noteq> []"
  by (subst dec.simps) simp

lemma isdigit_dec: "c \<in> set (dec n) \<Longrightarrow> isdigit c"
proof (induction n rule: dec.induct)
  case (1 n)
  then show ?case by (auto simp: dec.simps [of n] split: if_splits)
qed

lemma digits_val_snoc [simp]: "digits_val (s @ [c]) = digits_val s * 10 + digit_val c"
  by (simp add: digits_val_def)

lemma digits_val_dec [simp]: "digits_val (dec n) = n"
proof (induction n rule: dec.induct)
  case (1 n)
  show ?case
  proof (cases "n < 10")
    case True
    then show ?thesis by (simp add: dec.simps [of n] digits_val_def)
  next
    case False
    with 1 show ?thesis by (simp add: dec.simps [of n])
  qed
qed

lemma dec_inject [simp]: "dec m = dec n \<longleftrightarrow> m = n"
  by (metis digits_val_dec)

text \<open>
  \<open>std::from_chars\<close> on an unsigned long: the longest prefix of digits, no sign and no blanks. The
  pair is the value and the number of characters consumed; \<open>None\<close> stands for an error code.
\<close>

definition from_chars :: "string \<Rightarrow> (ulong \<times> nat) option" where
  "from_chars s =
     (let ds = takeWhile isdigit s in
      if ds = [] then None
      else if 2 ^ 64 \<le> digits_val ds then None
      else Some (word_of_nat (digits_val ds), length ds))"

text \<open>The callers' test that no error occurred and the whole text was consumed.\<close>

definition from_chars_all :: "string \<Rightarrow> ulong option" where
  "from_chars_all s = (case from_chars s of
       None \<Rightarrow> None
     | Some (v, n) \<Rightarrow> if n = length s then Some v else None)"

lemma from_chars_all_eq:
  "from_chars_all s =
     (if s \<noteq> [] \<and> (\<forall>c\<in>set s. isdigit c) \<and> digits_val s < 2 ^ 64
      then Some (word_of_nat (digits_val s)) else None)"
proof (cases "\<forall>c\<in>set s. isdigit c")
  case True
  then have "takeWhile isdigit s = s" by simp
  then show ?thesis using True
    by (simp only: from_chars_all_def from_chars_def Let_def) (simp split: if_split)
next
  case False
  then have "length (takeWhile isdigit s) \<noteq> length s"
    by (metis takeWhile_eq_all_conv takeWhile_eq_take take_all_iff order_refl)
  with False show ?thesis by (auto simp: from_chars_all_def from_chars_def Let_def)
qed

lemma from_chars_all_dec [simp]: "from_chars_all (dec (unat (v :: ulong))) = Some v"
proof -
  have "unat v < 2 ^ 64" using unsigned_less [of v] by simp
  then show ?thesis by (simp add: from_chars_all_eq isdigit_dec)
qed

text \<open>
  \<open>std::stoull(s, &consumed)\<close>: skip blanks, one optional sign, decimal digits. As \<open>strtoull\<close>
  specifies, a minus sign negates the value modulo \<open>2 ^ 64\<close>.
\<close>

definition stoull :: "string \<Rightarrow> (ulong \<times> nat) result" where
  "stoull s =
     (let blanks = takeWhile isspace s; r = dropWhile isspace s;
          neg = (r \<noteq> [] \<and> hd r = CHR ''-'');
          sign = (if r \<noteq> [] \<and> (hd r = CHR ''-'' \<or> hd r = CHR ''+'') then 1 else 0);
          ds = takeWhile isdigit (drop sign r) in
      if ds = [] then Inl (Invalid_argument ''stoull'')
      else if 2 ^ 64 \<le> digits_val ds then Inl (Out_of_range ''stoull'')
      else Inr (if neg then - word_of_nat (digits_val ds) else word_of_nat (digits_val ds),
                length blanks + sign + length ds))"

text \<open>\<open>std::stoul\<close> on a text already known to be all digits.\<close>

definition stoul_digits :: "string \<Rightarrow> ulong result" where
  "stoul_digits s =
     (if s = [] then Inl (Invalid_argument ''stoul'')
      else if 2 ^ 64 \<le> digits_val s then Inl (Out_of_range ''stoul'')
      else Inr (word_of_nat (digits_val s)))"

lemma not_isspace_digit: "isdigit c \<Longrightarrow> \<not> isspace c \<and> \<not> is_ws c \<and> c \<noteq> CHR ''-'' \<and> c \<noteq> CHR ''+''"
  by (auto simp: isdigit_def isspace_def is_ws_def)

lemma stoull_digits:
  assumes "s \<noteq> []" and "\<forall>c\<in>set s. isdigit c" and "digits_val s < 2 ^ 64"
  shows "stoull s = Inr (word_of_nat (digits_val s), length s)"
proof -
  obtain c t where s: "s = c # t" using assms(1) by (cases s) auto
  with assms(2) have "isdigit c" by simp
  then have d: "\<not> isspace c" "c \<noteq> CHR ''-''" "c \<noteq> CHR ''+''"
    using not_isspace_digit by auto
  from assms(2) have "takeWhile isdigit s = s" by simp
  with d s assms(3) show ?thesis by (simp add: stoull_def Let_def)
qed

lemma trimmed_dec [simp]: "trimmed (dec n)"
  using isdigit_dec [of _ n] not_isspace_digit by (auto simp: trimmed_def)

end
