(* ===== verification/Paths.thy ===== *)
theory Paths
  imports Strings
begin

text \<open>
  \<open>std::filesystem::path\<close> on POSIX: a path is the string it was made from (\<open>native()\<close>), and the
  lexical operations the sources use follow the C++ standard as libstdc++ implements it. Equality
  and ordering of paths compare element by element, so they identify \<open>a//b\<close> with \<open>a/b\<close>.
\<close>

type_synonym path = string

abbreviation SLASH :: char where "SLASH \<equiv> CHR ''/''"

definition is_absolute :: "path \<Rightarrow> bool" where
  "is_absolute p \<longleftrightarrow> p \<noteq> [] \<and> hd p = SLASH"

text \<open>\<open>p / q\<close>\<close>

definition path_append :: "path \<Rightarrow> path \<Rightarrow> path" where
  "path_append p q =
     (if is_absolute q \<or> p = [] then q
      else if last p = SLASH then p @ q else p @ SLASH # q)"

definition filename :: "path \<Rightarrow> path" where
  "filename p = rev (takeWhile (\<lambda>c. c \<noteq> SLASH) (rev p))"

definition parent_path :: "path \<Rightarrow> path" where
  "parent_path p =
     (let d = dropWhile (\<lambda>c. c \<noteq> SLASH) (rev p) in
      if d = [] then []
      else let e = dropWhile (\<lambda>c. c = SLASH) d in
           if e = [] then [SLASH] else rev e)"

definition relative_path :: "path \<Rightarrow> path" where
  "relative_path p = dropWhile (\<lambda>c. c = SLASH) p"

definition extension :: "path \<Rightarrow> path" where
  "extension p =
     (let f = filename p in
      if f = [] \<or> f = ''.'' \<or> f = ''..'' then []
      else case find_last_index (\<lambda>c. c = CHR ''.'') f of
             None \<Rightarrow> []
           | Some i \<Rightarrow> if i = 0 then [] else drop i f)"

text \<open>The elements a path iterator visits: root directory, names, and an empty name after a
  trailing separator.\<close>

definition path_elems :: "path \<Rightarrow> string list" where
  "path_elems p =
     (if is_absolute p then [[SLASH]] else []) @
     filter (\<lambda>e. e \<noteq> []) (split_on SLASH p) @
     (if relative_path p \<noteq> [] \<and> last p = SLASH then [[]] else [])"

definition path_eq :: "path \<Rightarrow> path \<Rightarrow> bool" where
  "path_eq p q \<longleftrightarrow> path_elems p = path_elems q"

definition path_less :: "path \<Rightarrow> path \<Rightarrow> bool" where
  "path_less p q =
     (if is_absolute p \<noteq> is_absolute q then is_absolute q
      else path_elems p < path_elems q)"

text \<open>\<open>p.lexically_relative(base)\<close>; an empty result means there is no relative form.\<close>

fun mismatch :: "string list \<Rightarrow> string list \<Rightarrow> string list \<times> string list" where
  "mismatch (x # xs) (y # ys) = (if x = y then mismatch xs ys else (x # xs, y # ys))"
| "mismatch xs ys = (xs, ys)"

definition lexically_relative :: "path \<Rightarrow> path \<Rightarrow> path" where
  "lexically_relative p base =
     (if is_absolute p \<noteq> is_absolute base then []
      else case mismatch (path_elems p) (path_elems base) of (a, b) \<Rightarrow>
        if a = [] \<and> b = [] then ''.''
        else
          let ups = length (filter (\<lambda>e. e = ''..'') b);
              downs = length (filter (\<lambda>e. e \<noteq> [] \<and> e \<noteq> ''.'' \<and> e \<noteq> ''..'') b) in
          if downs < ups then []
          else if downs = ups \<and> (a = [] \<or> hd a = []) then ''.''
          else foldl path_append [] (replicate (downs - ups) ''..'' @ a))"

section \<open>Facts the components share\<close>

lemma path_eq_refl [simp]: "path_eq p p"
  by (simp add: path_eq_def)

lemma path_eq_sym: "path_eq p q \<longleftrightarrow> path_eq q p"
  by (auto simp: path_eq_def)

lemma path_eq_trans: "path_eq p q \<Longrightarrow> path_eq q r \<Longrightarrow> path_eq p r"
  by (simp add: path_eq_def)

lemma path_less_irrefl [simp]: "\<not> path_less p p"
  by (simp add: path_less_def)

lemma path_less_trans: "path_less p q \<Longrightarrow> path_less q r \<Longrightarrow> path_less p r"
  by (auto simp: path_less_def split: if_splits)

lemma path_less_linear: "path_less p q \<or> path_eq p q \<or> path_less q p"
  by (auto simp: path_less_def path_eq_def)

lemma filename_append_slash [simp]: "SLASH \<notin> set f \<Longrightarrow> filename (d @ SLASH # f) = f"
proof -
  assume a: "SLASH \<notin> set f"
  have "takeWhile (\<lambda>c. c \<noteq> SLASH) (rev f @ SLASH # rev d) = rev f"
    using a by (subst takeWhile_append2) auto
  then show ?thesis by (simp add: filename_def)
qed

lemma filename_plain [simp]: "SLASH \<notin> set f \<Longrightarrow> filename f = f"
proof -
  assume "SLASH \<notin> set f"
  then have t: "takeWhile (\<lambda>c. c \<noteq> SLASH) (rev f) = rev f"
    by (subst takeWhile_eq_all_conv) auto
  show ?thesis unfolding filename_def t by simp
qed

lemma filename_no_slash [simp]: "SLASH \<notin> set (filename p)"
  by (auto simp: filename_def dest: set_takeWhileD)

lemma filename_path_append:
  assumes "SLASH \<notin> set q" shows "filename (path_append p q) = q"
proof (cases "p = [] \<or> is_absolute q")
  case True
  with assms show ?thesis by (auto simp: path_append_def is_absolute_def)
next
  case False
  then show ?thesis
  proof (cases "last p = SLASH")
    case True
    with False obtain d where "p = d @ [SLASH]" by (metis append_butlast_last_id)
    with False True assms show ?thesis by (simp add: path_append_def)
  next
    case nl: False
    with False assms show ?thesis by (simp add: path_append_def)
  qed
qed

end
