(* ===== verification/Kernel_Cmdline.thy ===== *)
theory Kernel_Cmdline
  imports Strings
begin

text \<open>
  \<open>domain::KernelCommandLine\<close> (src/domain/kernel_cmdline.cpp): the parser of a kernel command
  line into arguments, look-up and update of \<open>key=value\<close> arguments, and the renderer.
\<close>

section \<open>The class and its operations\<close>

record kernel_command_line =
  arguments :: "string list"

text \<open>\<open>is_key\<close>: the bare key, or the key followed by an equals sign. \<open>has_value\<close> is the test
  \<open>value\<close> and \<open>values\<close> repeat inline.\<close>

definition has_value :: "string \<Rightarrow> string \<Rightarrow> bool" where
  "has_value argument key \<longleftrightarrow>
     length key < length argument \<and> starts_with argument key \<and> argument ! length key = CHR ''=''"

definition is_key :: "string \<Rightarrow> string \<Rightarrow> bool" where
  "is_key argument key \<longleftrightarrow> argument = key \<or> has_value argument key"

text \<open>\<open>find_first_of(" \t\r\n\"\\")\<close> decides whether an argument is quoted.\<close>

definition needs_quote :: "char \<Rightarrow> bool" where
  "needs_quote c \<longleftrightarrow> is_ws c \<or> c = DQUOTE \<or> c = BSLASH"

fun escape_chars :: "string \<Rightarrow> string" where
  "escape_chars [] = []"
| "escape_chars (ch # s) =
     (if ch = DQUOTE \<or> ch = BSLASH then BSLASH # ch # escape_chars s else ch # escape_chars s)"

definition quote_argument :: "string \<Rightarrow> string" where
  "quote_argument argument =
     (if find_index needs_quote argument = None then argument
      else DQUOTE # escape_chars argument @ [DQUOTE])"

text \<open>
  The parser's loop. Its locals are the arguments so far, the current argument, the escape flag
  and the open quote (\<open>None\<close> for the null character).
\<close>

record parse_state =
  ps_arguments :: "string list"
  ps_current :: string
  ps_escaped :: bool
  ps_quote :: "char option"

definition flush :: "parse_state \<Rightarrow> parse_state" where
  "flush st = (if ps_current st \<noteq> []
     then st\<lparr>ps_arguments := ps_arguments st @ [ps_current st], ps_current := []\<rparr> else st)"

definition push_char :: "char \<Rightarrow> parse_state \<Rightarrow> parse_state" where
  "push_char ch st = st\<lparr>ps_current := ps_current st @ [ch]\<rparr>"

definition parse_char :: "parse_state \<Rightarrow> char \<Rightarrow> parse_state" where
  "parse_char st ch =
     (if ps_escaped st then (push_char ch st)\<lparr>ps_escaped := False\<rparr>
      else if ch = BSLASH then st\<lparr>ps_escaped := True\<rparr>
      else if ps_quote st \<noteq> None then
        (if ps_quote st = Some ch then st\<lparr>ps_quote := None\<rparr> else push_char ch st)
      else if ch = SQUOTE \<or> ch = DQUOTE then st\<lparr>ps_quote := Some ch\<rparr>
      else if isspace ch then flush st
      else push_char ch st)"

definition parse_init :: parse_state where
  "parse_init = \<lparr>ps_arguments = [], ps_current = [], ps_escaped = False, ps_quote = None\<rparr>"

definition parse :: "string \<Rightarrow> kernel_command_line result" where
  "parse text =
     (let st = foldl parse_char parse_init text in
      if ps_escaped st then
        Inl (Invalid_argument ''Kernel command line ends with an escape character'')
      else if ps_quote st \<noteq> None then
        Inl (Invalid_argument ''Kernel command line contains an unterminated quote'')
      else Inr \<lparr>arguments = ps_arguments (flush st)\<rparr>)"

definition cmdline_empty :: "kernel_command_line \<Rightarrow> bool" where
  "cmdline_empty k \<longleftrightarrow> arguments k = []"

fun value_in :: "string \<Rightarrow> string list \<Rightarrow> string option" where
  "value_in key [] = None"
| "value_in key (argument # rest) =
     (if has_value argument key then Some (drop (length key + 1) argument) else value_in key rest)"

definition cmdline_value :: "kernel_command_line \<Rightarrow> string \<Rightarrow> string option" where
  "cmdline_value k key = value_in key (arguments k)"

definition cmdline_values :: "kernel_command_line \<Rightarrow> string \<Rightarrow> string list" where
  "cmdline_values k key =
     map (drop (length key + 1)) (filter (\<lambda>argument. has_value argument key) (arguments k))"

definition cmdline_contains :: "kernel_command_line \<Rightarrow> string \<Rightarrow> bool" where
  "cmdline_contains k key \<longleftrightarrow> (\<exists>argument\<in>set (arguments k). is_key argument key)"

text \<open>The key that \<open>set\<close> compares with is read back from the replacement up to its first
  equals sign.\<close>

fun replace_first :: "string \<Rightarrow> string \<Rightarrow> string list \<Rightarrow> string list" where
  "replace_first key replacement [] = [replacement]"
| "replace_first key replacement (argument # rest) =
     (if is_key argument key then replacement # rest
      else argument # replace_first key replacement rest)"

definition cmdline_set :: "kernel_command_line \<Rightarrow> string \<Rightarrow> string \<Rightarrow> kernel_command_line" where
  "cmdline_set k key val =
     (let replacement = key @ ''='' @ val;
          cmp = (case find_char (CHR ''='') replacement of
                   None \<Rightarrow> replacement | Some i \<Rightarrow> substr replacement 0 i) in
      k\<lparr>arguments := replace_first cmp replacement (arguments k)\<rparr>)"

definition cmdline_erase :: "kernel_command_line \<Rightarrow> string \<Rightarrow> kernel_command_line" where
  "cmdline_erase k key =
     k\<lparr>arguments := filter (\<lambda>argument. \<not> is_key argument key) (arguments k)\<rparr>"

definition render_step :: "string \<Rightarrow> string \<Rightarrow> string" where
  "render_step out argument = (if out \<noteq> [] then out @ '' '' else out) @ quote_argument argument"

definition cmdline_render :: "kernel_command_line \<Rightarrow> string" where
  "cmdline_render k = foldl render_step [] (arguments k)"

section \<open>Parsing back what is rendered\<close>

text \<open>An argument that the renderer writes so that the parser reads it back.\<close>

definition parse_safe :: "string \<Rightarrow> bool" where
  "parse_safe a \<longleftrightarrow> a \<noteq> [] \<and>
     ((\<exists>c\<in>set a. needs_quote c) \<or> (\<forall>c\<in>set a. c \<noteq> SQUOTE \<and> \<not> isspace c))"

definition ps_clean :: "parse_state \<Rightarrow> bool" where
  "ps_clean st \<longleftrightarrow> \<not> ps_escaped st \<and> ps_quote st = None"

lemma push_char_id: "ps_current st = cur \<Longrightarrow> push_char c st = st\<lparr>ps_current := cur @ [c]\<rparr>"
  by (simp add: push_char_def)

lemma ws_isspace: "is_ws c \<Longrightarrow> isspace c"
  by (simp add: isspace_def)

lemma parse_plain:
  "ps_clean st \<Longrightarrow> \<forall>c\<in>set a. \<not> needs_quote c \<and> c \<noteq> SQUOTE \<and> \<not> isspace c \<Longrightarrow>
     foldl parse_char st a = st\<lparr>ps_current := ps_current st @ a\<rparr>"
  by (induction a arbitrary: st) (auto simp: parse_char_def push_char_def ps_clean_def needs_quote_def)

lemma parse_escaped:
  "\<not> ps_escaped st \<Longrightarrow> ps_quote st = Some DQUOTE \<Longrightarrow>
     foldl parse_char st (escape_chars a) = st\<lparr>ps_current := ps_current st @ a\<rparr>"
  by (induction a arbitrary: st) (auto simp: parse_char_def push_char_def)

lemma parse_quote_argument:
  assumes "ps_clean st" and "parse_safe a"
  shows "foldl parse_char st (quote_argument a) = st\<lparr>ps_current := ps_current st @ a\<rparr>"
proof (cases "find_index needs_quote a = None")
  case True
  then have "\<forall>c\<in>set a. \<not> needs_quote c" by (simp add: find_index_None_iff)
  with True assms show ?thesis
    by (auto simp: quote_argument_def parse_safe_def intro!: parse_plain)
next
  case False
  have "parse_char st DQUOTE = st\<lparr>ps_quote := Some DQUOTE\<rparr>"
    using assms(1) by (simp add: parse_char_def ps_clean_def)
  moreover have "quote_argument a = DQUOTE # escape_chars a @ [DQUOTE]"
    using False by (auto simp: quote_argument_def)
  ultimately show ?thesis using assms(1)
    by (simp add: parse_escaped ps_clean_def) (simp add: parse_char_def)
qed

lemma quote_argument_not_Nil: "parse_safe a \<Longrightarrow> quote_argument a \<noteq> []"
  by (auto simp: quote_argument_def parse_safe_def)

lemma render_from:
  "out \<noteq> [] \<Longrightarrow> foldl render_step out args = out @ concat (map (\<lambda>a. '' '' @ quote_argument a) args)"
  by (induction args arbitrary: out) (auto simp: render_step_def)

lemma parse_rendered_rest:
  assumes "ps_clean st" and "\<forall>a\<in>set args. parse_safe a"
  shows "ps_clean (foldl parse_char st (concat (map (\<lambda>a. '' '' @ quote_argument a) args)))
    \<and> ps_arguments (flush (foldl parse_char st (concat (map (\<lambda>a. '' '' @ quote_argument a) args))))
      = ps_arguments (flush st) @ args"
  using assms
proof (induction args arbitrary: st)
  case Nil
  then show ?case by simp
next
  case (Cons a args)
  have "parse_char st (CHR '' '') = flush st"
    using Cons.prems(1) by (simp add: parse_char_def ps_clean_def isspace_def)
  moreover have c: "ps_clean (flush st)" "ps_current (flush st) = []"
    using Cons.prems(1) by (auto simp: ps_clean_def flush_def)
  ultimately have "foldl parse_char st ('' '' @ quote_argument a) = (flush st)\<lparr>ps_current := a\<rparr>"
    using parse_quote_argument [of "flush st" a] Cons.prems(2) by simp
  moreover have "ps_clean ((flush st)\<lparr>ps_current := a\<rparr>)" using c by (simp add: ps_clean_def)
  moreover have "ps_arguments (flush ((flush st)\<lparr>ps_current := a\<rparr>)) = ps_arguments (flush st) @ [a]"
    using Cons.prems(2) by (auto simp: flush_def parse_safe_def)
  ultimately show ?case using Cons.IH [of "(flush st)\<lparr>ps_current := a\<rparr>"] Cons.prems(2) by simp
qed

lemma parse_rendered:
  assumes "\<forall>a\<in>set (arguments k). parse_safe a"
  shows "parse (cmdline_render k) = Inr k"
proof (cases "arguments k")
  case Nil
  then show ?thesis by (simp add: cmdline_render_def parse_def parse_init_def flush_def)
next
  case (Cons a args)
  have i: "ps_clean parse_init" by (simp add: ps_clean_def parse_init_def)
  have sa: "parse_safe a" using assms Cons by simp
  let ?st = "parse_init\<lparr>ps_current := a\<rparr>"
  have "foldl parse_char parse_init (quote_argument a) = ?st"
    using parse_quote_argument [OF i sa] by (simp add: parse_init_def)
  moreover have "ps_clean ?st" using i by (simp add: ps_clean_def)
  moreover have "ps_arguments (flush ?st) = [a]"
    using sa by (simp add: flush_def parse_init_def parse_safe_def)
  moreover have "cmdline_render k =
      quote_argument a @ concat (map (\<lambda>a. '' '' @ quote_argument a) args)"
    using Cons sa by (simp add: cmdline_render_def render_step_def render_from quote_argument_not_Nil)
  ultimately show ?thesis
    using parse_rendered_rest [of ?st args] assms Cons by (simp add: parse_def Let_def ps_clean_def)
qed

text \<open>
  C18: rendering a command line and parsing the text again gives back the same arguments, for
  arguments that are not empty and that contain a single quote, a vertical tab or a form feed only
  together with a character that makes the renderer quote them.
\<close>

theorem parse_render:
  assumes "\<forall>a\<in>set (arguments k). parse_safe a"
  shows "parse (cmdline_render k) = Inr k"
  using assms by (rule parse_rendered)

theorem parse_render_witness:
  "parse (cmdline_render \<lparr>arguments = [''rw'', ''a b'', DQUOTE # ''x'']\<rparr>)
     = Inr \<lparr>arguments = [''rw'', ''a b'', DQUOTE # ''x'']\<rparr>"
  by (rule parse_render) (auto simp: parse_safe_def needs_quote_def is_ws_def isspace_def)

text \<open>
  the renderer does not quote an argument whose only special character is a single quote, so
  there is a command line that parses and whose rendering the same parser rejects.
\<close>

lemma parse_render_unstable:
  "\<exists>text k e. parse text = Inr k \<and> parse (cmdline_render k) = Inl e"
proof (intro exI conjI)
  show "parse (DQUOTE # ''it'' @ SQUOTE # ''s'' @ [DQUOTE]) = Inr \<lparr>arguments = [''it'' @ SQUOTE # ''s'']\<rparr>"
    by (simp add: parse_def parse_init_def parse_char_def push_char_def isspace_def is_ws_def flush_def Let_def)
  show "parse (cmdline_render \<lparr>arguments = [''it'' @ SQUOTE # ''s'']\<rparr>)
      = Inl (Invalid_argument ''Kernel command line contains an unterminated quote'')"
    by (simp add: cmdline_render_def render_step_def quote_argument_def needs_quote_def parse_def
        parse_init_def parse_char_def push_char_def isspace_def is_ws_def Let_def)
qed

section \<open>Parsed arguments are never empty\<close>

lemma parse_char_nonempty:
  "[] \<notin> set (ps_arguments st) \<Longrightarrow> [] \<notin> set (ps_arguments (parse_char st c))"
  by (auto simp: parse_char_def push_char_def flush_def)

lemma parse_chars_nonempty:
  "[] \<notin> set (ps_arguments st) \<Longrightarrow> [] \<notin> set (ps_arguments (foldl parse_char st s))"
  by (induction s arbitrary: st) (auto simp: parse_char_nonempty)

lemma parse_nonempty: "parse s = Inr k \<Longrightarrow> [] \<notin> set (arguments k)"
  using parse_chars_nonempty [of parse_init s]
  by (auto simp: parse_def Let_def flush_def parse_init_def split: if_splits)

section \<open>Look-up after update\<close>

lemma has_value_iff: "has_value a key \<longleftrightarrow> (\<exists>v. a = key @ CHR ''='' # v)"
proof
  assume h: "has_value a key"
  then obtain t where t: "a = key @ t" by (auto simp: has_value_def starts_with_iff)
  with h show "\<exists>v. a = key @ CHR ''='' # v" by (cases t) (auto simp: has_value_def)
qed (auto simp: has_value_def starts_with_iff)

lemma eq_split_unique:
  "a @ c # x = b @ c # y \<Longrightarrow> c \<notin> set a \<Longrightarrow> c \<notin> set b \<Longrightarrow> a = b \<and> x = y"
proof (induction a arbitrary: b)
  case Nil
  then show ?case by (cases b) auto
next
  case (Cons d a)
  then show ?case by (cases b) auto
qed

lemma has_value_key_unique:
  "has_value a k \<Longrightarrow> has_value a k' \<Longrightarrow> CHR ''='' \<notin> set k \<Longrightarrow> CHR ''='' \<notin> set k' \<Longrightarrow> k = k'"
  by (auto simp: has_value_iff dest: eq_split_unique)

lemma is_key_value: "has_value a key \<Longrightarrow> is_key a key"
  by (simp add: is_key_def)

lemma not_is_key_other:
  "is_key a key \<Longrightarrow> CHR ''='' \<notin> set key \<Longrightarrow> CHR ''='' \<notin> set key' \<Longrightarrow> key' \<noteq> key \<Longrightarrow>
     \<not> has_value a key'"
  by (auto simp: is_key_def has_value_iff dest: eq_split_unique)

lemma value_in_replace_first:
  assumes "CHR ''='' \<notin> set key"
  shows "value_in key (replace_first key (key @ ''='' @ v) args) = Some v"
  by (induction args) (auto simp: is_key_def has_value_iff)

lemma value_in_replace_first_other:
  assumes "CHR ''='' \<notin> set key" "CHR ''='' \<notin> set key'" "key' \<noteq> key"
  shows "value_in key' (replace_first key (key @ ''='' @ v) args) = value_in key' args"
proof -
  have r: "\<not> has_value (key @ ''='' @ v) key'"
    using assms by (auto simp: has_value_iff dest: eq_split_unique)
  show ?thesis
    by (induction args) (auto simp: r [simplified] dest: not_is_key_other [OF _ assms])
qed

lemma cmdline_set_args:
  "CHR ''='' \<notin> set key \<Longrightarrow>
     arguments (cmdline_set k key v) = replace_first key (key @ ''='' @ v) (arguments k)"
  by (simp add: cmdline_set_def Let_def substr_def)

text \<open>
  after \<open>set(key, value)\<close> the command line has that value for \<open>key\<close>, and every other key
  without an equals sign keeps the value it had.
\<close>

lemma cmdline_set_value:
  assumes "CHR ''='' \<notin> set key"
  shows "cmdline_value (cmdline_set k key v) key = Some v \<and>
    (\<forall>key'. CHR ''='' \<notin> set key' \<and> key' \<noteq> key \<longrightarrow>
       cmdline_value (cmdline_set k key v) key' = cmdline_value k key')"
  using assms
  by (simp_all add: cmdline_value_def cmdline_set_args value_in_replace_first [simplified]
      value_in_replace_first_other [simplified])

lemma cmdline_set_value_witness:
  "CHR ''='' \<notin> set ''rootflags'' \<and>
   cmdline_value (cmdline_set \<lparr>arguments = [''root=x'', ''rootflags=old'']\<rparr> ''rootflags'' ''subvol=@'') ''rootflags''
     = Some ''subvol=@'' \<and>
   cmdline_value (cmdline_set \<lparr>arguments = [''root=x'', ''rootflags=old'']\<rparr> ''rootflags'' ''subvol=@'') ''root''
     = Some ''x''"
proof -
  have h: "CHR ''='' \<notin> set ''rootflags''" by simp
  note s = cmdline_set_value [OF h, of "\<lparr>arguments = [''root=x'', ''rootflags=old'']\<rparr>" "''subvol=@''"]
  have "cmdline_value \<lparr>arguments = [''root=x'', ''rootflags=old'']\<rparr> ''root'' = Some ''x''"
    by (simp add: cmdline_value_def has_value_def starts_with_def)
  with h s show ?thesis by simp
qed

lemma cmdline_erase_contains: "\<not> cmdline_contains (cmdline_erase k key) key"
  by (auto simp: cmdline_contains_def cmdline_erase_def)

lemma value_in_filter_other:
  assumes "CHR ''='' \<notin> set key" "CHR ''='' \<notin> set key'" "key' \<noteq> key"
  shows "value_in key' (filter (\<lambda>a. \<not> is_key a key) args) = value_in key' args"
  by (induction args) (auto dest: not_is_key_other [OF _ assms])

lemma cmdline_values_hd: "cmdline_value k key = (case cmdline_values k key of [] \<Rightarrow> None | v # _ \<Rightarrow> Some v)"
proof -
  have "value_in key args = (case map (drop (length key + 1)) (filter (\<lambda>a. has_value a key) args) of
      [] \<Rightarrow> None | v # _ \<Rightarrow> Some v)" for args
    by (induction args) auto
  then show ?thesis by (simp add: cmdline_value_def cmdline_values_def)
qed

end
