(* ===== verification/Menu.thy ===== *)
theory Menu
  imports Strings
begin

text \<open>
  \<open>domain::MenuNode\<close> and \<open>MenuDocument\<close> (include/.../domain/menu.hpp, src/domain/menu.cpp) and the
  renderer to Limine's configuration format (src/render/limine_renderer.cpp).
\<close>

section \<open>The menu tree\<close>

datatype node_kind = Directory | Linux_entry

record linux_boot_spec =
  protocol :: string
  kernel_path :: string
  module_paths :: "string list"
  boot_cmdline :: string

datatype menu_node = MenuNode
  (mn_kind: node_kind) (mn_title: string) (mn_comment: "string option")
  (mn_expanded: bool) (mn_boot: "linux_boot_spec option") (mn_children: "menu_node list")

record menu_document =
  global_options :: "(string \<times> string) list"
  doc_roots :: "menu_node list"

definition directory :: "string \<Rightarrow> bool \<Rightarrow> menu_node" where
  "directory title expanded = MenuNode Directory title None expanded None []"

definition linux_entry :: "string \<Rightarrow> string \<Rightarrow> linux_boot_spec \<Rightarrow> menu_node" where
  "linux_entry title comment spec = MenuNode Linux_entry title (Some comment) False (Some spec) []"

fun add_child :: "menu_node \<Rightarrow> menu_node \<Rightarrow> menu_node result" where
  "add_child (MenuNode k t c e b ch) child =
     (if k \<noteq> Directory then Inl (Logic_error ''Only directory nodes can contain children'')
      else Inr (MenuNode k t c e b (ch @ [child])))"

section \<open>The renderer\<close>

text \<open>The text \<open>render_node\<close> writes for one node before its children.\<close>

definition heading :: "nat \<Rightarrow> bool \<Rightarrow> string \<Rightarrow> string" where
  "heading depth expanded title =
     replicate depth (CHR ''/'') @ (if expanded then ''+'' else []) @ title"

definition render_comment :: "string option \<Rightarrow> string" where
  "render_comment c = (case c of
       None \<Rightarrow> []
     | Some t \<Rightarrow> if t \<noteq> [] then ''    comment: '' @ t @ [NL] else [])"

definition render_boot :: "linux_boot_spec \<Rightarrow> string" where
  "render_boot b =
     ''    protocol: '' @ protocol b @ [NL] @
     ''    path: '' @ kernel_path b @ [NL] @
     concat (map (\<lambda>m. ''    module_path: '' @ m @ [NL]) (module_paths b)) @
     ''    cmdline: '' @ boot_cmdline b @ [NL]"

fun render_node :: "menu_node \<Rightarrow> nat \<Rightarrow> string result"
  and render_nodes :: "menu_node list \<Rightarrow> nat \<Rightarrow> string result" where
  "render_node (MenuNode k t c e b ch) depth =
     (if depth = 0 then Inl (Logic_error ''Menu depth starts at one'')
      else bind_r
        (if k = Linux_entry then
           (case b of None \<Rightarrow> Inl (Logic_error ''Linux entry has no boot specification'')
                    | Some spec \<Rightarrow> Inr (render_boot spec))
         else Inr [])
        (\<lambda>boot. bind_r (render_nodes ch (depth + 1))
          (\<lambda>rest. Inr (heading depth e t @ [NL] @ render_comment c @ boot @ rest @ [NL]))))"
| "render_nodes [] depth = Inr []"
| "render_nodes (n # ns) depth =
     bind_r (render_node n depth) (\<lambda>s. bind_r (render_nodes ns depth) (\<lambda>r. Inr (s @ r)))"

definition render_limine :: "menu_document \<Rightarrow> string result" where
  "render_limine doc =
     bind_r (render_nodes (doc_roots doc) 1) (\<lambda>body. Inr (
       ''# Generated by limine-manager. Do not edit manually.'' @ [NL] @
       concat (map (\<lambda>(name, value). name @ '': '' @ value @ [NL]) (global_options doc)) @
       [NL] @ body))"

section \<open>When rendering succeeds\<close>

fun bootable :: "menu_node \<Rightarrow> bool" where
  "bootable (MenuNode k t c e b ch) \<longleftrightarrow>
     (k = Linux_entry \<longrightarrow> b \<noteq> None) \<and> (\<forall>n\<in>set ch. bootable n)"

lemma render_node_defined:
  "d \<noteq> 0 \<Longrightarrow> (\<exists>s. render_node n d = Inr s) \<longleftrightarrow> bootable n"
  "d \<noteq> 0 \<Longrightarrow> (\<exists>s. render_nodes ns d = Inr s) \<longleftrightarrow> (\<forall>n\<in>set ns. bootable n)"
proof (induction n d and ns d rule: render_node_render_nodes.induct)
  case (1 k t c e b ch depth)
  then show ?case by (cases b) (auto simp: bind_r_def split: sum.splits)
next
  case (2 depth)
  then show ?case by simp
next
  case (3 n ns depth)
  then show ?case by (auto simp: bind_r_def split: sum.splits)
qed

text \<open>
  rendering a document throws exactly when some entry of it, at any depth, is a Linux entry
  without a boot specification; the depth check never fires.
\<close>

lemma render_limine_total:
  "(\<exists>text. render_limine doc = Inr text) \<longleftrightarrow> list_all bootable (doc_roots doc)"
  using render_node_defined(2) [of 1 "doc_roots doc"]
  by (auto simp: render_limine_def result_simps list_all_iff)

lemma bootable_directory [simp]: "bootable (directory t e)"
  by (simp add: directory_def)

lemma bootable_linux_entry [simp]: "bootable (linux_entry t c s)"
  by (simp add: linux_entry_def)

lemma add_child_directory [simp]:
  "mn_kind n = Directory \<Longrightarrow> add_child n c =
     Inr (MenuNode Directory (mn_title n) (mn_comment n) (mn_expanded n) (mn_boot n) (mn_children n @ [c]))"
  by (cases n) simp

lemma add_child_error: "(\<exists>e. add_child n c = Inl e) \<longleftrightarrow> mn_kind n = Linux_entry"
  by (cases n; cases "mn_kind n") auto

section \<open>The lines of a rendering\<close>

definition boot_lines :: "linux_boot_spec \<Rightarrow> string list" where
  "boot_lines b =
     [''    protocol: '' @ protocol b, ''    path: '' @ kernel_path b] @
     map (\<lambda>m. ''    module_path: '' @ m) (module_paths b) @ [''    cmdline: '' @ boot_cmdline b]"

definition comment_lines :: "string option \<Rightarrow> string list" where
  "comment_lines c = (case c of None \<Rightarrow> [] | Some t \<Rightarrow> if t \<noteq> [] then [''    comment: '' @ t] else [])"

definition entry_lines :: "node_kind \<Rightarrow> linux_boot_spec option \<Rightarrow> string list" where
  "entry_lines k b =
     (if k \<noteq> Linux_entry then [] else case b of None \<Rightarrow> [] | Some s \<Rightarrow> boot_lines s)"

fun node_lines :: "menu_node \<Rightarrow> nat \<Rightarrow> string list" where
  "node_lines (MenuNode k t c e b ch) d =
     heading d e t # comment_lines c @ entry_lines k b @
     concat (map (\<lambda>n. node_lines n (d + 1)) ch) @ [[]]"

text \<open>The menu as an outline: depth, fold flag and title of every node in depth-first order.\<close>

fun outline :: "menu_node \<Rightarrow> nat \<Rightarrow> (nat \<times> bool \<times> string) list" where
  "outline (MenuNode k t c e b ch) d = (d, e, t) # concat (map (\<lambda>n. outline n (d + 1)) ch)"

definition boot_clean :: "linux_boot_spec \<Rightarrow> bool" where
  "boot_clean b \<longleftrightarrow> NL \<notin> set (protocol b) \<and> NL \<notin> set (kernel_path b) \<and>
     (\<forall>m\<in>set (module_paths b). NL \<notin> set m) \<and> NL \<notin> set (boot_cmdline b)"

text \<open>No text of the tree contains a newline.\<close>

fun node_clean :: "menu_node \<Rightarrow> bool" where
  "node_clean (MenuNode k t c e b ch) \<longleftrightarrow>
     NL \<notin> set t \<and> (case c of None \<Rightarrow> True | Some x \<Rightarrow> NL \<notin> set x) \<and>
     (case b of None \<Rightarrow> True | Some s \<Rightarrow> boot_clean s) \<and> (\<forall>n\<in>set ch. node_clean n)"

definition as_text :: "string list \<Rightarrow> string" where
  "as_text ls = concat (map (\<lambda>l. l @ [NL]) ls)"

lemma as_text_simps [simp]:
  "as_text [] = []" "as_text (l # ls) = l @ NL # as_text ls"
  "as_text (xs @ ys) = as_text xs @ as_text ys"
  by (simp_all add: as_text_def)

lemma getlines_as_text: "(\<forall>l\<in>set ls. NL \<notin> set l) \<Longrightarrow> getlines (as_text ls) = ls"
  using getlines_concat [of ls "[]"] by (simp add: as_text_def)

lemma render_boot_lines: "render_boot b = as_text (boot_lines b)"
  by (simp add: render_boot_def boot_lines_def as_text_def comp_def)

lemma render_comment_lines: "render_comment c = as_text (comment_lines c)"
  by (simp add: render_comment_def comment_lines_def split: option.split)

lemma render_node_lines:
  "render_node n d = Inr s \<Longrightarrow> s = as_text (node_lines n d)"
  "render_nodes ns d = Inr s \<Longrightarrow> s = as_text (concat (map (\<lambda>n. node_lines n d) ns))"
proof (induction n d and ns d arbitrary: s and s rule: render_node_render_nodes.induct)
  case (1 k t c e b ch depth)
  then show ?case
    by (cases b) (auto simp: result_simps render_boot_lines render_comment_lines entry_lines_def split: if_splits)
next
  case (2 depth)
  then show ?case by simp
next
  case (3 n ns depth)
  then show ?case by (auto simp: result_simps)
qed

lemma boot_lines_clean: "boot_clean b \<Longrightarrow> l \<in> set (boot_lines b) \<Longrightarrow> NL \<notin> set l"
  by (auto simp: boot_clean_def boot_lines_def)

lemma entry_lines_clean:
  "l \<in> set (entry_lines k b) \<Longrightarrow> \<exists>s. b = Some s \<and> l \<in> set (boot_lines s)"
  by (cases b; cases k) (auto simp: entry_lines_def)

lemma node_lines_clean: "node_clean n \<Longrightarrow> l \<in> set (node_lines n d) \<Longrightarrow> NL \<notin> set l"
proof (induction n arbitrary: d)
  case (MenuNode k t c e b ch)
  have "NL \<notin> set (heading d e t)" using MenuNode.prems(1) by (simp add: heading_def)
  moreover have "l \<in> set (comment_lines c) \<Longrightarrow> NL \<notin> set l"
    using MenuNode.prems(1) by (cases c) (auto simp: comment_lines_def split: if_splits)
  moreover have "l \<in> set (entry_lines k b) \<Longrightarrow> NL \<notin> set l"
    using MenuNode.prems(1) by (auto dest!: entry_lines_clean dest: boot_lines_clean)
  moreover have "\<And>x. x \<in> set ch \<Longrightarrow> l \<in> set (node_lines x (d + 1)) \<Longrightarrow> NL \<notin> set l"
    using MenuNode.IH MenuNode.prems(1) by auto
  ultimately show ?case using MenuNode.prems(2) by auto
qed

definition is_heading :: "string \<Rightarrow> bool" where
  "is_heading l \<longleftrightarrow> l \<noteq> [] \<and> hd l = CHR ''/''"

lemma is_heading_Nil [simp]: "\<not> is_heading []"
  by (simp add: is_heading_def)

lemma headings_of_boot [simp]: "filter is_heading (boot_lines b) = []"
  by (auto simp: boot_lines_def is_heading_def filter_empty_conv)

lemma headings_of_comment [simp]: "filter is_heading (comment_lines c) = []"
  by (auto simp: comment_lines_def is_heading_def split: option.split)

lemma headings_of_entry [simp]: "filter is_heading (entry_lines k b) = []"
  by (cases b) (auto simp: entry_lines_def)

lemma headings_of_node:
  "0 < d \<Longrightarrow> filter is_heading (node_lines n d) = map (\<lambda>(d, e, t). heading d e t) (outline n d)"
proof (induction n arbitrary: d)
  case (MenuNode k t c e b ch)
  have h: "is_heading (heading d e t)"
    using MenuNode.prems by (cases d) (auto simp: is_heading_def heading_def)
  have "concat (map (\<lambda>n. filter is_heading (node_lines n (d + 1))) ch) =
      concat (map (\<lambda>n. map (\<lambda>(d, e, t). heading d e t) (outline n (d + 1))) ch)"
    using MenuNode.IH by (intro arg_cong [where f = concat] map_cong) auto
  then show ?case
    using h by (simp add: filter_concat map_concat comp_def)
qed

text \<open>
  C27: in the rendering of a document whose texts contain no newline, the lines that start with a
  slash are, in order, exactly the headings of its nodes in depth-first order, each with as many
  slashes as its depth: comments, paths and command lines never look like menu entries.
\<close>

theorem render_limine_outline:
  assumes "render_limine doc = Inr text"
    and "\<forall>n\<in>set (doc_roots doc). node_clean n"
    and "\<forall>(name, value)\<in>set (global_options doc).
           NL \<notin> set name \<and> NL \<notin> set value \<and> name \<noteq> [] \<and> hd name \<noteq> CHR ''/''"
  shows "filter is_heading (getlines text) =
     map (\<lambda>(d, e, t). heading d e t) (concat (map (\<lambda>n. outline n 1) (doc_roots doc)))"
proof -
  let ?opts = "map (\<lambda>(name, value). name @ '': '' @ value) (global_options doc)"
  let ?body = "concat (map (\<lambda>n. node_lines n 1) (doc_roots doc))"
  let ?ls = "''# Generated by limine-manager. Do not edit manually.'' # ?opts @ [] # ?body"
  have opts: "concat (map (\<lambda>(name, value). name @ '': '' @ value @ [NL]) (global_options doc)) = as_text ?opts"
    by (simp add: as_text_def comp_def split_def)
  have "text = as_text ?ls"
    using assms(1) render_node_lines(2) [of "doc_roots doc" 1]
    unfolding render_limine_def result_simps opts by auto
  moreover have "\<forall>l\<in>set ?ls. NL \<notin> set l"
    using assms(2,3) node_lines_clean by fastforce
  ultimately have "getlines text = ?ls" using getlines_as_text by blast
  moreover have "filter is_heading ?opts = []"
    using assms(3) by (auto simp: filter_empty_conv is_heading_def)
  moreover have "filter is_heading ?body = map (\<lambda>(d, e, t). heading d e t)
      (concat (map (\<lambda>n. outline n 1) (doc_roots doc)))"
    by (simp add: filter_concat map_concat comp_def headings_of_node)
  ultimately show ?thesis by (simp add: is_heading_def)
qed

theorem render_limine_outline_witness:
  "\<exists>text. render_limine \<lparr>global_options = [(''timeout'', ''5'')],
      doc_roots = [MenuNode Directory ''Arch'' None True None [linux_entry ''Linux'' ''k''
        \<lparr>protocol = ''linux'', kernel_path = ''boot():/v'', module_paths = [''boot():/i''], boot_cmdline = ''rw''\<rparr>]]\<rparr>
      = Inr text \<and>
    filter is_heading (getlines text) = [''/+Arch'', ''//Linux'']"
proof -
  let ?doc = "\<lparr>global_options = [(''timeout'', ''5'')],
      doc_roots = [MenuNode Directory ''Arch'' None True None [linux_entry ''Linux'' ''k''
        \<lparr>protocol = ''linux'', kernel_path = ''boot():/v'', module_paths = [''boot():/i''], boot_cmdline = ''rw''\<rparr>]]\<rparr>"
  obtain out where t: "render_limine ?doc = Inr out"
    using render_limine_total [of ?doc] by (auto simp: linux_entry_def)
  moreover have "filter is_heading (getlines out) = [''/+Arch'', ''//Linux'']"
    using render_limine_outline [OF t]
    by (simp add: linux_entry_def boot_clean_def heading_def)
  ultimately show ?thesis by blast
qed

end
