(* ===== verification/File_System.thy ===== *)
theory File_System
  imports Paths
begin

text \<open>
  The virtual interface \<open>infrastructure::FileSystem\<close> (include/.../filesystem.hpp) through which the
  program inspects the host. A client takes the interface as a record of its operations; the laws
  a client may rely on are the locale \<open>file_system_laws\<close>, which the model of \<open>RealFileSystem\<close>
  (theory Real_File_System) interprets.
\<close>

record directory_entry =
  entry_path :: path
  regular_file :: bool
  is_dir :: bool

record file_system =
  fs_exists :: "path \<Rightarrow> bool"
  fs_is_regular_file :: "path \<Rightarrow> bool"
  fs_is_directory :: "path \<Rightarrow> bool"
  fs_readable :: "path \<Rightarrow> bool"
  fs_read_text :: "path \<Rightarrow> string"
  fs_list_directory :: "path \<Rightarrow> directory_entry list"
  fs_canonical :: "path \<Rightarrow> path"

locale file_system_laws =
  fixes fs :: file_system
  assumes readable_regular: "fs_readable fs p \<Longrightarrow> fs_is_regular_file fs p"
    and regular_exists: "fs_is_regular_file fs p \<Longrightarrow> fs_exists fs p"
    and directory_exists: "fs_is_directory fs p \<Longrightarrow> fs_exists fs p"
    and regular_not_directory: "\<not> (fs_is_regular_file fs p \<and> fs_is_directory fs p)"
    and listed_regular: "e \<in> set (fs_list_directory fs d) \<Longrightarrow> regular_file e \<Longrightarrow>
                           fs_is_regular_file fs (entry_path e)"
    and listed_directory: "e \<in> set (fs_list_directory fs d) \<Longrightarrow> is_dir e \<Longrightarrow>
                             fs_is_directory fs (entry_path e)"
begin

lemma listed_kind: "e \<in> set (fs_list_directory fs d) \<Longrightarrow> \<not> (regular_file e \<and> is_dir e)"
  using listed_regular listed_directory regular_not_directory by blast

lemma readable_exists: "fs_readable fs p \<Longrightarrow> fs_exists fs p"
  using readable_regular regular_exists by blast

end

end
