(* ===== verification/Change_Plan.thy ===== *)
theory Change_Plan
  imports File_System
begin

text \<open>
  \<open>application::ChangePlanner\<close> (src/application/change_planner.cpp): the comparison of the
  generated configuration with the installed one, and the plan that every writer starts from.
\<close>

datatype change_kind = Unchanged | Create | Update

record change_plan =
  plan_kind :: change_kind
  plan_target :: path
  plan_installed :: string
  plan_generated :: string

definition has_changes :: "change_plan \<Rightarrow> bool" where
  "has_changes plan \<longleftrightarrow> plan_kind plan \<noteq> Unchanged"

definition normalize_newline :: "string \<Rightarrow> string" where
  "normalize_newline value = (if value \<noteq> [] \<and> last value \<noteq> NL then value @ [NL] else value)"

definition build_change_plan :: "file_system \<Rightarrow> path \<Rightarrow> string \<Rightarrow> change_plan" where
  "build_change_plan fs target generated =
     (let generated = normalize_newline generated in
      if \<not> fs_exists fs target then
        \<lparr>plan_kind = Create, plan_target = target, plan_installed = [], plan_generated = generated\<rparr>
      else
        (let installed = normalize_newline (fs_read_text fs target) in
         \<lparr>plan_kind = (if installed = generated then Unchanged else Update),
          plan_target = target, plan_installed = installed, plan_generated = generated\<rparr>))"

fun change_kind_to_string :: "change_kind \<Rightarrow> string" where
  "change_kind_to_string Unchanged = ''unchanged''"
| "change_kind_to_string Create = ''create''"
| "change_kind_to_string Update = ''update''"

lemma normalize_newline_idem [simp]: "normalize_newline (normalize_newline s) = normalize_newline s"
  by (simp add: normalize_newline_def)

lemma normalize_newline_ends: "normalize_newline s = [] \<or> last (normalize_newline s) = NL"
  by (simp add: normalize_newline_def)

text \<open>
  the plan says there is nothing to do exactly when the target exists and its text equals the
  generated one up to a missing final newline; it is a creation exactly when the target does not
  exist; and planning a second time from the text the plan would install changes nothing.
\<close>

lemma change_plan_kind:
  "(plan_kind (build_change_plan fs t g) = Create \<longleftrightarrow> \<not> fs_exists fs t) \<and>
   (has_changes (build_change_plan fs t g) \<longleftrightarrow>
      \<not> (fs_exists fs t \<and> normalize_newline (fs_read_text fs t) = normalize_newline g)) \<and>
   build_change_plan fs t (plan_generated (build_change_plan fs t g)) = build_change_plan fs t g \<and>
   \<not> has_changes (build_change_plan
       (fs\<lparr>fs_exists := (fs_exists fs)(t := True),
           fs_read_text := (fs_read_text fs)(t := plan_generated (build_change_plan fs t g))\<rparr>) t g)"
  by (simp add: build_change_plan_def has_changes_def Let_def)

end
