(* ===== verification/Unified_Diff.thy ===== *)
theory Unified_Diff
  imports Change_Plan "HOL-Library.Sublist"
begin

text \<open>
  \<open>render::UnifiedDiffRenderer\<close> (src/render/unified_diff_renderer.cpp): the longest common
  subsequence table, the walk through it and the text of the diff.
\<close>

section \<open>The code\<close>

text \<open>\<open>lines\<close>: the loop over \<open>start\<close>.\<close>

function lines_from :: "string \<Rightarrow> nat \<Rightarrow> string list" where
  "lines_from s start =
     (if start < length s then
        (case find_char NL (drop start s) of
           None \<Rightarrow> [drop start s]
         | Some k \<Rightarrow> substr s start k # lines_from s (start + k + 1))
      else [])"
  by pat_completeness auto
termination
  by (relation "measure (\<lambda>(s, start). length s - start)") auto

declare lines_from.simps [simp del]

definition diff_lines :: "string \<Rightarrow> string list" where
  "diff_lines s = lines_from s 0"

text \<open>
  The table is filled from its last row and column: a row is computed from the row below it, and
  within a row from right to left.
\<close>

fun lcs_row :: "'a \<Rightarrow> 'a list \<Rightarrow> nat list \<Rightarrow> nat list" where
  "lcs_row b [] below = [0]"
| "lcs_row b (a # after) below =
     (let rest = lcs_row b after (tl below) in
      (if b = a then 1 + below ! 1 else max (below ! 0) (rest ! 0)) # rest)"

fun lcs_table :: "'a list \<Rightarrow> 'a list \<Rightarrow> nat list list" where
  "lcs_table [] after = [replicate (length after + 1) 0]"
| "lcs_table (b # before) after =
     (let t = lcs_table before after in lcs_row b after (t ! 0) # t)"

text \<open>
  The walk keeps \<open>i \<le> n\<close>, so the code's test \<open>i == n\<close> is \<open>n \<le> i\<close>.
\<close>

datatype edit = Kept string | Added string | Removed string

fun edit_text :: "edit \<Rightarrow> string" where
  "edit_text (Kept l) = '' '' @ l @ [NL]"
| "edit_text (Added l) = ''+'' @ l @ [NL]"
| "edit_text (Removed l) = ''-'' @ l @ [NL]"

function diff_walk :: "string list \<Rightarrow> string list \<Rightarrow> nat list list \<Rightarrow> nat \<Rightarrow> nat \<Rightarrow> edit list" where
  "diff_walk before after lcs i j =
     (let n = length before; m = length after in
      if i < n \<or> j < m then
        if i < n \<and> j < m \<and> before ! i = after ! j then
          Kept (before ! i) # diff_walk before after lcs (i + 1) (j + 1)
        else if j < m \<and> (n \<le> i \<or> lcs ! (i + 1) ! j \<le> lcs ! i ! (j + 1)) then
          Added (after ! j) # diff_walk before after lcs i (j + 1)
        else Removed (before ! i) # diff_walk before after lcs (i + 1) j
      else [])"
  by pat_completeness auto
termination
  by (relation "measure (\<lambda>(before, after, lcs, i, j). (length before - i) + (length after - j))") auto

declare diff_walk.simps [simp del]

definition diff_edits :: "change_plan \<Rightarrow> edit list" where
  "diff_edits plan =
     (let before = diff_lines (plan_installed plan); after = diff_lines (plan_generated plan) in
      diff_walk before after (lcs_table before after) 0 0)"

definition render_diff :: "change_plan \<Rightarrow> string" where
  "render_diff plan =
     (if \<not> has_changes plan then []
      else
        (let before = diff_lines (plan_installed plan); after = diff_lines (plan_generated plan) in
         ''--- '' @ (if plan_kind plan = Create then ''/dev/null'' else plan_target plan) @ [NL] @
         ''+++ '' @ plan_target plan @ '' (generated)'' @ [NL] @
         ''@@ -1,'' @ dec (length before) @ '' +1,'' @ dec (length after) @ '' @@'' @ [NL] @
         concat (map edit_text (diff_edits plan))))"

section \<open>The table holds longest common subsequence lengths\<close>

fun lcs_len :: "'a list \<Rightarrow> 'a list \<Rightarrow> nat" where
  "lcs_len [] ys = 0"
| "lcs_len xs [] = 0"
| "lcs_len (x # xs) (y # ys) =
     (if x = y then 1 + lcs_len xs ys else max (lcs_len xs (y # ys)) (lcs_len (x # xs) ys))"

lemma lcs_len_Nil2 [simp]: "lcs_len xs [] = 0"
  by (cases xs) auto

lemma lcs_row_correct:
  assumes "\<And>j. j \<le> length ys \<Longrightarrow> below ! j = lcs_len xs (drop j ys)"
    and "length below = length ys + 1"
  shows "length (lcs_row x ys below) = length ys + 1 \<and>
    (\<forall>j \<le> length ys. lcs_row x ys below ! j = lcs_len (x # xs) (drop j ys))"
  using assms
proof (induction ys arbitrary: below)
  case Nil
  then show ?case by simp
next
  case (Cons y ys)
  have t: "tl below ! j = below ! Suc j" if "j \<le> length ys" for j
    using that Cons.prems(2) by (simp add: nth_tl)
  have IH: "length (lcs_row x ys (tl below)) = length ys + 1 \<and>
      (\<forall>j \<le> length ys. lcs_row x ys (tl below) ! j = lcs_len (x # xs) (drop j ys))"
    using Cons.prems by (intro Cons.IH) (auto simp: t)
  moreover have "below ! 0 = lcs_len xs (y # ys)" and "below ! 1 = lcs_len xs ys"
    using Cons.prems(1) [of 0] Cons.prems(1) [of 1] by simp_all
  moreover have "lcs_row x ys (tl below) ! 0 = lcs_len (x # xs) ys" using IH by auto
  ultimately show ?case by (auto simp: Let_def nth_Cons split: nat.split)
qed

lemma lcs_table_correct:
  "length (lcs_table xs ys) = length xs + 1 \<and>
   (\<forall>i \<le> length xs. length (lcs_table xs ys ! i) = length ys + 1 \<and>
      (\<forall>j \<le> length ys. lcs_table xs ys ! i ! j = lcs_len (drop i xs) (drop j ys)))"
proof (induction xs)
  case Nil
  then show ?case by (auto simp: nth_replicate simp del: replicate_Suc)
next
  case (Cons x xs)
  have "length (lcs_row x ys (lcs_table xs ys ! 0)) = length ys + 1 \<and>
      (\<forall>j \<le> length ys. lcs_row x ys (lcs_table xs ys ! 0) ! j = lcs_len (x # xs) (drop j ys))"
    using Cons by (intro lcs_row_correct) auto
  with Cons show ?case by (auto simp: Let_def nth_Cons split: nat.split)
qed

lemmas lcs_table_at = lcs_table_correct [THEN conjunct2, rule_format, THEN conjunct2, rule_format]

lemma lcs_len_upper: "subseq zs xs \<Longrightarrow> subseq zs ys \<Longrightarrow> length zs \<le> lcs_len xs ys"
proof (induction xs ys arbitrary: zs rule: lcs_len.induct)
  case (3 x xs y ys)
  show ?case
  proof (cases zs)
    case (Cons z zs')
    show ?thesis
    proof (cases "x = y")
      case True
      show ?thesis
      proof (cases "z = x")
        case zx: True
        have "subseq zs' xs" "subseq zs' ys"
          using "3.prems" Cons True zx by (auto simp: subseq_Cons2_iff)
        with "3.IH"(1) True Cons show ?thesis by fastforce
      next
        case False
        have "subseq zs xs" "subseq zs ys"
          using "3.prems" Cons True False by (auto simp: subseq_Cons2_iff)
        with "3.IH"(1) True show ?thesis by fastforce
      qed
    next
      case False
      have "subseq zs xs \<or> subseq zs ys"
        using "3.prems" Cons False by (auto simp: subseq_Cons2_iff split: if_splits)
      then show ?thesis
        using "3.IH"(2,3) "3.prems" False by (auto simp: max_def) (meson le_trans nat_le_linear)+
    qed
  qed simp
qed auto

section \<open>What the walk produces\<close>

fun old_line :: "edit \<Rightarrow> string list" where
  "old_line (Kept l) = [l]" | "old_line (Removed l) = [l]" | "old_line (Added l) = []"

fun new_line :: "edit \<Rightarrow> string list" where
  "new_line (Kept l) = [l]" | "new_line (Added l) = [l]" | "new_line (Removed l) = []"

fun kept_line :: "edit \<Rightarrow> string list" where
  "kept_line (Kept l) = [l]" | "kept_line (Added l) = []" | "kept_line (Removed l) = []"

lemma diff_walk_sides:
  "i \<le> length xs \<Longrightarrow> j \<le> length ys \<Longrightarrow>
     concat (map old_line (diff_walk xs ys t i j)) = drop i xs \<and>
     concat (map new_line (diff_walk xs ys t i j)) = drop j ys"
proof (induction xs ys t i j rule: diff_walk.induct)
  case (1 xs ys t i j)
  consider (fin) "i = length xs" "j = length ys" | (old) "i < length xs" "j = length ys"
    | (new) "i = length xs" "j < length ys" | (both) "i < length xs" "j < length ys"
    using "1.prems" by linarith
  then show ?case
  proof cases
    case fin
    then show ?thesis by (simp add: diff_walk.simps)
  next
    case old
    with 1 show ?thesis
      by (simp add: diff_walk.simps [of xs ys t i] Let_def Cons_nth_drop_Suc)
  next
    case new
    with 1 show ?thesis
      by (simp add: diff_walk.simps [of xs ys t _ j] Let_def Cons_nth_drop_Suc)
  next
    case both
    then have d: "drop i xs = xs ! i # drop (Suc i) xs" "drop j ys = ys ! j # drop (Suc j) ys"
      by (simp_all add: Cons_nth_drop_Suc)
    from both 1 show ?thesis
      by (auto simp: diff_walk.simps [of xs ys t i j] Let_def d)
  qed
qed

lemma diff_walk_kept:
  assumes "i \<le> length xs" and "j \<le> length ys"
  shows "length (concat (map kept_line (diff_walk xs ys (lcs_table xs ys) i j)))
     = lcs_len (drop i xs) (drop j ys)"
  using assms
proof (induction xs ys "lcs_table xs ys" i j rule: diff_walk.induct)
  case (1 xs ys i j)
  consider (fin) "i = length xs" "j = length ys" | (old) "i < length xs" "j = length ys"
    | (new) "i = length xs" "j < length ys" | (both) "i < length xs" "j < length ys"
    using "1.prems" by linarith
  then show ?case
  proof cases
    case fin
    then show ?thesis by (simp add: diff_walk.simps)
  next
    case old
    with 1 show ?thesis by (subst diff_walk.simps) (simp add: Let_def)
  next
    case new
    with 1 show ?thesis by (subst diff_walk.simps) (simp add: Let_def)
  next
    case both
    have d: "drop i xs = xs ! i # drop (Suc i) xs" "drop j ys = ys ! j # drop (Suc j) ys"
      using both by (simp_all add: Cons_nth_drop_Suc)
    have "lcs_table xs ys ! (i + 1) ! j = lcs_len (drop (Suc i) xs) (drop j ys)"
      "lcs_table xs ys ! i ! (j + 1) = lcs_len (drop i xs) (drop (Suc j) ys)"
      using both lcs_table_at [of "i + 1" xs j ys] lcs_table_at [of i xs "j + 1" ys] by auto
    with 1 both show ?thesis
      by (subst diff_walk.simps) (auto simp: Let_def d)
  qed
qed

lemma kept_subseq: "subseq (concat (map kept_line es)) (concat (map old_line es)) \<and>
    subseq (concat (map kept_line es)) (concat (map new_line es))"
proof (induction es)
  case (Cons e es)
  then show ?case by (cases e) auto
qed simp

lemma diff_edits_old: "concat (map old_line (diff_edits p)) = diff_lines (plan_installed p)"
  and diff_edits_new: "concat (map new_line (diff_edits p)) = diff_lines (plan_generated p)"
  by (simp_all add: diff_edits_def Let_def diff_walk_sides)

text \<open>
  C20: the unchanged lines of a diff are a longest common subsequence of the two texts: they are
  common to both, and no common subsequence of the installed and the generated lines is longer.
\<close>

theorem diff_is_minimal:
  "let kept = concat (map kept_line (diff_edits plan));
       before = diff_lines (plan_installed plan); after = diff_lines (plan_generated plan) in
   subseq kept before \<and> subseq kept after \<and>
   \<not> (\<exists>zs. subseq zs before \<and> subseq zs after \<and> length kept < length zs)"
proof -
  let ?b = "diff_lines (plan_installed plan)" and ?a = "diff_lines (plan_generated plan)"
  have "length (concat (map kept_line (diff_edits plan))) = lcs_len ?b ?a"
    using diff_walk_kept [of 0 ?b 0 ?a] by (simp add: diff_edits_def Let_def)
  then show ?thesis
    using kept_subseq [of "diff_edits plan"] lcs_len_upper [of _ ?b ?a]
    by (auto simp: diff_edits_old diff_edits_new Let_def not_less)
qed

section \<open>The text of the diff determines both files\<close>

lemma lines_from_getlines: "lines_from s i = getlines (drop i s)"
proof (induction s i rule: lines_from.induct)
  case (1 s i)
  then show ?case
    by (subst lines_from.simps, subst getlines.simps)
       (auto simp: substr_def add.commute add.left_commute split: option.split)
qed

lemma diff_lines_eq: "diff_lines s = getlines s"
  by (simp add: diff_lines_def lines_from_getlines)

fun edit_char :: "edit \<Rightarrow> char" where
  "edit_char (Kept l) = CHR '' ''" | "edit_char (Added l) = CHR ''+''"
| "edit_char (Removed l) = CHR ''-''"

fun edit_line :: "edit \<Rightarrow> string" where
  "edit_line (Kept l) = l" | "edit_line (Added l) = l" | "edit_line (Removed l) = l"

lemma edit_text_eq: "edit_text e = (edit_char e # edit_line e) @ [NL]"
  by (cases e) auto

lemma edit_line_in: "edit_line e \<in> set (old_line e) \<union> set (new_line e)"
  by (cases e) auto

lemma diff_edits_no_NL: "e \<in> set (diff_edits p) \<Longrightarrow> NL \<notin> set (edit_line e)"
proof -
  assume e: "e \<in> set (diff_edits p)"
  have "edit_line e \<in> set (concat (map old_line (diff_edits p))) \<union>
      set (concat (map new_line (diff_edits p)))"
    using e edit_line_in [of e] by auto
  then show ?thesis
    unfolding diff_edits_old diff_edits_new diff_lines_eq using getlines_no_NL by blast
qed

lemma old_of_text: "map tl (filter (\<lambda>l. hd l = CHR '' '' \<or> hd l = CHR ''-'')
    (map (\<lambda>e. edit_char e # edit_line e) es)) = concat (map old_line es)"
proof (induction es)
  case (Cons e es)
  then show ?case by (cases e) auto
qed simp

lemma new_of_text: "map tl (filter (\<lambda>l. hd l = CHR '' '' \<or> hd l = CHR ''+'')
    (map (\<lambda>e. edit_char e # edit_line e) es)) = concat (map new_line es)"
proof (induction es)
  case (Cons e es)
  then show ?case by (cases e) auto
qed simp

lemma NL_notin_dec [simp]: "NL \<notin> set (dec n)"
  using isdigit_dec [of NL n] by (auto simp: isdigit_def)

lemma render_diff_lines:
  assumes "has_changes plan" and "NL \<notin> set (plan_target plan)"
  shows "\<exists>h1 h2 h3. getlines (render_diff plan) =
    h1 # h2 # h3 # map (\<lambda>e. edit_char e # edit_line e) (diff_edits plan)"
proof -
  let ?h1 = "''--- '' @ (if plan_kind plan = Create then ''/dev/null'' else plan_target plan)"
  let ?h2 = "''+++ '' @ plan_target plan @ '' (generated)''"
  let ?h3 = "''@@ -1,'' @ dec (length (diff_lines (plan_installed plan))) @ '' +1,'' @
    dec (length (diff_lines (plan_generated plan))) @ '' @@''"
  let ?ls = "?h1 # ?h2 # ?h3 # map (\<lambda>e. edit_char e # edit_line e) (diff_edits plan)"
  have et: "edit_text = (\<lambda>e. (edit_char e # edit_line e) @ [NL])"
    by (rule ext) (rule edit_text_eq)
  have "render_diff plan = concat (map (\<lambda>l. l @ [NL]) ?ls)"
    using assms(1) by (simp add: render_diff_def Let_def et comp_def)
  moreover have "\<forall>l\<in>set ?ls. NL \<notin> set l"
  proof -
    have "NL \<noteq> edit_char e" for e by (cases e) auto
    with assms(2) diff_edits_no_NL show ?thesis by auto
  qed
  ultimately have "getlines (render_diff plan) = ?ls"
    using getlines_concat [of ?ls "[]"] by simp
  then show ?thesis by blast
qed

text \<open>
  C19: from the text of a diff both files can be read back: below the three header lines, the lines
  marked with a blank or a minus sign are the installed file and those marked with a blank or a
  plus sign the generated one.
\<close>

theorem diff_reconstructs:
  assumes "has_changes plan" and "NL \<notin> set (plan_target plan)"
  shows "map tl (filter (\<lambda>l. hd l = CHR '' '' \<or> hd l = CHR ''-'') (drop 3 (getlines (render_diff plan))))
           = diff_lines (plan_installed plan)
       \<and> map tl (filter (\<lambda>l. hd l = CHR '' '' \<or> hd l = CHR ''+'') (drop 3 (getlines (render_diff plan))))
           = diff_lines (plan_generated plan)"
proof -
  obtain h1 h2 h3 where "getlines (render_diff plan) =
      h1 # h2 # h3 # map (\<lambda>e. edit_char e # edit_line e) (diff_edits plan)"
    using render_diff_lines [OF assms] by blast
  then have "drop 3 (getlines (render_diff plan)) =
      map (\<lambda>e. edit_char e # edit_line e) (diff_edits plan)" by simp
  then show ?thesis
    by (simp only: old_of_text new_of_text diff_edits_old diff_edits_new simp_thms)
qed

theorem diff_reconstructs_witness:
  "map tl (filter (\<lambda>l. hd l = CHR '' '' \<or> hd l = CHR ''+'') (drop 3 (getlines (render_diff
     \<lparr>plan_kind = Update, plan_target = ''/boot/limine.conf'', plan_installed = ''a'' @ [NL],
      plan_generated = ''a'' @ [NL] @ ''b'' @ [NL]\<rparr>))))
   = diff_lines (''a'' @ [NL] @ ''b'' @ [NL])"
  using diff_reconstructs [of "\<lparr>plan_kind = Update, plan_target = ''/boot/limine.conf'',
      plan_installed = ''a'' @ [NL], plan_generated = ''a'' @ [NL] @ ''b'' @ [NL]\<rparr>"]
  by (simp add: has_changes_def)

end
