(* ===== verification/Report.thy ===== *)
theory Report
  imports Strings
begin

text \<open>
  The diagnostic values of the domain layer: \<open>ValidationReport\<close> (src/domain/validation.cpp) and
  the enumerations and plan of the rollback domain (src/domain/rollback.cpp, rollback.hpp).
\<close>

section \<open>Validation reports\<close>

datatype diagnostic_severity = Info | Warning | Error

record diagnostic =
  severity :: diagnostic_severity
  code :: string
  message :: string

record validation_report =
  diagnostics :: "diagnostic list"

definition empty_report :: validation_report where
  "empty_report = \<lparr>diagnostics = []\<rparr>"

definition report_add :: "diagnostic_severity \<Rightarrow> string \<Rightarrow> string \<Rightarrow> validation_report \<Rightarrow> validation_report" where
  "report_add s c m r = r\<lparr>diagnostics := diagnostics r @ [\<lparr>severity = s, code = c, message = m\<rparr>]\<rparr>"

definition report_info :: "string \<Rightarrow> string \<Rightarrow> validation_report \<Rightarrow> validation_report" where
  "report_info c m r = report_add Info c m r"

definition report_warning :: "string \<Rightarrow> string \<Rightarrow> validation_report \<Rightarrow> validation_report" where
  "report_warning c m r = report_add Warning c m r"

definition report_error :: "string \<Rightarrow> string \<Rightarrow> validation_report \<Rightarrow> validation_report" where
  "report_error c m r = report_add Error c m r"

definition error_count :: "validation_report \<Rightarrow> nat" where
  "error_count r = length (filter (\<lambda>d. severity d = Error) (diagnostics r))"

definition warning_count :: "validation_report \<Rightarrow> nat" where
  "warning_count r = length (filter (\<lambda>d. severity d = Warning) (diagnostics r))"

definition valid :: "validation_report \<Rightarrow> bool" where
  "valid r \<longleftrightarrow> error_count r = 0"

fun severity_to_string :: "diagnostic_severity \<Rightarrow> string" where
  "severity_to_string Info = ''INFO''"
| "severity_to_string Warning = ''WARN''"
| "severity_to_string Error = ''ERROR''"

named_theorems report_simps

lemma valid_empty [report_simps]: "valid empty_report"
  by (simp add: valid_def error_count_def empty_report_def)

lemma valid_info [report_simps]: "valid (report_info c m r) \<longleftrightarrow> valid r"
  by (simp add: valid_def error_count_def report_info_def report_add_def)

lemma valid_warning [report_simps]: "valid (report_warning c m r) \<longleftrightarrow> valid r"
  by (simp add: valid_def error_count_def report_warning_def report_add_def)

lemma valid_error [report_simps]: "\<not> valid (report_error c m r)"
  by (simp add: valid_def error_count_def report_error_def report_add_def)

lemma valid_if [report_simps]: "valid (if b then r else s) \<longleftrightarrow> (if b then valid r else valid s)"
  by simp

lemma valid_iff_no_error: "valid r \<longleftrightarrow> (\<forall>d\<in>set (diagnostics r). severity d \<noteq> Error)"
  by (auto simp: valid_def error_count_def filter_empty_conv)

section \<open>Rollback plans\<close>

datatype rollback_boot_mode = Normal_root | Managed_snapshot | Unknown_mode

datatype rollback_severity = R_info | R_warning | R_error

record rollback_diagnostic =
  r_severity :: rollback_severity
  r_code :: string
  r_message :: string

record rollback_plan =
  eligible :: bool
  boot_mode :: rollback_boot_mode
  btrfs_source :: string
  current_subvolume :: string
  target_subvolume :: string
  source_snapshot_subvolume :: string
  snapshot_number :: "ulong option"
  source_snapshot_read_only :: bool
  preserved_subvolume :: string
  replacement_subvolume :: string
  operations :: "string list"
  r_diagnostics :: "rollback_diagnostic list"

definition empty_rollback_plan :: rollback_plan where
  "empty_rollback_plan =
     \<lparr>eligible = False, boot_mode = Unknown_mode, btrfs_source = [], current_subvolume = [],
      target_subvolume = [], source_snapshot_subvolume = [], snapshot_number = None,
      source_snapshot_read_only = False, preserved_subvolume = [], replacement_subvolume = [],
      operations = [], r_diagnostics = []\<rparr>"

fun boot_mode_to_string :: "rollback_boot_mode \<Rightarrow> string" where
  "boot_mode_to_string Normal_root = ''normal-root''"
| "boot_mode_to_string Managed_snapshot = ''managed-snapshot''"
| "boot_mode_to_string Unknown_mode = ''unknown''"

fun rollback_severity_to_string :: "rollback_severity \<Rightarrow> string" where
  "rollback_severity_to_string R_info = ''INFO''"
| "rollback_severity_to_string R_warning = ''WARNING''"
| "rollback_severity_to_string R_error = ''ERROR''"

end
