(* ===== verification/System_Model.thy ===== *)
theory System_Model
  imports Kernel_Cmdline File_System
begin

text \<open>
  The data the services exchange: the detection profile and result (system_detector.hpp,
  kernel_discovery.hpp), Snapper's values (snapper_client.hpp), the application configuration
  (config/config.hpp) and the model of the host (model/system_model.hpp). Also here: \<open>std::map\<close> as
  an association list in key order, and the runner of external commands.
\<close>

section \<open>Ordered maps\<close>

fun map_insert :: "'k::linorder \<Rightarrow> 'v \<Rightarrow> ('k \<times> 'v) list \<Rightarrow> ('k \<times> 'v) list" where
  "map_insert k v [] = [(k, v)]"
| "map_insert k v ((k', v') # m) =
     (if k < k' then (k, v) # (k', v') # m
      else if k = k' then (k, v) # m
      else (k', v') # map_insert k v m)"

definition map_sorted :: "('k::linorder \<times> 'v) list \<Rightarrow> bool" where
  "map_sorted m \<longleftrightarrow> sorted_wrt (<) (map fst m)"

lemma map_of_map_insert [simp]:
  "map_sorted m \<Longrightarrow> map_of (map_insert k v m) k' = (if k' = k then Some v else map_of m k')"
proof (induction m)
  case (Cons a m)
  obtain k0 v0 where a: "a = (k0, v0)" by force
  have n: "k < k0 \<Longrightarrow> map_of m k = None" using Cons.prems a
    by (force simp: map_sorted_def map_of_eq_None_iff)
  show ?case using Cons n by (auto simp: a map_sorted_def)
qed simp

lemma set_map_insert: "fst ` set (map_insert k v m) = insert k (fst ` set m)"
  by (induction k v m rule: map_insert.induct) auto

lemma map_sorted_insert [simp]: "map_sorted m \<Longrightarrow> map_sorted (map_insert k v m)"
proof (induction m)
  case (Cons a m)
  obtain k0 v0 where a: "a = (k0, v0)" by force
  have "k0 < x" if "k0 < k" "x \<in> fst ` set (map_insert k v m)" for x
    using that Cons.prems by (auto simp: a map_sorted_def set_map_insert)
  then show ?case using Cons by (auto simp: a map_sorted_def)
qed (simp add: map_sorted_def)

lemma map_sorted_eq:
  "map_sorted m \<Longrightarrow> map_sorted n \<Longrightarrow> map_of m = map_of n \<Longrightarrow> m = n"
proof (induction m arbitrary: n)
  case Nil
  then show ?case by (cases n) (auto simp: fun_eq_iff split: if_splits dest: spec)
next
  case (Cons a m)
  obtain k v where a: "a = (k, v)" by force
  obtain b n' where n: "n = b # n'"
    using Cons.prems(3) by (cases n) (auto simp: a fun_eq_iff split: if_splits dest: spec [of _ k])
  obtain k' v' where b: "b = (k', v')" by force
  have lm: "\<forall>x\<in>fst ` set m. k < x" and ln: "\<forall>x\<in>fst ` set n'. k' < x"
    using Cons.prems(1,2) by (auto simp: a b n map_sorted_def)
  have eq: "map_of (a # m) x = map_of (b # n') x" for x using Cons.prems(3) by (simp only: n)
  have "k = k'"
  proof (rule ccontr)
    assume ne: "k \<noteq> k'"
    have "map_of n' k = Some v" using eq [of k] ne by (simp add: a b)
    moreover have "map_of m k' = Some v'" using eq [of k'] ne by (simp add: a b)
    ultimately have "k \<in> fst ` set n'" "k' \<in> fst ` set m"
      by (metis map_of_eq_None_iff option.distinct(1))+
    with lm ln show False by fastforce
  qed
  moreover have "v = v'" using eq [of k] calculation by (simp add: a b)
  moreover have "map_of m = map_of n'"
  proof
    fix x
    have "map_of m k = None" "map_of n' k = None"
      using lm ln \<open>k = k'\<close> by (auto simp: map_of_eq_None_iff)
    then show "map_of m x = map_of n' x"
      using eq [of x] \<open>k = k'\<close> by (cases "x = k") (auto simp: a b)
  qed
  then have "m = n'" using Cons.prems(1,2) by (intro Cons.IH) (auto simp: n map_sorted_def)
  ultimately show ?case by (simp add: a b n)
qed

section \<open>External commands\<close>

record process_result =
  exit_code :: int
  proc_output :: string

text \<open>A runner that only answers queries: what each command line prints and returns, or the
  exception of \<open>PosixProcessRunner::run\<close> when the process cannot be started.\<close>

type_synonym query_runner = "string list \<Rightarrow> process_result result"

section \<open>Detection\<close>

record kernel_installation =
  package_base :: string
  release :: string
  display_name :: string
  image :: path
  initrds :: "path list"
  unified_kernel_image :: bool
  running :: bool

record kernel_discovery_profile =
  kd_boot_mount :: path
  kd_modules_root :: path
  kd_cpuinfo :: path

record system_profile =
  sp_boot_mount :: path
  sp_limine_config :: path
  sp_kernel_cmdline_file :: path
  sp_modules_root :: path
  sp_cpuinfo :: path
  sp_mkinitcpio_config :: path
  sp_limine_efi_executable :: path

definition default_system_profile :: system_profile where
  "default_system_profile =
     \<lparr>sp_boot_mount = ''/boot'', sp_limine_config = ''/boot/limine.conf'',
      sp_kernel_cmdline_file = ''/etc/kernel/cmdline'', sp_modules_root = ''/usr/lib/modules'',
      sp_cpuinfo = ''/proc/cpuinfo'', sp_mkinitcpio_config = ''/etc/mkinitcpio.conf'',
      sp_limine_efi_executable = []\<rparr>"

datatype signature_state = Verified | Unsigned_file | Unavailable

text \<open>\<open>resource_hashes\<close> is a map keyed by paths; the model keeps the assignments in order, the
  latest first, and looks a path up as \<open>std::map::find\<close> does, by path equality.\<close>

record secure_boot_info =
  sb_enabled :: bool
  setup_mode :: bool
  sbctl_available :: bool
  limine_available :: bool
  sbattach_available :: bool
  efi_signature :: signature_state
  efi_signature_detail :: string
  efi_executable :: path
  resource_hashes :: "(path \<times> string) list"

fun find_hash :: "(path \<times> string) list \<Rightarrow> path \<Rightarrow> string option" where
  "find_hash [] p = None"
| "find_hash ((q, h) # m) p = (if path_eq q p then Some h else find_hash m p)"

record system_info =
  os_name :: string
  running_kernel_release :: string
  si_boot_mount :: path
  boot_target :: string
  boot_source :: string
  boot_fstype :: string
  si_limine_config :: path
  si_kernel_cmdline_file :: path
  kernel_cmdline_text :: string
  kernel_cmdline :: kernel_command_line
  kernels :: "kernel_installation list"
  root_source :: string
  root_fstype :: string
  root_subvolume :: string
  root_uuid :: string
  root_encrypted :: bool
  root_mapper_name :: string
  encrypted_backing_device :: string
  encrypted_backing_partuuid :: string
  luks_uuid :: string
  kernel_cmdline_generated :: bool
  secure_boot :: secure_boot_info

record snapper_config_info =
  sc_name :: string
  sc_subvolume :: string
  sc_filesystem_type :: string

record snapshot_info =
  number :: ulong
  date :: string
  description :: string
  read_only :: bool

section \<open>Configuration and host model\<close>

record app_config =
  schema_version :: size_t
  system :: system_profile
  snapper_config :: string
  snapshots_subvolume :: string
  snapshots_directory :: path
  max_snapshots :: size_t
  include_read_write_snapshots :: bool
  backup_retention :: size_t
  root_menu_title :: string
  snapshots_menu_title :: string
  root_menu_expanded :: bool
  snapshots_menu_expanded :: bool
  include_kernels :: "string list"
  exclude_kernels :: "string list"
  kernel_order :: "string list"
  theme_name :: string
  automation_enabled :: bool
  automation_snapper :: bool
  automation_pacman :: bool
  automation_debounce_seconds :: size_t
  automation_runtime_directory :: path
  secure_boot_protect_config :: bool
  secure_boot_automatic_apply :: bool
  secure_boot_efi_executable :: path
  limine_options :: "(string \<times> string) list"

definition default_config :: app_config where
  "default_config =
     \<lparr>schema_version = 1, system = default_system_profile, snapper_config = ''root'',
      snapshots_subvolume = ''@snapshots'', snapshots_directory = ''/.snapshots'',
      max_snapshots = 0, include_read_write_snapshots = False, backup_retention = 5,
      root_menu_title = ''Arch Linux'', snapshots_menu_title = ''Snapshots'',
      root_menu_expanded = True, snapshots_menu_expanded = False,
      include_kernels = [], exclude_kernels = [], kernel_order = [], theme_name = ''none'',
      automation_enabled = True, automation_snapper = True, automation_pacman = True,
      automation_debounce_seconds = 3, automation_runtime_directory = ''/run/limine-manager'',
      secure_boot_protect_config = True, secure_boot_automatic_apply = False,
      secure_boot_efi_executable = [],
      limine_options = [(''remember_last_entry'', ''yes''), (''timeout'', ''5'')]\<rparr>"

record loaded_config =
  config_value :: app_config
  config_source :: "path option"

record snapshot_model =
  available :: "snapshot_info list"
  selected :: "snapshot_info list"
  maximum :: size_t

record system_model =
  model_system :: system_info
  model_snapper :: snapper_config_info
  model_snapshots :: snapshot_model

end
