(* ===== verification/Theme.thy ===== *)
theory Theme
  imports Strings
begin

text \<open>
  The built-in visual themes (src/config/theme.cpp). The options of a theme are a \<open>std::map\<close>, so
  they are listed in key order.
\<close>

record theme_preset =
  preset_name :: string
  preset_display_name :: string
  preset_options :: "(string \<times> string) list"

definition theme_normalize :: "string \<Rightarrow> string" where
  "theme_normalize value = map (\<lambda>ch. if ch = CHR ''_'' then CHR ''-'' else tolower ch) value"

definition themes :: "theme_preset list" where
  "themes =
  [\<lparr>preset_name = ''none'', preset_display_name = ''None'',
     preset_options = []\<rparr>,
   \<lparr>preset_name = ''tokyo-night'', preset_display_name = ''Tokyo Night'',
     preset_options = [(''backdrop'', ''1A1B26''),
      (''interface_branding_colour'', ''7AA2F7''),
      (''interface_help_colour'', ''9ECE6A''),
      (''interface_help_colour_bright'', ''BB9AF7''),
      (''term_background'', ''001A1B26''),
      (''term_background_bright'', ''24283B''),
      (''term_foreground'', ''C0CAF5''),
      (''term_foreground_bright'', ''FFFFFF''),
      (''term_palette'', ''15161E;F7768E;9ECE6A;E0AF68;7AA2F7;BB9AF7;7DCFFF;A9B1D6''),
      (''term_palette_bright'', ''414868;FF899D;9FE044;FABA4A;8DB0FF;C7A9FF;A4DAFF;C0CAF5'')]\<rparr>,
   \<lparr>preset_name = ''catppuccin'', preset_display_name = ''Catppuccin Mocha'',
     preset_options = [(''backdrop'', ''1E1E2E''),
      (''interface_branding_colour'', ''89B4FA''),
      (''interface_help_colour'', ''A6E3A1''),
      (''interface_help_colour_bright'', ''CBA6F7''),
      (''term_background'', ''001E1E2E''),
      (''term_background_bright'', ''313244''),
      (''term_foreground'', ''CDD6F4''),
      (''term_foreground_bright'', ''FFFFFF''),
      (''term_palette'', ''11111B;F38BA8;A6E3A1;F9E2AF;89B4FA;CBA6F7;94E2D5;BAC2DE''),
      (''term_palette_bright'', ''45475A;F5A2B8;B1F0AB;FAE8C8;9AC2FA;D5B4FA;A6E9DE;CDD6F4'')]\<rparr>,
   \<lparr>preset_name = ''nord'', preset_display_name = ''Nord'',
     preset_options = [(''backdrop'', ''2E3440''),
      (''interface_branding_colour'', ''88C0D0''),
      (''interface_help_colour'', ''A3BE8C''),
      (''interface_help_colour_bright'', ''81A1C1''),
      (''term_background'', ''002E3440''),
      (''term_background_bright'', ''3B4252''),
      (''term_foreground'', ''D8DEE9''),
      (''term_foreground_bright'', ''ECEFF4''),
      (''term_palette'', ''2E3440;BF616A;A3BE8C;EBCB8B;81A1C1;B48EAD;88C0D0;E5E9F0''),
      (''term_palette_bright'', ''4C566A;BF616A;A3BE8C;EBCB8B;81A1C1;B48EAD;8FBCBB;ECEFF4'')]\<rparr>,
   \<lparr>preset_name = ''dracula'', preset_display_name = ''Dracula'',
     preset_options = [(''backdrop'', ''282A36''),
      (''interface_branding_colour'', ''BD93F9''),
      (''interface_help_colour'', ''50FA7B''),
      (''interface_help_colour_bright'', ''FF79C6''),
      (''term_background'', ''00282A36''),
      (''term_background_bright'', ''44475A''),
      (''term_foreground'', ''F8F8F2''),
      (''term_foreground_bright'', ''FFFFFF''),
      (''term_palette'', ''21222C;FF5555;50FA7B;F1FA8C;BD93F9;FF79C6;8BE9FD;F8F8F2''),
      (''term_palette_bright'', ''6272A4;FF6E6E;69FF94;FFFFA5;D6ACFF;FF92DF;A4FFFF;FFFFFF'')]\<rparr>,
   \<lparr>preset_name = ''gruvbox'', preset_display_name = ''Gruvbox Dark'',
     preset_options = [(''backdrop'', ''282828''),
      (''interface_branding_colour'', ''FABD2F''),
      (''interface_help_colour'', ''B8BB26''),
      (''interface_help_colour_bright'', ''83A598''),
      (''term_background'', ''00282828''),
      (''term_background_bright'', ''3C3836''),
      (''term_foreground'', ''EBDBB2''),
      (''term_foreground_bright'', ''FBF1C7''),
      (''term_palette'', ''282828;CC241D;98971A;D79921;458588;B16286;689D6A;A89984''),
      (''term_palette_bright'', ''928374;FB4934;B8BB26;FABD2F;83A598;D3869B;8EC07C;EBDBB2'')]\<rparr>]"

definition find_theme :: "string \<Rightarrow> theme_preset option" where
  "find_theme name = find (\<lambda>t. preset_name t = theme_normalize name) themes"

definition available_themes :: "theme_preset list" where
  "available_themes = themes"

definition theme_names :: "string list" where
  "theme_names = [''none'', ''tokyo-night'', ''catppuccin'', ''nord'', ''dracula'', ''gruvbox'']"

lemma theme_names_themes: "map preset_name themes = theme_names"
  by (simp add: themes_def theme_names_def)

lemma find_theme_iff: "find_theme name \<noteq> None \<longleftrightarrow> theme_normalize name \<in> set theme_names"
proof -
  have f: "find (\<lambda>t. preset_name t = n) ts \<noteq> None \<longleftrightarrow> n \<in> set (map preset_name ts)" for n ts
    by (induction ts) auto
  show ?thesis unfolding find_theme_def theme_names_themes [symmetric] by (rule f)
qed

lemma theme_options_sorted: "t \<in> set themes \<Longrightarrow> sorted_wrt (<) (map fst (preset_options t))"
  unfolding themes_def by (auto simp: less_char_def)

end
