(* ===== verification/Config_Loader.thy ===== *)
theory Config_Loader
  imports System_Model Theme Menu
begin

text \<open>
  \<open>config::ConfigLoader\<close> (src/config/config_loader.cpp): the parser of the manager's INI-style
  configuration, its validation, and the printer behind the \<open>show-config\<close> command.
\<close>

section \<open>Values\<close>

definition parse_bool :: "string \<Rightarrow> nat \<Rightarrow> bool result" where
  "parse_bool value line =
     (let normalized = lower (trim value) in
      if normalized = ''true'' \<or> normalized = ''yes'' \<or> normalized = ''1'' then Inr True
      else if normalized = ''false'' \<or> normalized = ''no'' \<or> normalized = ''0'' then Inr False
      else Inl (Runtime_error (''Invalid boolean at line '' @ dec line @ '': '' @ value)))"

definition parse_size :: "string \<Rightarrow> nat \<Rightarrow> size_t result" where
  "parse_size value line =
     (let failed = Inl (Runtime_error (''Invalid non-negative integer at line '' @ dec line @ '': '' @ value)) in
      case stoull (trim value) of
        Inl _ \<Rightarrow> failed
      | Inr (parsed, consumed) \<Rightarrow>
          if consumed \<noteq> length (trim value) then failed else Inr parsed)"

definition parse_list :: "string \<Rightarrow> string list" where
  "parse_list value = filter (\<lambda>item. item \<noteq> []) (map trim (split_on (CHR '','') value))"

fun join :: "string list \<Rightarrow> string" where
  "join [] = []"
| "join [v] = v"
| "join (v # vs) = v @ '', '' @ join vs"

section \<open>Assignment of one key\<close>

definition unknown_key :: "string \<Rightarrow> string \<Rightarrow> nat \<Rightarrow> 'a result" where
  "unknown_key section key line =
     Inl (Runtime_error (''Unknown key ['' @ section @ ''].'' @ key @ '' at line '' @ dec line))"

definition assign_manager :: "app_config \<Rightarrow> string \<Rightarrow> string \<Rightarrow> nat \<Rightarrow> app_config result" where
  "assign_manager config key value line =
     (if key = ''schema_version'' then
        bind_r (parse_size value line) (\<lambda>v. Inr (config\<lparr>schema_version := v\<rparr>))
      else unknown_key ''manager'' key line)"

definition assign_system :: "app_config \<Rightarrow> string \<Rightarrow> string \<Rightarrow> nat \<Rightarrow> app_config result" where
  "assign_system config key value line =
     (let p = system config in
      if key = ''boot_mount'' then Inr (config\<lparr>system := p\<lparr>sp_boot_mount := value\<rparr>\<rparr>)
      else if key = ''limine_config'' then Inr (config\<lparr>system := p\<lparr>sp_limine_config := value\<rparr>\<rparr>)
      else if key = ''kernel_cmdline_file'' then
        Inr (config\<lparr>system := p\<lparr>sp_kernel_cmdline_file := value\<rparr>\<rparr>)
      else if key = ''modules_root'' then Inr (config\<lparr>system := p\<lparr>sp_modules_root := value\<rparr>\<rparr>)
      else if key = ''cpuinfo'' then Inr (config\<lparr>system := p\<lparr>sp_cpuinfo := value\<rparr>\<rparr>)
      else if key = ''mkinitcpio_config'' then
        Inr (config\<lparr>system := p\<lparr>sp_mkinitcpio_config := value\<rparr>\<rparr>)
      else unknown_key ''system'' key line)"

definition assign_snapper :: "app_config \<Rightarrow> string \<Rightarrow> string \<Rightarrow> nat \<Rightarrow> app_config result" where
  "assign_snapper config key value line =
     (if key = ''config'' then Inr (config\<lparr>snapper_config := value\<rparr>)
      else if key = ''snapshots_subvolume'' then Inr (config\<lparr>snapshots_subvolume := value\<rparr>)
      else if key = ''snapshots_directory'' then Inr (config\<lparr>snapshots_directory := value\<rparr>)
      else if key = ''max_snapshots'' then
        bind_r (parse_size value line) (\<lambda>v. Inr (config\<lparr>max_snapshots := v\<rparr>))
      else if key = ''include_read_write'' then
        bind_r (parse_bool value line) (\<lambda>v. Inr (config\<lparr>include_read_write_snapshots := v\<rparr>))
      else unknown_key ''snapper'' key line)"

definition assign_backups :: "app_config \<Rightarrow> string \<Rightarrow> string \<Rightarrow> nat \<Rightarrow> app_config result" where
  "assign_backups config key value line =
     (if key = ''retain'' then
        bind_r (parse_size value line) (\<lambda>v. Inr (config\<lparr>backup_retention := v\<rparr>))
      else unknown_key ''backups'' key line)"

definition assign_menu :: "app_config \<Rightarrow> string \<Rightarrow> string \<Rightarrow> nat \<Rightarrow> app_config result" where
  "assign_menu config key value line =
     (if key = ''root_title'' then Inr (config\<lparr>root_menu_title := value\<rparr>)
      else if key = ''snapshots_title'' then Inr (config\<lparr>snapshots_menu_title := value\<rparr>)
      else if key = ''root_expanded'' then
        bind_r (parse_bool value line) (\<lambda>v. Inr (config\<lparr>root_menu_expanded := v\<rparr>))
      else if key = ''snapshots_expanded'' then
        bind_r (parse_bool value line) (\<lambda>v. Inr (config\<lparr>snapshots_menu_expanded := v\<rparr>))
      else unknown_key ''menu'' key line)"

definition assign_kernels :: "app_config \<Rightarrow> string \<Rightarrow> string \<Rightarrow> nat \<Rightarrow> app_config result" where
  "assign_kernels config key value line =
     (if key = ''include'' then Inr (config\<lparr>include_kernels := parse_list value\<rparr>)
      else if key = ''exclude'' then Inr (config\<lparr>exclude_kernels := parse_list value\<rparr>)
      else if key = ''order'' then Inr (config\<lparr>kernel_order := parse_list value\<rparr>)
      else unknown_key ''kernels'' key line)"

definition assign_theme :: "app_config \<Rightarrow> string \<Rightarrow> string \<Rightarrow> nat \<Rightarrow> app_config result" where
  "assign_theme config key value line =
     (if key = ''name'' then Inr (config\<lparr>theme_name := lower value\<rparr>)
      else unknown_key ''theme'' key line)"

definition assign_automation :: "app_config \<Rightarrow> string \<Rightarrow> string \<Rightarrow> nat \<Rightarrow> app_config result" where
  "assign_automation config key value line =
     (if key = ''enabled'' then
        bind_r (parse_bool value line) (\<lambda>v. Inr (config\<lparr>automation_enabled := v\<rparr>))
      else if key = ''snapper'' then
        bind_r (parse_bool value line) (\<lambda>v. Inr (config\<lparr>automation_snapper := v\<rparr>))
      else if key = ''pacman'' then
        bind_r (parse_bool value line) (\<lambda>v. Inr (config\<lparr>automation_pacman := v\<rparr>))
      else if key = ''debounce_seconds'' then
        bind_r (parse_size value line) (\<lambda>v. Inr (config\<lparr>automation_debounce_seconds := v\<rparr>))
      else if key = ''runtime_directory'' then Inr (config\<lparr>automation_runtime_directory := value\<rparr>)
      else unknown_key ''automation'' key line)"

definition assign_secure_boot :: "app_config \<Rightarrow> string \<Rightarrow> string \<Rightarrow> nat \<Rightarrow> app_config result" where
  "assign_secure_boot config key value line =
     (if key = ''protect_config'' then
        bind_r (parse_bool value line) (\<lambda>v. Inr (config\<lparr>secure_boot_protect_config := v\<rparr>))
      else if key = ''automatic_apply'' then
        bind_r (parse_bool value line) (\<lambda>v. Inr (config\<lparr>secure_boot_automatic_apply := v\<rparr>))
      else if key = ''efi_executable'' then
        (let efi = (if value = ''auto'' then [] else value) in
         Inr (config\<lparr>secure_boot_efi_executable := efi,
                     system := (system config)\<lparr>sp_limine_efi_executable := efi\<rparr>\<rparr>))
      else unknown_key ''secure_boot'' key line)"

definition assign :: "app_config \<Rightarrow> string \<Rightarrow> string \<Rightarrow> string \<Rightarrow> nat \<Rightarrow> app_config result" where
  "assign config section key value line =
     (if section = ''manager'' then assign_manager config key value line
      else if section = ''system'' then assign_system config key value line
      else if section = ''snapper'' then assign_snapper config key value line
      else if section = ''backups'' then assign_backups config key value line
      else if section = ''menu'' then assign_menu config key value line
      else if section = ''kernels'' then assign_kernels config key value line
      else if section = ''theme'' then assign_theme config key value line
      else if section = ''automation'' then assign_automation config key value line
      else if section = ''secure_boot'' then assign_secure_boot config key value line
      else if section = ''limine'' then
        Inr (config\<lparr>limine_options := map_insert key value (limine_options config)\<rparr>)
      else Inl (Runtime_error (''Unknown section ['' @ section @ ''] at line '' @ dec line)))"

section \<open>Validation\<close>

definition check :: "bool \<Rightarrow> string \<Rightarrow> unit result" where
  "check failed m = (if failed then Inl (Runtime_error m) else Inr ())"

definition validate_config :: "app_config \<Rightarrow> unit result" where
  "validate_config config = fold_r (\<lambda>(failed, m) _. check failed m)
     ([(schema_version config \<noteq> 1,
        ''Unsupported configuration schema_version '' @ dec (unat (schema_version config)) @
        ''; supported version is 1''),
       (sp_boot_mount (system config) = [], ''system.boot_mount cannot be empty''),
       (sp_limine_config (system config) = [], ''system.limine_config cannot be empty''),
       (snapper_config config = [], ''snapper.config cannot be empty''),
       (snapshots_subvolume config = [], ''snapper.snapshots_subvolume cannot be empty''),
       (snapshots_directory config = [], ''snapper.snapshots_directory cannot be empty''),
       (root_menu_title config = [], ''menu.root_title cannot be empty''),
       (snapshots_menu_title config = [], ''menu.snapshots_title cannot be empty''),
       (find_theme (theme_name config) = None,
        ''Unknown theme '' @ [SQUOTE] @ theme_name config @ [SQUOTE] @
        ''. Supported themes: none, tokyo-night, catppuccin, nord, dracula, gruvbox''),
       (3600 < automation_debounce_seconds config, ''automation.debounce_seconds must be <= 3600''),
       (automation_runtime_directory config = [], ''automation.runtime_directory cannot be empty'')] @
      map (\<lambda>item. (item \<in> set (exclude_kernels config),
             ''Kernel '' @ [SQUOTE] @ item @ [SQUOTE] @ '' appears in both include and exclude lists''))
        (include_kernels config))
     ()"

section \<open>Loading\<close>

record load_state =
  ld_config :: app_config
  ld_section :: string
  ld_line :: nat

definition load_line :: "string \<Rightarrow> load_state \<Rightarrow> load_state result" where
  "load_line line_text st =
     (let line = ld_line st + 1; st = st\<lparr>ld_line := line\<rparr>; txt = trim line_text in
      if txt = [] \<or> hd txt = CHR ''#'' \<or> hd txt = CHR '';'' then Inr st
      else if hd txt = CHR ''['' \<and> last txt = CHR '']'' then
        (let section = lower (trim (substr txt 1 (length txt - 2))) in
         if section = [] then Inl (Runtime_error (''Empty section at line '' @ dec line))
         else Inr (st\<lparr>ld_section := section\<rparr>))
      else case find_char (CHR ''='') txt of
        None \<Rightarrow> Inl (Runtime_error (''Expected key=value at line '' @ dec line))
      | Some equal \<Rightarrow>
          if ld_section st = [] then Inl (Runtime_error (''Key outside a section at line '' @ dec line))
          else
            (let key = lower (trim (substr txt 0 equal)); value = trim (drop (equal + 1) txt) in
             if key = [] then Inl (Runtime_error (''Empty key at line '' @ dec line))
             else bind_r (assign (ld_config st) (ld_section st) key value line)
                    (\<lambda>config. Inr (st\<lparr>ld_config := config\<rparr>))))"

definition load_text :: "string \<Rightarrow> app_config result" where
  "load_text txt =
     bind_r (fold_r load_line (getlines txt)
               \<lparr>ld_config = default_config, ld_section = [], ld_line = 0\<rparr>)
       (\<lambda>st. bind_r (validate_config (ld_config st)) (\<lambda>_. Inr (ld_config st)))"

definition load_config :: "file_system \<Rightarrow> path \<Rightarrow> path option \<Rightarrow> loaded_config result" where
  "load_config fs default_path explicit_path =
     (let path = (case explicit_path of Some p \<Rightarrow> p | None \<Rightarrow> default_path) in
      if \<not> fs_exists fs path then
        (if explicit_path \<noteq> None then
           Inl (Runtime_error (''Configuration file not found: '' @ path))
         else bind_r (validate_config default_config)
                (\<lambda>_. Inr \<lparr>config_value = default_config, config_source = None\<rparr>))
      else if \<not> fs_readable fs path then
        Inl (Runtime_error (''Unable to read configuration file: '' @ path))
      else bind_r (load_text (fs_read_text fs path))
             (\<lambda>config. Inr \<lparr>config_value = config, config_source = Some path\<rparr>))"

section \<open>Printing\<close>

definition bool_text :: "bool \<Rightarrow> string" where
  "bool_text b = (if b then ''true'' else ''false'')"

definition size_text :: "size_t \<Rightarrow> string" where
  "size_text n = dec (unat n)"

definition key_line :: "string \<times> string \<Rightarrow> string" where
  "key_line kv = fst kv @ '' = '' @ snd kv"

definition system_lines :: "app_config \<Rightarrow> (string \<times> string) list" where
  "system_lines c =
     [(''boot_mount'', sp_boot_mount (system c)), (''limine_config'', sp_limine_config (system c)),
      (''kernel_cmdline_file'', sp_kernel_cmdline_file (system c)),
      (''modules_root'', sp_modules_root (system c)), (''cpuinfo'', sp_cpuinfo (system c))]"

definition snapper_lines :: "app_config \<Rightarrow> (string \<times> string) list" where
  "snapper_lines c =
     [(''config'', snapper_config c), (''snapshots_subvolume'', snapshots_subvolume c),
      (''snapshots_directory'', snapshots_directory c), (''max_snapshots'', size_text (max_snapshots c)),
      (''include_read_write'', bool_text (include_read_write_snapshots c))]"

definition menu_lines :: "app_config \<Rightarrow> (string \<times> string) list" where
  "menu_lines c =
     [(''root_title'', root_menu_title c), (''snapshots_title'', snapshots_menu_title c),
      (''root_expanded'', bool_text (root_menu_expanded c)),
      (''snapshots_expanded'', bool_text (snapshots_menu_expanded c))]"

definition kernels_lines :: "app_config \<Rightarrow> (string \<times> string) list" where
  "kernels_lines c =
     [(''include'', join (include_kernels c)), (''exclude'', join (exclude_kernels c)),
      (''order'', join (kernel_order c))]"

definition automation_lines :: "app_config \<Rightarrow> (string \<times> string) list" where
  "automation_lines c =
     [(''enabled'', bool_text (automation_enabled c)), (''snapper'', bool_text (automation_snapper c)),
      (''pacman'', bool_text (automation_pacman c)),
      (''debounce_seconds'', size_text (automation_debounce_seconds c)),
      (''runtime_directory'', automation_runtime_directory c)]"

definition secure_boot_lines :: "app_config \<Rightarrow> (string \<times> string) list" where
  "secure_boot_lines c =
     [(''protect_config'', bool_text (secure_boot_protect_config c)),
      (''automatic_apply'', bool_text (secure_boot_automatic_apply c)),
      (''efi_executable'', if secure_boot_efi_executable c = [] then ''auto''
                          else secure_boot_efi_executable c)]"

text \<open>The sections in the order they are written; a blank line ends every section but the last.\<close>

definition config_sections :: "app_config \<Rightarrow> (string \<times> (string \<times> string) list) list" where
  "config_sections c =
     [(''manager'', [(''schema_version'', size_text (schema_version c))]),
      (''system'', system_lines c), (''snapper'', snapper_lines c),
      (''backups'', [(''retain'', size_text (backup_retention c))]),
      (''menu'', menu_lines c), (''kernels'', kernels_lines c),
      (''theme'', [(''name'', theme_name c)]),
      (''automation'', automation_lines c), (''secure_boot'', secure_boot_lines c)]"

definition section_text :: "string \<times> (string \<times> string) list \<Rightarrow> string" where
  "section_text s = ''['' @ fst s @ '']'' @ [NL] @ concat (map (\<lambda>kv. key_line kv @ [NL]) (snd s))"

definition render_config :: "loaded_config \<Rightarrow> string" where
  "render_config loaded =
     (let c = config_value loaded in
      ''# Effective limine-manager configuration'' @ [NL] @
      ''# Source: '' @ (case config_source loaded of Some p \<Rightarrow> p | None \<Rightarrow> ''built-in defaults'') @ [NL, NL] @
      concat (map (\<lambda>s. section_text s @ [NL]) (config_sections c)) @
      section_text (''limine'', limine_options c))"

section \<open>What a loaded configuration satisfies\<close>

definition config_ok :: "app_config \<Rightarrow> bool" where
  "config_ok c \<longleftrightarrow>
     schema_version c = 1 \<and> sp_boot_mount (system c) \<noteq> [] \<and> sp_limine_config (system c) \<noteq> [] \<and>
     snapper_config c \<noteq> [] \<and> snapshots_subvolume c \<noteq> [] \<and> snapshots_directory c \<noteq> [] \<and>
     root_menu_title c \<noteq> [] \<and> snapshots_menu_title c \<noteq> [] \<and>
     theme_normalize (theme_name c) \<in> set theme_names \<and>
     unat (automation_debounce_seconds c) \<le> 3600 \<and> automation_runtime_directory c \<noteq> [] \<and>
     set (include_kernels c) \<inter> set (exclude_kernels c) = {}"

lemma fold_check_ok:
  "fold_r (\<lambda>(failed, m) _. check failed m) cs () = Inr () \<longleftrightarrow> (\<forall>(failed, m)\<in>set cs. \<not> failed)"
  by (induction cs) (auto simp: check_def result_simps split: if_splits)

lemma validate_config_ok: "validate_config c = Inr () \<longleftrightarrow> config_ok c"
proof -
  have "\<not> 3600 < automation_debounce_seconds c \<longleftrightarrow> unat (automation_debounce_seconds c) \<le> 3600"
    by (simp add: word_less_nat_alt not_less)
  moreover have "find_theme (theme_name c) = None \<longleftrightarrow> theme_normalize (theme_name c) \<notin> set theme_names"
    using find_theme_iff by blast
  ultimately show ?thesis
    unfolding validate_config_def fold_check_ok config_ok_def by auto
qed

lemma default_config_ok: "config_ok default_config"
  by (simp add: config_ok_def default_config_def default_system_profile_def theme_names_def
      theme_normalize_def tolower_def)

lemma load_text_ok: "load_text s = Inr c \<Longrightarrow> config_ok c"
  by (auto simp: load_text_def result_simps simp flip: validate_config_ok)

text \<open>
  C22: whatever text the configuration file holds, a load that succeeds yields a configuration that
  satisfies every rule of the validator, and it is the default one when no file was named and the
  default file is missing; naming a file that is missing or unreadable is an error.
\<close>

theorem load_config_ok:
  assumes "load_config fs def explicit = Inr loaded"
  shows "config_ok (config_value loaded) \<and>
    (config_source loaded = None \<longleftrightarrow> explicit = None \<and> \<not> fs_exists fs def) \<and>
    (config_source loaded = None \<longrightarrow> config_value loaded = default_config) \<and>
    (\<forall>p. config_source loaded = Some p \<longrightarrow>
       p = (case explicit of Some q \<Rightarrow> q | None \<Rightarrow> def) \<and> fs_exists fs p \<and> fs_readable fs p \<and>
       load_text (fs_read_text fs p) = Inr (config_value loaded))"
  using assms default_config_ok load_text_ok
  by (auto simp: load_config_def Let_def result_simps split: if_splits option.splits)

definition one_file :: "path \<Rightarrow> string \<Rightarrow> file_system" where
  "one_file p contents =
     \<lparr>fs_exists = (\<lambda>q. q = p), fs_is_regular_file = (\<lambda>q. q = p), fs_is_directory = (\<lambda>_. False),
      fs_readable = (\<lambda>q. q = p), fs_read_text = (\<lambda>q. if q = p then contents else []),
      fs_list_directory = (\<lambda>_. []), fs_canonical = id\<rparr>"

section \<open>Reading one line\<close>

definition key_text :: "string \<Rightarrow> bool" where
  "key_text k \<longleftrightarrow> k \<noteq> [] \<and> trimmed k \<and> lower k = k \<and> CHR ''='' \<notin> set k \<and> NL \<notin> set k \<and>
     hd k \<noteq> CHR ''#'' \<and> hd k \<noteq> CHR '';''"

definition key_ok :: "string \<Rightarrow> bool" where
  "key_ok k \<longleftrightarrow> key_text k \<and> hd k \<noteq> CHR ''[''"

definition value_ok :: "string \<Rightarrow> bool" where
  "value_ok v \<longleftrightarrow> trimmed v \<and> NL \<notin> set v"

lemma trim_key_line:
  assumes "key_ok k" "trimmed v"
  shows "\<exists>w. trim (key_line (k, v)) = k @ CHR '' '' # CHR ''='' # w \<and> trim w = v"
proof (cases "v = []")
  case True
  have "key_line (k, v) = (k @ '' ='') @ [CHR '' '']" using True by (simp add: key_line_def)
  moreover have "trimmed (k @ '' ='')" using assms(1) by (auto simp: trimmed_def key_ok_def key_text_def)
  ultimately have "trim (key_line (k, v)) = k @ '' =''"
    by (simp only: trim_ws_snoc is_ws_simps trim_trimmed_id)
  with True show ?thesis by auto
next
  case False
  have "trimmed (key_line (k, v))" using assms False by (auto simp: trimmed_def key_line_def key_ok_def key_text_def)
  then have "trim (key_line (k, v)) = k @ CHR '' '' # CHR ''='' # CHR '' '' # v"
    by (simp add: trim_trimmed_id) (simp add: key_line_def)
  then show ?thesis using assms(2) by (auto simp: trim_trimmed_id)
qed

lemma load_key_line [simp]:
  assumes "key_ok k" "trimmed v" "ld_section st \<noteq> []"
  shows "load_line (key_line (k, v)) st =
     bind_r (assign (ld_config st) (ld_section st) k v (ld_line st + 1))
       (\<lambda>c. Inr (st\<lparr>ld_line := ld_line st + 1, ld_config := c\<rparr>))"
proof -
  obtain w where t: "trim (key_line (k, v)) = k @ CHR '' '' # CHR ''='' # w" and w: "trim w = v"
    using trim_key_line [OF assms(1,2)] by blast
  have k: "k \<noteq> []" "hd k \<noteq> CHR ''#''" "hd k \<noteq> CHR '';''" "hd k \<noteq> CHR ''[''" "CHR ''='' \<notin> set k"
    "trim k = k" "lower k = k" using assms(1) by (auto simp: key_ok_def key_text_def trim_trimmed_id)
  have f: "find_char (CHR ''='') (k @ CHR '' '' # CHR ''='' # w) = Some (length k + 1)"
    using find_char_append_notin [of "CHR ''=''" "k @ [CHR '' '']" w] k(5) by simp
  have sub: "substr (k @ CHR '' '' # CHR ''='' # w) 0 (length k + 1) = k @ [CHR '' '']"
    "drop (length k + 1 + 1) (k @ CHR '' '' # CHR ''='' # w) = w" by (simp_all add: substr_def)
  have tk: "trim (k @ [CHR '' '']) = k" using k(6) trim_ws_snoc [of "CHR '' ''" k] by simp
  show ?thesis
    unfolding load_line_def t Let_def f option.case sub tk w k(7)
    using assms(3) k by (simp add: bind_r_def split: sum.split)
qed

lemma load_header [simp]:
  assumes "trimmed s" "lower s = s" "s \<noteq> []"
  shows "load_line (CHR ''['' # s @ '']'') st = Inr (st\<lparr>ld_line := ld_line st + 1, ld_section := s\<rparr>)"
proof -
  have "trim (CHR ''['' # s @ '']'') = CHR ''['' # s @ '']''"
    by (simp add: trim_trimmed_id trimmed_def is_ws_def)
  moreover have "substr (CHR ''['' # s @ '']'') 1 (length (CHR ''['' # s @ '']'') - 2) = s"
    by (simp add: substr_def)
  ultimately show ?thesis using assms by (simp add: load_line_def trim_trimmed_id)
qed

lemma load_blank [simp]: "load_line [] st = Inr (st\<lparr>ld_line := ld_line st + 1\<rparr>)"
  by (simp add: load_line_def Let_def)

lemma load_comment [simp]: "load_line (CHR ''#'' # s) st = Inr (st\<lparr>ld_line := ld_line st + 1\<rparr>)"
proof -
  have "\<exists>t. trim (CHR ''#'' # s) = CHR ''#'' # t"
  proof -
    have "ltrim (CHR ''#'' # s) = CHR ''#'' # s" by (simp add: ltrim_def is_ws_def)
    moreover have "\<exists>t. rtrim (CHR ''#'' # s) = CHR ''#'' # t"
      by (auto simp: rtrim_def dropWhile_append is_ws_def intro: exI [of _ "rev (dropWhile is_ws (rev s))"])
    ultimately show ?thesis by (simp add: trim_eq)
  qed
  then show ?thesis by (auto simp: load_line_def Let_def)
qed

section \<open>Values survive printing\<close>

lemma parse_bool_text [simp]: "parse_bool (bool_text b) line = Inr b"
  by (cases b) (simp_all add: parse_bool_def bool_text_def trim_trimmed_id trimmed_def is_ws_def
      lower_def tolower_def)

lemma parse_size_text [simp]: "parse_size (size_text n) line = Inr n"
proof -
  have "unat n < 2 ^ 64" using unsigned_less [of n] by simp
  then have "stoull (dec (unat n)) = Inr (n, length (dec (unat n)))"
    using stoull_digits [of "dec (unat n)"] isdigit_dec [of _ "unat n"] by simp
  then show ?thesis by (simp add: parse_size_def size_text_def trim_trimmed_id)
qed

definition item_ok :: "string \<Rightarrow> bool" where
  "item_ok v \<longleftrightarrow> v \<noteq> [] \<and> trimmed v \<and> CHR '','' \<notin> set v \<and> NL \<notin> set v"

lemma parse_list_join:
  "(\<forall>v\<in>set vs. item_ok v) \<Longrightarrow> parse_list (join vs) = vs \<and> parse_list (CHR '' '' # join vs) = vs"
proof (induction vs rule: join.induct)
  case 1
  have "split_on (CHR '','') [] = [[]]" "split_on (CHR '','') '' '' = ['' '']"
    by (auto intro: split_on_last)
  then show ?case by (simp add: parse_list_def)
next
  case (2 v)
  then have "split_on (CHR '','') v = [v]" "split_on (CHR '','') (CHR '' '' # v) = [CHR '' '' # v]"
    by (auto intro!: split_on_last simp: item_ok_def)
  with 2 show ?case by (simp add: parse_list_def item_ok_def trim_trimmed_id)
next
  case (3 v w vs)
  then have v: "v \<noteq> []" "trim v = v" "CHR '','' \<notin> set v" by (auto simp: item_ok_def trim_trimmed_id)
  have "split_on (CHR '','') (join (v # w # vs)) = v # split_on (CHR '','') (CHR '' '' # join (w # vs))"
    using split_on_piece [OF v(3)] by simp
  moreover have "split_on (CHR '','') (CHR '' '' # join (v # w # vs)) =
      (CHR '' '' # v) # split_on (CHR '','') (CHR '' '' # join (w # vs))"
    using split_on_piece [of "CHR '',''" "CHR '' '' # v" "CHR '' '' # join (w # vs)"] v(3) by simp
  ultimately show ?case using 3 v by (simp add: parse_list_def)
qed

lemma trimmed_join: "(\<forall>v\<in>set vs. item_ok v) \<Longrightarrow> trimmed (join vs)"
proof (induction vs rule: join.induct)
  case (3 v w vs)
  have "join (w # vs) \<noteq> []" using 3(2) by (cases vs) (auto simp: item_ok_def)
  with 3 show ?case by (auto simp: trimmed_def item_ok_def)
qed (auto simp: trimmed_def item_ok_def)

lemma NL_join: "(\<forall>v\<in>set vs. item_ok v) \<Longrightarrow> NL \<notin> set (join vs)"
  by (induction vs rule: join.induct) (auto simp: item_ok_def)

lemma value_ok_texts [simp]: "value_ok (bool_text b)" "value_ok (size_text n)"
proof -
  show "value_ok (bool_text b)" by (simp add: value_ok_def bool_text_def trimmed_def is_ws_def)
  have "NL \<notin> set (dec (unat n))" using isdigit_dec [of NL] by (auto simp: isdigit_def)
  then show "value_ok (size_text n)" by (simp add: value_ok_def size_text_def)
qed


section \<open>A printed configuration loads back\<close>

text \<open>
  A configuration as the loader produces them: every text value is one line without blanks at its
  ends, list items are non-empty and without commas, option names are lower case keys.
\<close>

definition printable :: "app_config \<Rightarrow> bool" where
  "printable c \<longleftrightarrow>
     (\<forall>v\<in>{sp_boot_mount (system c), sp_limine_config (system c), sp_kernel_cmdline_file (system c),
          sp_modules_root (system c), sp_cpuinfo (system c), snapper_config c, snapshots_subvolume c,
          snapshots_directory c, root_menu_title c, snapshots_menu_title c, theme_name c,
          automation_runtime_directory c, secure_boot_efi_executable c}. value_ok v) \<and>
     (\<forall>v\<in>set (include_kernels c) \<union> set (exclude_kernels c) \<union> set (kernel_order c). item_ok v) \<and>
     lower (theme_name c) = theme_name c \<and>
     secure_boot_efi_executable c \<noteq> ''auto'' \<and>
     sp_limine_efi_executable (system c) = secure_boot_efi_executable c \<and>
     map_sorted (limine_options c) \<and>
     {''remember_last_entry'', ''timeout''} \<subseteq> fst ` set (limine_options c) \<and>
     (\<forall>(k, v)\<in>set (limine_options c). key_text k \<and> value_ok v)"

definition renderable :: "app_config \<Rightarrow> bool" where
  "renderable c \<longleftrightarrow> config_ok c \<and> printable c \<and>
     (\<forall>k\<in>fst ` set (limine_options c). hd k \<noteq> CHR ''['')"

lemma renderableD:
  "renderable c \<Longrightarrow> printable c"
  "renderable c \<Longrightarrow> config_ok c"
  "renderable c \<Longrightarrow> \<forall>(k, v)\<in>set (limine_options c). key_ok k \<and> value_ok v"
  by (auto simp: renderable_def printable_def key_ok_def)

definition body_lines :: "(string \<times> string) list \<Rightarrow> string list" where
  "body_lines kvs = map key_line kvs"

lemma key_ok_names:
  "list_all key_ok [''schema_version'', ''boot_mount'', ''limine_config'', ''kernel_cmdline_file'',
     ''modules_root'', ''cpuinfo'', ''config'', ''snapshots_subvolume'', ''snapshots_directory'',
     ''max_snapshots'', ''include_read_write'', ''retain'', ''root_title'', ''snapshots_title'',
     ''root_expanded'', ''snapshots_expanded'', ''include'', ''exclude'', ''order'', ''name'',
     ''enabled'', ''snapper'', ''pacman'', ''debounce_seconds'', ''runtime_directory'',
     ''protect_config'', ''automatic_apply'', ''efi_executable'',
     ''manager'', ''system'', ''backups'', ''menu'', ''kernels'', ''theme'', ''automation'', ''secure_boot'',
     ''limine'']"
  by (simp add: key_ok_def key_text_def trimmed_def is_ws_def lower_def tolower_def)

lemmas key_ok_name [simp] = key_ok_names [simplified list.pred_inject simp_thms]

lemma fold_body_Nil [simp]: "fold_r load_line (body_lines []) st = Inr st"
  by (simp add: body_lines_def)

lemma fold_body_Cons:
  assumes "assign (ld_config st) (ld_section st) k v (ld_line st + 1) = Inr c"
    and "key_ok k" "value_ok v" "ld_section st \<noteq> []"
  shows "fold_r load_line (body_lines ((k, v) # kvs)) st =
     fold_r load_line (body_lines kvs) (st\<lparr>ld_line := ld_line st + 1, ld_config := c\<rparr>)"
  using assms by (simp add: body_lines_def value_ok_def)


definition section_lines :: "string \<times> (string \<times> string) list \<Rightarrow> string list" where
  "section_lines s = (CHR ''['' # fst s @ '']'') # body_lines (snd s)"

lemma fold_section:
  "key_ok s \<Longrightarrow> fold_r load_line (section_lines (s, kvs)) st =
     fold_r load_line (body_lines kvs) (st\<lparr>ld_line := ld_line st + 1, ld_section := s\<rparr>)"
  by (simp add: section_lines_def key_ok_def key_text_def)

lemma load_manager_lines:
  assumes "renderable c"
  shows "fold_r load_line (section_lines (''manager'', [(''schema_version'', size_text (schema_version c))])) st =
    Inr (st\<lparr>ld_line := ld_line st + 2, ld_section := ''manager'', ld_config := (ld_config st)\<lparr>schema_version := schema_version c\<rparr>\<rparr>)"
  using renderableD(1) [OF assms] unfolding printable_def
  by (simp add: fold_section fold_body_Cons assign_def assign_manager_def Let_def)

lemma load_system_lines:
  assumes "renderable c"
  shows "fold_r load_line (section_lines (''system'', system_lines c)) st =
    Inr (st\<lparr>ld_line := ld_line st + 6, ld_section := ''system'', ld_config := (ld_config st)\<lparr>system := (system (ld_config st))\<lparr>sp_boot_mount := sp_boot_mount (system c),
       sp_limine_config := sp_limine_config (system c),
       sp_kernel_cmdline_file := sp_kernel_cmdline_file (system c),
       sp_modules_root := sp_modules_root (system c), sp_cpuinfo := sp_cpuinfo (system c)\<rparr>\<rparr>\<rparr>)"
  using renderableD(1) [OF assms] unfolding printable_def system_lines_def
  by (simp add: fold_section fold_body_Cons assign_def assign_system_def Let_def)

lemma load_snapper_lines:
  assumes "renderable c"
  shows "fold_r load_line (section_lines (''snapper'', snapper_lines c)) st =
    Inr (st\<lparr>ld_line := ld_line st + 6, ld_section := ''snapper'', ld_config := (ld_config st)\<lparr>snapper_config := snapper_config c,
       snapshots_subvolume := snapshots_subvolume c, snapshots_directory := snapshots_directory c,
       max_snapshots := max_snapshots c, include_read_write_snapshots := include_read_write_snapshots c\<rparr>\<rparr>)"
  using renderableD(1) [OF assms] unfolding printable_def snapper_lines_def
  by (simp add: fold_section fold_body_Cons assign_def assign_snapper_def Let_def)

lemma load_backups_lines:
  assumes "renderable c"
  shows "fold_r load_line (section_lines (''backups'', [(''retain'', size_text (backup_retention c))])) st =
    Inr (st\<lparr>ld_line := ld_line st + 2, ld_section := ''backups'', ld_config := (ld_config st)\<lparr>backup_retention := backup_retention c\<rparr>\<rparr>)"
  using renderableD(1) [OF assms] unfolding printable_def
  by (simp add: fold_section fold_body_Cons assign_def assign_backups_def Let_def)

lemma load_menu_lines:
  assumes "renderable c"
  shows "fold_r load_line (section_lines (''menu'', menu_lines c)) st =
    Inr (st\<lparr>ld_line := ld_line st + 5, ld_section := ''menu'', ld_config := (ld_config st)\<lparr>root_menu_title := root_menu_title c,
       snapshots_menu_title := snapshots_menu_title c, root_menu_expanded := root_menu_expanded c,
       snapshots_menu_expanded := snapshots_menu_expanded c\<rparr>\<rparr>)"
  using renderableD(1) [OF assms] unfolding printable_def menu_lines_def
  by (simp add: fold_section fold_body_Cons assign_def assign_menu_def Let_def)

lemma load_kernels_lines:
  assumes "renderable c"
  shows "fold_r load_line (section_lines (''kernels'', kernels_lines c)) st =
    Inr (st\<lparr>ld_line := ld_line st + 4, ld_section := ''kernels'', ld_config := (ld_config st)\<lparr>include_kernels := include_kernels c,
       exclude_kernels := exclude_kernels c, kernel_order := kernel_order c\<rparr>\<rparr>)"
  using renderableD(1) [OF assms] unfolding printable_def kernels_lines_def
  by (simp add: fold_section fold_body_Cons assign_def assign_kernels_def Let_def value_ok_def trimmed_join NL_join parse_list_join)

lemma load_theme_lines:
  assumes "renderable c"
  shows "fold_r load_line (section_lines (''theme'', [(''name'', theme_name c)])) st =
    Inr (st\<lparr>ld_line := ld_line st + 2, ld_section := ''theme'', ld_config := (ld_config st)\<lparr>theme_name := theme_name c\<rparr>\<rparr>)"
  using renderableD(1) [OF assms] unfolding printable_def
  by (simp add: fold_section fold_body_Cons assign_def assign_theme_def Let_def)

lemma load_automation_lines:
  assumes "renderable c"
  shows "fold_r load_line (section_lines (''automation'', automation_lines c)) st =
    Inr (st\<lparr>ld_line := ld_line st + 6, ld_section := ''automation'', ld_config := (ld_config st)\<lparr>automation_enabled := automation_enabled c,
       automation_snapper := automation_snapper c, automation_pacman := automation_pacman c,
       automation_debounce_seconds := automation_debounce_seconds c,
       automation_runtime_directory := automation_runtime_directory c\<rparr>\<rparr>)"
  using renderableD(1) [OF assms] unfolding printable_def automation_lines_def
  by (simp add: fold_section fold_body_Cons assign_def assign_automation_def Let_def)

lemma load_secure_boot_lines:
  assumes "renderable c"
  shows "fold_r load_line (section_lines (''secure_boot'', secure_boot_lines c)) st =
    Inr (st\<lparr>ld_line := ld_line st + 4, ld_section := ''secure_boot'', ld_config := (ld_config st)\<lparr>secure_boot_protect_config := secure_boot_protect_config c,
       secure_boot_automatic_apply := secure_boot_automatic_apply c,
       secure_boot_efi_executable := secure_boot_efi_executable c,
       system := (system (ld_config st))\<lparr>sp_limine_efi_executable := secure_boot_efi_executable c\<rparr>\<rparr>\<rparr>)"
proof -
  have auto_ok: "value_ok ''auto''" by (simp add: value_ok_def trimmed_def is_ws_def)
  have e: "value_ok (secure_boot_efi_executable c)" "secure_boot_efi_executable c \<noteq> ''auto''"
    using renderableD(1) [OF assms] by (simp_all add: printable_def)
  let ?t = "if secure_boot_efi_executable c = [] then ''auto'' else secure_boot_efi_executable c"
  have t: "value_ok ?t" "?t \<noteq> []" "secure_boot_efi_executable c = (if ?t = ''auto'' then [] else ?t)"
    using e auto_ok by auto
  have "fold_r load_line (section_lines (''secure_boot'', [(''protect_config'', bool_text p),
          (''automatic_apply'', bool_text a), (''efi_executable'', t)])) st =
      Inr (st\<lparr>ld_line := ld_line st + 4, ld_section := ''secure_boot'', ld_config :=
        (ld_config st)\<lparr>secure_boot_protect_config := p, secure_boot_automatic_apply := a,
          secure_boot_efi_executable := (if t = ''auto'' then [] else t),
          system := (system (ld_config st))\<lparr>sp_limine_efi_executable := (if t = ''auto'' then [] else t)\<rparr>\<rparr>\<rparr>)"
    if "value_ok t" for p a t
    using that by (simp add: fold_section fold_body_Cons assign_def assign_secure_boot_def Let_def)
  from this [OF t(1)] show ?thesis by (simp only: secure_boot_lines_def t(3) [symmetric])
qed

lemma load_option_lines:
  assumes "ld_section st = ''limine''" "\<forall>(k, v)\<in>set kvs. key_ok k \<and> value_ok v"
  shows "\<exists>n. fold_r load_line (body_lines kvs) st = Inr (st\<lparr>ld_line := n,
    ld_config := (ld_config st)\<lparr>limine_options :=
       foldl (\<lambda>m (k, v). map_insert k v m) (limine_options (ld_config st)) kvs\<rparr>\<rparr>)"
  using assms
proof (induction kvs arbitrary: st)
  case Nil
  show ?case by (auto intro: exI [of _ "ld_line st"])
next
  case (Cons kv kvs)
  obtain k v where kv: "kv = (k, v)" by force
  let ?c = "(ld_config st)\<lparr>limine_options := map_insert k v (limine_options (ld_config st))\<rparr>"
  let ?st = "st\<lparr>ld_line := ld_line st + 1, ld_config := ?c\<rparr>"
  have "fold_r load_line (body_lines (kv # kvs)) st = fold_r load_line (body_lines kvs) ?st"
    unfolding kv by (rule fold_body_Cons) (use Cons.prems kv in \<open>auto simp: assign_def\<close>)
  with Cons.IH [of ?st] Cons.prems show ?case by (auto simp: kv)
qed

lemma foldl_map_insert:
  "map_sorted m \<Longrightarrow> map_sorted (foldl (\<lambda>m (k, v). map_insert k v m) m kvs) \<and>
     map_of (foldl (\<lambda>m (k, v). map_insert k v m) m kvs) = map_of m ++ map_of (rev kvs)"
proof (induction kvs arbitrary: m)
  case (Cons kv kvs)
  obtain k v where kv: "kv = (k, v)" by force
  have "map_of (map_insert k v m) = (map_of m)(k \<mapsto> v)" using Cons.prems by auto
  with Cons show ?case by (simp add: kv) (auto simp: map_add_def fun_eq_iff split: option.split)
qed simp

lemma options_reload:
  assumes "map_sorted kvs" "map_sorted m" "fst ` set m \<subseteq> fst ` set kvs"
  shows "foldl (\<lambda>m (k, v). map_insert k v m) m kvs = kvs"
proof (rule map_sorted_eq)
  have d: "distinct (map fst kvs)" using assms(1) by (simp add: map_sorted_def strict_sorted_iff)
  then have r: "map_of (rev kvs) = map_of kvs"
    by (metis distinct_rev map_of_inject_set rev_map set_rev)
  show "map_of (foldl (\<lambda>m (k, v). map_insert k v m) m kvs) = map_of kvs"
    using foldl_map_insert [OF assms(2), of kvs] assms(3) unfolding r
    by (simp add: fun_eq_iff map_add_def) (metis (no_types, lifting) map_of_eq_None_iff option.case_eq_if option.exhaust_sel subsetD)
qed (use assms foldl_map_insert in auto)


text \<open>What loading the sections one after the other makes of the configuration.\<close>

definition config_lines :: "loaded_config \<Rightarrow> string list" where
  "config_lines loaded =
     [''# Effective limine-manager configuration'',
      ''# Source: '' @ (case config_source loaded of Some p \<Rightarrow> p | None \<Rightarrow> ''built-in defaults''), []] @
     concat (map (\<lambda>s. section_lines s @ [[]]) (config_sections (config_value loaded))) @
     section_lines (''limine'', limine_options (config_value loaded))"

lemma section_text_lines: "section_text s = as_text (section_lines s)"
  by (simp add: section_text_def section_lines_def body_lines_def as_text_def comp_def)

lemma as_text_concat: "as_text (concat (map (\<lambda>s. f s @ [[]]) xs)) = concat (map (\<lambda>s. as_text (f s) @ [NL]) xs)"
  by (induction xs) simp_all

lemma render_config_lines: "render_config loaded = as_text (config_lines loaded)"
  unfolding render_config_def config_lines_def Let_def
  by (simp only: as_text_simps section_text_lines as_text_concat append_Cons append_Nil append_assoc)

lemma key_line_no_NL: "key_ok k \<Longrightarrow> value_ok v \<Longrightarrow> NL \<notin> set (key_line (k, v))"
  by (auto simp: key_line_def key_ok_def key_text_def value_ok_def)

lemma value_ok_efi_text:
  "renderable c \<Longrightarrow> value_ok (if secure_boot_efi_executable c = [] then ''auto'' else secure_boot_efi_executable c)"
  using renderableD(1) [of c] by (simp add: printable_def) (simp add: value_ok_def trimmed_def is_ws_def)

lemma value_ok_join:
  "renderable c \<Longrightarrow> value_ok (join (include_kernels c)) \<and> value_ok (join (exclude_kernels c)) \<and>
     value_ok (join (kernel_order c))"
  using renderableD(1) [of c] by (simp add: printable_def value_ok_def trimmed_join NL_join)

lemma sections_ok:
  assumes "renderable c" "s \<in> set (config_sections c)"
  shows "key_ok (fst s) \<and> (\<forall>(k, v)\<in>set (snd s). key_ok k \<and> value_ok v)"
proof -
  note r = value_ok_efi_text [OF assms(1)] value_ok_join [OF assms(1)]
    renderableD(1) [OF assms(1), unfolded printable_def, THEN conjunct1]
  have "list_all (\<lambda>s. key_ok (fst s) \<and> list_all (\<lambda>(k, v). key_ok k \<and> value_ok v) (snd s)) (config_sections c)"
    using r by (simp add: config_sections_def system_lines_def snapper_lines_def menu_lines_def
        kernels_lines_def automation_lines_def secure_boot_lines_def)
  with assms(2) show ?thesis by (auto simp: list_all_iff)
qed

lemma section_lines_no_NL:
  "key_ok s \<Longrightarrow> (\<forall>(k, v)\<in>set kvs. key_ok k \<and> value_ok v) \<Longrightarrow> l \<in> set (section_lines (s, kvs)) \<Longrightarrow> NL \<notin> set l"
  using key_line_no_NL by (auto simp: section_lines_def body_lines_def) (auto simp: key_ok_def key_text_def)

lemma config_lines_no_NL:
  assumes "renderable (config_value loaded)" "\<forall>p. config_source loaded = Some p \<longrightarrow> NL \<notin> set p"
  shows "\<forall>l\<in>set (config_lines loaded). NL \<notin> set l"
proof -
  let ?c = "config_value loaded"
  have "NL \<notin> set l" if "s \<in> set (config_sections ?c)" "l \<in> set (section_lines s)" for s l
    using sections_ok [OF assms(1) that(1)] section_lines_no_NL [of "fst s" "snd s" l] that(2) by simp
  moreover have "NL \<notin> set l" if "l \<in> set (section_lines (''limine'', limine_options ?c))" for l
    using renderableD(3) [OF assms(1)] that by (intro section_lines_no_NL) auto
  ultimately show ?thesis using assms(2) unfolding config_lines_def by (auto split: option.splits)
qed

lemma load_config_lines:
  assumes "renderable (config_value loaded)"
  shows "\<exists>n. fold_r load_line (config_lines loaded) \<lparr>ld_config = default_config, ld_section = [], ld_line = 0\<rparr>
    = Inr \<lparr>ld_config = (config_value loaded)\<lparr>system := (system (config_value loaded))
              \<lparr>sp_mkinitcpio_config := ''/etc/mkinitcpio.conf''\<rparr>\<rparr>,
           ld_section = ''limine'', ld_line = n\<rparr>"
proof -
  let ?c = "config_value loaded"
  have o: "foldl (\<lambda>m (k, v). map_insert k v m) (limine_options default_config) (limine_options ?c) = limine_options ?c"
    using renderableD(1) [OF assms] by (intro options_reload) (auto simp: printable_def default_config_def map_sorted_def)
  have e: "sp_limine_efi_executable (system ?c) = secure_boot_efi_executable ?c"
    using renderableD(1) [OF assms] by (auto simp: printable_def)
  have k: "\<forall>(k, v)\<in>set (limine_options ?c). key_ok k \<and> value_ok v" using renderableD(3) [OF assms] .
  let ?st = "\<lparr>ld_config = default_config, ld_section = [], ld_line = 0\<rparr>"
  define pre where "pre = ?c\<lparr>limine_options := limine_options default_config,
      system := (system ?c)\<lparr>sp_mkinitcpio_config := ''/etc/mkinitcpio.conf''\<rparr>\<rparr>"
  have m: "sp_mkinitcpio_config (system default_config) = ''/etc/mkinitcpio.conf''"
    by (simp add: default_config_def default_system_profile_def)
  define init where "init = [''# Effective limine-manager configuration'',
      ''# Source: '' @ (case config_source loaded of Some p \<Rightarrow> p | None \<Rightarrow> ''built-in defaults''), []] @
     concat (map (\<lambda>s. section_lines s @ [[]]) (config_sections ?c))"
  have "\<exists>n. fold_r load_line init ?st = Inr \<lparr>ld_config = pre, ld_section = ''secure_boot'', ld_line = n\<rparr>"
    unfolding init_def config_sections_def
    using e m
    by (simp add: load_manager_lines [OF assms] load_system_lines [OF assms] load_snapper_lines [OF assms]
        load_backups_lines [OF assms] load_menu_lines [OF assms] load_kernels_lines [OF assms]
        load_theme_lines [OF assms] load_automation_lines [OF assms] load_secure_boot_lines [OF assms]
        pre_def)
  then obtain n where n: "fold_r load_line init ?st =
      Inr \<lparr>ld_config = pre, ld_section = ''secure_boot'', ld_line = n\<rparr>" by blast
  have c: "config_lines loaded = init @ section_lines (''limine'', limine_options ?c)"
    by (simp only: config_lines_def init_def append_assoc)
  obtain n' where "fold_r load_line (body_lines (limine_options ?c))
      \<lparr>ld_config = pre, ld_section = ''limine'', ld_line = n + 1\<rparr> =
      Inr \<lparr>ld_config = pre\<lparr>limine_options := limine_options ?c\<rparr>, ld_section = ''limine'', ld_line = n'\<rparr>"
    using load_option_lines [OF _ k, of "\<lparr>ld_config = pre, ld_section = ''limine'', ld_line = n + 1\<rparr>"] o
    by (auto simp: pre_def)
  then show ?thesis unfolding c fold_r_append n bind_r_Inr
    by (simp add: fold_section pre_def)
qed

section \<open>What the loader reads is printable\<close>

lemma value_ok_trim: "NL \<notin> set s \<Longrightarrow> value_ok (trim s)"
  using set_trim by (fastforce simp: value_ok_def)

lemma is_ws_tolower [simp]: "is_ws (tolower c) \<longleftrightarrow> is_ws c"
proof (cases "65 \<le> (of_char c :: nat) \<and> (of_char c :: nat) \<le> 90")
  case True
  then have "(of_char (tolower c) :: nat) = of_char c + 32" by (simp add: tolower_def of_char_of)
  moreover have "is_ws d \<Longrightarrow> (of_char d :: nat) \<le> 32" for d by (auto simp: is_ws_def)
  ultimately show ?thesis using True by force
next
  case False
  then show ?thesis unfolding tolower_def by (simp only: if_False)
qed

lemma tolower_eq_iff: "\<not> (97 \<le> (of_char d :: nat) \<and> (of_char d :: nat) \<le> 122) \<Longrightarrow>
    \<not> (65 \<le> (of_char d :: nat) \<and> (of_char d :: nat) \<le> 90) \<Longrightarrow> tolower c = d \<longleftrightarrow> c = d"
proof (cases "65 \<le> (of_char c :: nat) \<and> (of_char c :: nat) \<le> 90")
  case True
  then have "(of_char (tolower c) :: nat) = of_char c + 32" by (simp add: tolower_def of_char_of)
  moreover assume "\<not> (97 \<le> (of_char d :: nat) \<and> (of_char d :: nat) \<le> 122)"
    "\<not> (65 \<le> (of_char d :: nat) \<and> (of_char d :: nat) \<le> 90)"
  ultimately show ?thesis using True by force
next
  case False
  then show ?thesis unfolding tolower_def by (simp only: if_False)
qed

lemma trimmed_lower [simp]: "trimmed (lower s) \<longleftrightarrow> trimmed s"
  by (cases "s = []") (simp_all add: trimmed_def lower_def hd_map last_map)

lemma in_lower_iff: "\<not> (97 \<le> (of_char d :: nat) \<and> (of_char d :: nat) \<le> 122) \<Longrightarrow>
    \<not> (65 \<le> (of_char d :: nat) \<and> (of_char d :: nat) \<le> 90) \<Longrightarrow> d \<in> set (lower s) \<longleftrightarrow> d \<in> set s"
  using tolower_eq_iff [of d] by (force simp: lower_def image_iff)

lemma hd_lower_iff: "s \<noteq> [] \<Longrightarrow> \<not> (97 \<le> (of_char d :: nat) \<and> (of_char d :: nat) \<le> 122) \<Longrightarrow>
    \<not> (65 \<le> (of_char d :: nat) \<and> (of_char d :: nat) \<le> 90) \<Longrightarrow> hd (lower s) = d \<longleftrightarrow> hd s = d"
  using tolower_eq_iff [of d] by (simp add: lower_def hd_map)

lemma parse_list_item_ok: "NL \<notin> set v \<Longrightarrow> x \<in> set (parse_list v) \<Longrightarrow> item_ok x"
proof -
  assume nl: "NL \<notin> set v" and "x \<in> set (parse_list v)"
  then obtain p where p: "p \<in> set (split_on (CHR '','') v)" "x = trim p" "x \<noteq> []"
    by (auto simp: parse_list_def)
  have "set q \<subseteq> set s" if "q \<in> set (split_on c s)" for q c s
    using that
  proof (induction c s rule: split_on.induct)
    case (1 c s)
    then show ?case
      by (subst (asm) (2) split_on.simps)
         (auto simp: substr_def split: option.splits dest!: in_set_takeD dest: in_set_dropD)
  qed
  with nl p have "NL \<notin> set p" "CHR '','' \<notin> set p" using split_on_notin by blast+
  with p(2,3) set_trim [of p] show ?thesis by (auto simp: item_ok_def)
qed

lemma printable_default: "printable default_config"
  by (simp add: printable_def default_config_def default_system_profile_def value_ok_def trimmed_def
      is_ws_def lower_def tolower_def key_text_def map_sorted_def less_list_code)

lemma printable_free [simp]:
  "printable (c\<lparr>schema_version := x0\<rparr>) = printable c"
  "printable (c\<lparr>max_snapshots := x1\<rparr>) = printable c"
  "printable (c\<lparr>include_read_write_snapshots := x2\<rparr>) = printable c"
  "printable (c\<lparr>backup_retention := x3\<rparr>) = printable c"
  "printable (c\<lparr>root_menu_expanded := x4\<rparr>) = printable c"
  "printable (c\<lparr>snapshots_menu_expanded := x5\<rparr>) = printable c"
  "printable (c\<lparr>automation_enabled := x6\<rparr>) = printable c"
  "printable (c\<lparr>automation_snapper := x7\<rparr>) = printable c"
  "printable (c\<lparr>automation_pacman := x8\<rparr>) = printable c"
  "printable (c\<lparr>automation_debounce_seconds := x9\<rparr>) = printable c"
  "printable (c\<lparr>secure_boot_protect_config := x10\<rparr>) = printable c"
  "printable (c\<lparr>secure_boot_automatic_apply := x11\<rparr>) = printable c"
  "printable (c\<lparr>system := (system c)\<lparr>sp_mkinitcpio_config := y\<rparr>\<rparr>) = printable c"
  by (simp_all add: printable_def)

lemma printable_value [simp]:
  assumes "printable c" "value_ok v"
  shows "printable (c\<lparr>snapper_config := v\<rparr>)"
    "printable (c\<lparr>snapshots_subvolume := v\<rparr>)"
    "printable (c\<lparr>snapshots_directory := v\<rparr>)"
    "printable (c\<lparr>root_menu_title := v\<rparr>)"
    "printable (c\<lparr>snapshots_menu_title := v\<rparr>)"
    "printable (c\<lparr>automation_runtime_directory := v\<rparr>)"
    "printable (c\<lparr>system := (system c)\<lparr>sp_boot_mount := v\<rparr>\<rparr>)"
    "printable (c\<lparr>system := (system c)\<lparr>sp_limine_config := v\<rparr>\<rparr>)"
    "printable (c\<lparr>system := (system c)\<lparr>sp_kernel_cmdline_file := v\<rparr>\<rparr>)"
    "printable (c\<lparr>system := (system c)\<lparr>sp_modules_root := v\<rparr>\<rparr>)"
    "printable (c\<lparr>system := (system c)\<lparr>sp_cpuinfo := v\<rparr>\<rparr>)"
  using assms by (simp_all add: printable_def)

lemma printable_list [simp]:
  assumes "printable c" "value_ok v"
  shows "printable (c\<lparr>include_kernels := parse_list v\<rparr>)"
    "printable (c\<lparr>exclude_kernels := parse_list v\<rparr>)"
    "printable (c\<lparr>kernel_order := parse_list v\<rparr>)"
proof -
  have "NL \<notin> set v" using assms(2) by (simp add: value_ok_def)
  then have "\<forall>x\<in>set (parse_list v). item_ok x" using parse_list_item_ok by blast
  with assms(1) show "printable (c\<lparr>include_kernels := parse_list v\<rparr>)"
    "printable (c\<lparr>exclude_kernels := parse_list v\<rparr>)"
    "printable (c\<lparr>kernel_order := parse_list v\<rparr>)"
    by (simp_all add: printable_def ball_Un)
qed

lemma printable_theme [simp]: "printable c \<Longrightarrow> value_ok v \<Longrightarrow> printable (c\<lparr>theme_name := lower v\<rparr>)"
  by (simp add: printable_def value_ok_def in_lower_iff)

lemma printable_efi [simp]:
  "printable c \<Longrightarrow> value_ok v \<Longrightarrow> v \<noteq> ''auto'' \<Longrightarrow>
     printable (c\<lparr>secure_boot_efi_executable := v, system := (system c)\<lparr>sp_limine_efi_executable := v\<rparr>\<rparr>)"
  by (simp add: printable_def)

lemma value_ok_Nil [simp]: "value_ok []"
  by (simp add: value_ok_def trimmed_def)

lemma printable_assign_section:
  assumes "printable c" "value_ok v"
  shows "assign_manager c k v n = Inr c' \<Longrightarrow> printable c'"
    and "assign_system c k v n = Inr c' \<Longrightarrow> printable c'"
    and "assign_snapper c k v n = Inr c' \<Longrightarrow> printable c'"
    and "assign_backups c k v n = Inr c' \<Longrightarrow> printable c'"
    and "assign_menu c k v n = Inr c' \<Longrightarrow> printable c'"
    and "assign_kernels c k v n = Inr c' \<Longrightarrow> printable c'"
    and "assign_theme c k v n = Inr c' \<Longrightarrow> printable c'"
    and "assign_automation c k v n = Inr c' \<Longrightarrow> printable c'"
    and "assign_secure_boot c k v n = Inr c' \<Longrightarrow> printable c'"
proof -
  show "assign_manager c k v n = Inr c' \<Longrightarrow> printable c'"
    using assms by (auto simp: assign_manager_def unknown_key_def result_simps Let_def split: if_splits)
  show "assign_system c k v n = Inr c' \<Longrightarrow> printable c'"
    using assms by (auto simp: assign_system_def unknown_key_def result_simps Let_def split: if_splits)
  show "assign_snapper c k v n = Inr c' \<Longrightarrow> printable c'"
    using assms by (auto simp: assign_snapper_def unknown_key_def result_simps Let_def split: if_splits)
  show "assign_backups c k v n = Inr c' \<Longrightarrow> printable c'"
    using assms by (auto simp: assign_backups_def unknown_key_def result_simps Let_def split: if_splits)
  show "assign_menu c k v n = Inr c' \<Longrightarrow> printable c'"
    using assms by (auto simp: assign_menu_def unknown_key_def result_simps Let_def split: if_splits)
  show "assign_kernels c k v n = Inr c' \<Longrightarrow> printable c'"
    using assms by (auto simp: assign_kernels_def unknown_key_def result_simps Let_def split: if_splits)
  show "assign_theme c k v n = Inr c' \<Longrightarrow> printable c'"
    using assms by (auto simp: assign_theme_def unknown_key_def result_simps Let_def split: if_splits)
  show "assign_automation c k v n = Inr c' \<Longrightarrow> printable c'"
    using assms by (auto simp: assign_automation_def unknown_key_def result_simps Let_def split: if_splits)
  show "assign_secure_boot c k v n = Inr c' \<Longrightarrow> printable c'"
    using assms by (auto simp: assign_secure_boot_def unknown_key_def result_simps Let_def split: if_splits)
qed

lemma set_map_insert_subset: "set (map_insert k v m) \<subseteq> insert (k, v) (set m)"
  by (induction k v m rule: map_insert.induct) auto

lemma printable_assign:
  assumes "printable c" "value_ok v" "key_text k" "assign c section k v n = Inr c'"
  shows "printable c'"
proof (cases "section = ''limine''")
  case True
  then have "c' = c\<lparr>limine_options := map_insert k v (limine_options c)\<rparr>"
    using assms(4) by (simp add: assign_def)
  then show ?thesis using assms(1-3) set_map_insert_subset [of k v "limine_options c"]
    by (auto simp: printable_def set_map_insert)
next
  case False
  then show ?thesis using assms printable_assign_section [OF assms(1,2)]
    by (auto simp: assign_def split: if_splits)
qed

lemma printable_load_line:
  assumes "load_line l st = Inr st'" "NL \<notin> set l" "printable (ld_config st)"
  shows "printable (ld_config st')"
proof -
  let ?t = "trim l"
  consider "ld_config st' = ld_config st"
    | eq where "find_char (CHR ''='') ?t = Some eq" "hd ?t \<noteq> CHR ''#''" "hd ?t \<noteq> CHR '';''"
        "lower (trim (substr ?t 0 eq)) \<noteq> []"
        "\<exists>n. assign (ld_config st) (ld_section st) (lower (trim (substr ?t 0 eq))) (trim (drop (eq + 1) ?t)) n
           = Inr (ld_config st')"
    using assms(1) by (auto simp: load_line_def Let_def result_simps split: if_splits option.splits) (blast+)
  then show ?thesis
  proof cases
    case 1
    then show ?thesis using assms(3) by simp
  next
    case (2 eq)
    let ?k = "substr ?t 0 eq"
    have nl: "NL \<notin> set ?t" using set_trim assms(2) by blast
    then have "value_ok (trim (drop (eq + 1) ?t))" by (auto intro!: value_ok_trim dest: in_set_dropD)
    moreover have "key_text (lower (trim ?k))"
    proof -
      have sub: "set (trim ?k) \<subseteq> set (take eq ?t)" using set_trim [of ?k] by (simp add: substr_def)
      have "CHR ''='' \<notin> set (take eq ?t)" using find_char_SomeD [OF 2(1)] by blast
      moreover have "NL \<notin> set (take eq ?t)" using nl by (auto dest: in_set_takeD)
      moreover have "hd (trim ?k) = hd ?t"
      proof -
        have ne: "trim ?k \<noteq> []" using 2(4) by simp
        then have "?k \<noteq> []" by auto
        then have hd: "hd ?k = hd ?t" "?t \<noteq> []" by (auto simp: substr_def)
        then have "\<not> is_ws (hd ?k)" using trimmed_trim [of l] by (simp add: trimmed_def)
        then have "ltrim ?k = ?k" using \<open>?k \<noteq> []\<close> by (simp add: ltrim_def dropWhile_eq_self_iff)
        then have "trim ?k = rtrim ?k" by (simp add: trim_eq)
        moreover have "\<exists>z. ?k = rtrim ?k @ z"
          by (metis rev_append rev_rev_ident rtrim_def takeWhile_dropWhile_id)
        ultimately show ?thesis using ne hd by (metis hd_append2)
      qed
      ultimately show ?thesis using sub 2(2-4)
        by (auto simp: key_text_def in_lower_iff hd_lower_iff)
    qed
    ultimately show ?thesis using printable_assign [OF assms(3)] 2(5) by blast
  qed
qed

lemma load_text_printable: "load_text s = Inr c \<Longrightarrow> printable c"
proof -
  assume "load_text s = Inr c"
  then obtain st where st: "fold_r load_line (getlines s)
      \<lparr>ld_config = default_config, ld_section = [], ld_line = 0\<rparr> = Inr st" "c = ld_config st"
    by (auto simp: load_text_def result_simps)
  have "printable (ld_config st)"
    by (rule fold_r_invariant [OF st(1), of "\<lambda>st. printable (ld_config st)"])
       (auto simp: printable_default dest: getlines_no_NL printable_load_line)
  with st(2) show ?thesis by simp
qed

text \<open>
  C21: what \<open>show-config\<close> prints is a configuration file that loads back to the effective
  configuration, whatever file that configuration was loaded from, except that
  \<open>system.mkinitcpio_config\<close>, which is not printed, returns to its default. (The option names must
  not begin with an opening bracket and the path of the file must be free of newlines.)
\<close>

theorem show_config_roundtrip:
  assumes "load_text s = Inr c" and "\<forall>k\<in>fst ` set (limine_options c). hd k \<noteq> CHR ''[''"
    and "\<forall>p. source = Some p \<longrightarrow> NL \<notin> set p"
  shows "load_text (render_config \<lparr>config_value = c, config_source = source\<rparr>) =
    Inr (c\<lparr>system := (system c)\<lparr>sp_mkinitcpio_config := ''/etc/mkinitcpio.conf''\<rparr>\<rparr>)"
proof -
  let ?l = "\<lparr>config_value = c, config_source = source\<rparr>"
  have r: "renderable c" using load_text_printable [OF assms(1)] load_text_ok [OF assms(1)] assms(2)
    by (simp add: renderable_def)
  have "getlines (render_config ?l) = config_lines ?l"
    unfolding render_config_lines using config_lines_no_NL [of ?l] r assms(3) by (simp add: getlines_as_text)
  moreover have "config_ok (c\<lparr>system := (system c)\<lparr>sp_mkinitcpio_config := ''/etc/mkinitcpio.conf''\<rparr>\<rparr>)"
    using renderableD(2) [OF r] by (simp add: config_ok_def)
  ultimately show ?thesis using load_config_lines [of ?l] r
    by (auto simp: load_text_def simp flip: validate_config_ok)
qed

definition sample_config_text :: string where
  "sample_config_text = as_text [''[backups]'', ''retain = 7'']"

lemma load_sample: "load_text sample_config_text = Inr (default_config\<lparr>backup_retention := 7\<rparr>)"
proof -
  have "size_text 7 = ''7''" by code_simp
  then have "getlines sample_config_text = section_lines (''backups'', [(''retain'', size_text 7)])"
    unfolding sample_config_text_def
    by (subst getlines_as_text) (simp_all add: section_lines_def body_lines_def key_line_def)
  moreover have "config_ok (default_config\<lparr>backup_retention := 7\<rparr>)"
    using default_config_ok by (simp add: config_ok_def)
  ultimately show ?thesis
    by (simp add: load_text_def fold_section fold_body_Cons assign_def assign_backups_def
        flip: validate_config_ok)
qed

theorem show_config_roundtrip_witness:
  "load_text sample_config_text = Inr (default_config\<lparr>backup_retention := 7\<rparr>) \<and>
   load_text (render_config \<lparr>config_value = default_config\<lparr>backup_retention := 7\<rparr>,
      config_source = Some ''/etc/limine-manager/limine-manager.conf''\<rparr>) =
    Inr (default_config\<lparr>backup_retention := 7\<rparr>)"
proof -
  have d: "(default_config\<lparr>backup_retention := 7\<rparr>)\<lparr>system := (system (default_config\<lparr>backup_retention := 7\<rparr>))
      \<lparr>sp_mkinitcpio_config := ''/etc/mkinitcpio.conf''\<rparr>\<rparr> = default_config\<lparr>backup_retention := 7\<rparr>"
    by (simp add: default_config_def default_system_profile_def)
  have "\<forall>k\<in>fst ` set (limine_options (default_config\<lparr>backup_retention := 7\<rparr>)). hd k \<noteq> CHR ''[''"
    by (simp add: default_config_def)
  from show_config_roundtrip [OF load_sample this, of "Some ''/etc/limine-manager/limine-manager.conf''"]
  show ?thesis unfolding d using load_sample by simp
qed


theorem load_config_ok_witness:
  "config_ok (config_value \<lparr>config_value = default_config\<lparr>backup_retention := 7\<rparr>,
      config_source = Some ''/etc/limine-manager/limine-manager.conf''\<rparr>)"
proof -
  have "load_config (one_file ''/etc/limine-manager/limine-manager.conf'' sample_config_text)
      ''/etc/limine-manager/limine-manager.conf'' None =
    Inr \<lparr>config_value = default_config\<lparr>backup_retention := 7\<rparr>,
      config_source = Some ''/etc/limine-manager/limine-manager.conf''\<rparr>"
    by (simp add: load_config_def one_file_def load_sample)
  from load_config_ok [OF this] show ?thesis by blast
qed

end
