(* ===== verification/Snapper_Client.thy ===== *)
theory Snapper_Client
  imports System_Model Menu
begin

text \<open>
\<open>infrastructure::SnapperClient\<close> (src/infrastructure/snapper_client.cpp): the CSV row parser, the
  settings of a Snapper configuration and the list of its snapshots. The command runner is a
  parameter.
\<close>

section \<open>Rows of comma separated values\<close>

function csv_scan :: "string \<Rightarrow> string list \<Rightarrow> string \<Rightarrow> bool \<Rightarrow> string list result" where
  "csv_scan [] flds field quoted =
     (if quoted then Inl (Runtime_error ''Malformed CSV output from snapper'')
      else Inr (flds @ [field]))"
| "csv_scan (ch # rest) flds field quoted =
     (if quoted then
        (if ch = DQUOTE \<and> rest \<noteq> [] \<and> hd rest = DQUOTE then
           csv_scan (tl rest) flds (field @ [DQUOTE]) True
         else if ch = DQUOTE then csv_scan rest flds field False
         else csv_scan rest flds (field @ [ch]) True)
      else if ch = DQUOTE then csv_scan rest flds field True
      else if ch = CHR '','' then csv_scan rest (flds @ [field]) [] False
      else csv_scan rest flds (field @ [ch]) False)"
  by pat_completeness auto
termination
  by (relation "measure (\<lambda>(s, _, _, _). length s)") auto

definition parse_csv_row :: "string \<Rightarrow> string list result" where
  "parse_csv_row line = csv_scan line [] [] False"

section \<open>The client\<close>

definition snapper_get_config_args :: "string \<Rightarrow> string list" where
  "snapper_get_config_args config =
     [''snapper'', ''--config'', config, ''--csvout'', ''--no-headers'', ''get-config'',
      ''--columns'', ''key,value'']"

definition snapper_list_args :: "string \<Rightarrow> string list" where
  "snapper_list_args config =
     [''snapper'', ''--config'', config, ''--csvout'', ''--no-headers'', ''list'',
      ''--disable-used-space'', ''--columns'', ''number,date,description,read-only'']"

text \<open>The unordered map of settings is a function: \<open>operator[]\<close> gives the empty string for a
  key that was never assigned.\<close>

definition config_row :: "string \<Rightarrow> (string \<Rightarrow> string) \<Rightarrow> (string \<Rightarrow> string) result" where
  "config_row line values =
     bind_r (parse_csv_row line) (\<lambda>flds.
       Inr (if length flds = 2 then values(flds ! 0 := flds ! 1) else values))"

definition get_config :: "query_runner \<Rightarrow> string \<Rightarrow> snapper_config_info result" where
  "get_config runner config =
     bind_r (runner (snapper_get_config_args config)) (\<lambda>result.
       if exit_code result \<noteq> 0 then
         Inl (Runtime_error (''snapper get-config failed: '' @ proc_output result))
       else bind_r (fold_r config_row (output_lines (proc_output result)) (\<lambda>_. [])) (\<lambda>values.
         Inr \<lparr>sc_name = config, sc_subvolume = values ''SUBVOLUME'',
              sc_filesystem_type = values ''FSTYPE''\<rparr>))"

definition snapshot_row :: "string \<Rightarrow> snapshot_info list \<Rightarrow> snapshot_info list result" where
  "snapshot_row line snapshots =
     bind_r (parse_csv_row line) (\<lambda>flds.
       if length flds \<noteq> 4 then Inl (Runtime_error ''Unexpected snapper CSV column count'')
       else if flds ! 0 = ''0'' then Inr snapshots
       else case from_chars_all (flds ! 0) of
         None \<Rightarrow> Inl (Runtime_error (''Invalid snapshot number: '' @ flds ! 0))
       | Some n \<Rightarrow> Inr (snapshots @
           [\<lparr>number = n, date = flds ! 1, description = flds ! 2, read_only = (flds ! 3 = ''yes'')\<rparr>]))"

definition list_snapshots :: "query_runner \<Rightarrow> string \<Rightarrow> snapshot_info list result" where
  "list_snapshots runner config =
     bind_r (runner (snapper_list_args config)) (\<lambda>result.
       if exit_code result \<noteq> 0 then
         Inl (Runtime_error (''snapper list failed: '' @ proc_output result))
       else fold_r snapshot_row (output_lines (proc_output result)) [])"

section \<open>Quoted rows\<close>

text \<open>How a producer following RFC 4180 writes a row with every field quoted.\<close>

fun csv_escape :: "string \<Rightarrow> string" where
  "csv_escape [] = []"
| "csv_escape (c # s) = (if c = DQUOTE then [DQUOTE, DQUOTE] else [c]) @ csv_escape s"

definition csv_quote :: "string \<Rightarrow> string" where
  "csv_quote f = DQUOTE # csv_escape f @ [DQUOTE]"

fun csv_row :: "string list \<Rightarrow> string" where
  "csv_row [] = []"
| "csv_row [f] = csv_quote f"
| "csv_row (f # fs) = csv_quote f @ CHR '','' # csv_row fs"

lemma csv_scan_escape:
  "s = [] \<or> hd s \<noteq> DQUOTE \<Longrightarrow>
   csv_scan (csv_escape f @ DQUOTE # s) flds field True = csv_scan s flds (field @ f) False"
proof (induction f arbitrary: field)
  case Nil
  then show ?case by (cases s) auto
next
  case (Cons c f)
  then show ?case by simp
qed

lemma csv_scan_row:
  "fs \<noteq> [] \<Longrightarrow> csv_scan (csv_row fs) flds [] False = Inr (flds @ fs)"
proof (induction fs arbitrary: flds rule: csv_row.induct)
  case (2 f)
  show ?case using csv_scan_escape [of "[]"] by (simp add: csv_quote_def)
next
  case (3 f g fs)
  have "csv_scan (csv_row (f # g # fs)) flds [] False =
      csv_scan (CHR '','' # csv_row (g # fs)) flds f False"
    using csv_scan_escape [of "CHR '','' # csv_row (g # fs)"] by (simp add: csv_quote_def)
  with 3 show ?case by simp
qed simp

lemma parse_csv_row_quoted [simp]: "fs \<noteq> [] \<Longrightarrow> parse_csv_row (csv_row fs) = Inr fs"
  by (simp add: parse_csv_row_def csv_scan_row)

text \<open>Reading the rows that Snapper prints for its snapshots gives the snapshots back.\<close>

definition snapshot_fields :: "snapshot_info \<Rightarrow> string list" where
  "snapshot_fields s = [dec (unat (number s)), date s, description s,
     if read_only s then ''yes'' else ''no'']"

lemma csv_row_Cons: "fs \<noteq> [] \<Longrightarrow> csv_row (f # fs) = csv_quote f @ CHR '','' # csv_row fs"
  by (cases fs) auto

lemma NL_csv_escape [simp]: "NL \<in> set (csv_escape f) \<longleftrightarrow> NL \<in> set f"
  by (induction f) auto

lemma NL_csv_row: "(\<forall>f\<in>set fs. NL \<notin> set f) \<Longrightarrow> NL \<notin> set (csv_row fs)"
  by (induction fs rule: csv_row.induct) (auto simp: csv_quote_def)

lemma csv_row_end: "fs \<noteq> [] \<Longrightarrow> csv_row fs \<noteq> [] \<and> last (csv_row fs) = DQUOTE"
  by (induction fs rule: csv_row.induct) (auto simp: csv_quote_def)

lemma output_lines_rows:
  assumes "\<forall>fs\<in>set rows. fs \<noteq> [] \<and> (\<forall>f\<in>set fs. NL \<notin> set f)"
  shows "output_lines (as_text (map csv_row rows)) = map csv_row rows"
proof -
  have "getlines (as_text (map csv_row rows)) = map csv_row rows"
    using assms NL_csv_row by (intro getlines_as_text) fastforce
  moreover have "strip_cr (csv_row fs) = csv_row fs \<and> csv_row fs \<noteq> []" if "fs \<in> set rows" for fs
    using assms that csv_row_end [of fs] by (auto simp: strip_cr_def)
  ultimately show ?thesis
    by (auto simp: output_lines_def o_def filter_empty_conv intro!: map_cong filter_True)
qed

lemma dec_zero_iff: "dec n = ''0'' \<longleftrightarrow> n = 0"
proof -
  have "dec 0 = ''0''" by code_simp
  then show ?thesis using dec_inject [of n 0] by simp
qed

lemma snapshot_row_printed:
  "snapshot_row (csv_row (snapshot_fields s)) acc = Inr (if number s = 0 then acc else acc @ [s])"
proof -
  have "parse_csv_row (csv_row (snapshot_fields s)) = Inr (snapshot_fields s)"
    by (rule parse_csv_row_quoted) (simp add: snapshot_fields_def)
  then show ?thesis
    by (simp add: snapshot_row_def, simp add: snapshot_fields_def dec_zero_iff unat_eq_zero)
qed

lemma fold_snapshot_rows:
  "fold_r snapshot_row (map (\<lambda>s. csv_row (snapshot_fields s)) ss) acc =
     Inr (acc @ filter (\<lambda>s. number s \<noteq> 0) ss)"
  by (induction ss arbitrary: acc) (auto simp: snapshot_row_printed)


definition sample_snapshots :: "snapshot_info list" where
  "sample_snapshots =
     [\<lparr>number = 0, date = [], description = ''current'', read_only = False\<rparr>,
      \<lparr>number = 12, date = ''2026-07-01'', description = ''a, b'' @ [DQUOTE], read_only = True\<rparr>]"


lemma list_snapshots_fails:
  "runner (snapper_list_args config) = Inr r \<Longrightarrow> exit_code r \<noteq> 0 \<Longrightarrow>
     list_snapshots runner config = Inl (Runtime_error (''snapper list failed: '' @ proc_output r))"
  by (simp add: list_snapshots_def)

end
