(* ===== verification/Sorting.thy ===== *)
theory Sorting
  imports Paths "HOL-Library.Multiset"
begin

text \<open>
\<open>std::sort\<close> and \<open>std::stable_sort\<close> with a comparison function. Both are modelled by a stable
  insertion sort; \<open>std::sort\<close> leaves the order of equivalent elements open and the model fixes one
  of the allowed results. The requirements C++ puts on a comparison are the locale
  \<open>strict_weak_order\<close>, interpreted on each comparison of the sources in the theory of its component.
\<close>

fun insert_by :: "('a \<Rightarrow> 'a \<Rightarrow> bool) \<Rightarrow> 'a \<Rightarrow> 'a list \<Rightarrow> 'a list" where
  "insert_by lt x [] = [x]"
| "insert_by lt x (y # ys) = (if lt y x then y # insert_by lt x ys else x # y # ys)"

definition sort_by :: "('a \<Rightarrow> 'a \<Rightarrow> bool) \<Rightarrow> 'a list \<Rightarrow> 'a list" where
  "sort_by lt xs = foldr (insert_by lt) xs []"

lemma sort_by_simps [simp]: "sort_by lt [] = []" "sort_by lt (x # xs) = insert_by lt x (sort_by lt xs)"
  by (simp_all add: sort_by_def)

lemma mset_insert_by [simp]: "mset (insert_by lt x xs) = add_mset x (mset xs)"
  by (induction xs) auto

lemma mset_sort_by [simp]: "mset (sort_by lt xs) = mset xs"
  by (induction xs) auto

lemma set_sort_by [simp]: "set (sort_by lt xs) = set xs"
  using mset_sort_by [of lt xs] by (metis set_mset_mset)

lemma length_sort_by [simp]: "length (sort_by lt xs) = length xs"
  using mset_sort_by [of lt xs] by (metis size_mset)

lemma sort_by_Nil_iff [simp]: "sort_by lt xs = [] \<longleftrightarrow> xs = []"
  by (metis length_0_conv length_sort_by)

lemma set_insert_by [simp]: "set (insert_by lt x xs) = insert x (set xs)"
  using mset_insert_by [of lt x xs] by (metis set_mset_add_mset_insert set_mset_mset)

text \<open>The comparison need not be an order for the result to respect a coarser relation.\<close>

definition coarsens :: "('a \<Rightarrow> 'a \<Rightarrow> bool) \<Rightarrow> ('a \<Rightarrow> 'a \<Rightarrow> bool) \<Rightarrow> 'a set \<Rightarrow> bool" where
  "coarsens R lt S \<longleftrightarrow>
     (\<forall>x\<in>S. \<forall>y\<in>S. (lt y x \<longrightarrow> R y x) \<and> (\<not> lt y x \<longrightarrow> R x y)) \<and>
     (\<forall>x\<in>S. \<forall>y\<in>S. \<forall>z\<in>S. R x y \<longrightarrow> R y z \<longrightarrow> R x z)"

lemma coarsensD:
  "coarsens R lt S \<Longrightarrow> x \<in> S \<Longrightarrow> y \<in> S \<Longrightarrow> lt y x \<Longrightarrow> R y x"
  "coarsens R lt S \<Longrightarrow> x \<in> S \<Longrightarrow> y \<in> S \<Longrightarrow> \<not> lt y x \<Longrightarrow> R x y"
  "coarsens R lt S \<Longrightarrow> x \<in> S \<Longrightarrow> y \<in> S \<Longrightarrow> z \<in> S \<Longrightarrow> R x y \<Longrightarrow> R y z \<Longrightarrow> R x z"
  unfolding coarsens_def by blast+

lemma sorted_wrt_insert_by:
  assumes c: "coarsens R lt S" and x: "x \<in> S"
  shows "sorted_wrt R ys \<Longrightarrow> set ys \<subseteq> S \<Longrightarrow> sorted_wrt R (insert_by lt x ys)"
proof (induction ys)
  case (Cons y ys)
  then have y: "y \<in> S" and ys: "set ys \<subseteq> S" and Ry: "\<forall>z\<in>set ys. R y z" by auto
  show ?case
  proof (cases "lt y x")
    case True
    then show ?thesis using Cons coarsensD(1) [OF c x y True] by simp
  next
    case False
    then have "R x y" by (rule coarsensD(2) [OF c x y])
    moreover have "R x z" if "z \<in> set ys" for z
      using coarsensD(3) [OF c x y _ \<open>R x y\<close>, of z] that ys Ry by blast
    ultimately show ?thesis using Cons.prems False by simp
  qed
qed simp

lemma sorted_wrt_sort_by: "coarsens R lt (set xs) \<Longrightarrow> sorted_wrt R (sort_by lt xs)"
proof -
  assume c: "coarsens R lt (set xs)"
  have "set ys \<subseteq> set xs \<Longrightarrow> sorted_wrt R (sort_by lt ys)" for ys
    by (induction ys) (auto intro!: sorted_wrt_insert_by [OF c])
  then show ?thesis by simp
qed

section \<open>The contract of a comparison\<close>

text \<open>What \<open>std::sort\<close> and \<open>std::stable_sort\<close> demand of a comparison on the elements \<open>A\<close>.\<close>

locale strict_weak_order =
  fixes A :: "'a set" and lt :: "'a \<Rightarrow> 'a \<Rightarrow> bool"
  assumes lt_irrefl: "x \<in> A \<Longrightarrow> \<not> lt x x"
    and lt_trans: "x \<in> A \<Longrightarrow> y \<in> A \<Longrightarrow> z \<in> A \<Longrightarrow> lt x y \<Longrightarrow> lt y z \<Longrightarrow> lt x z"
    and lt_weak: "x \<in> A \<Longrightarrow> y \<in> A \<Longrightarrow> z \<in> A \<Longrightarrow> lt x z \<Longrightarrow> lt x y \<or> lt y z"
begin

lemma lt_asym: "x \<in> A \<Longrightarrow> y \<in> A \<Longrightarrow> lt x y \<Longrightarrow> \<not> lt y x"
  using lt_irrefl lt_trans by blast

lemma sorted_sort: "set xs \<subseteq> A \<Longrightarrow> sorted_wrt (\<lambda>x y. \<not> lt y x) (sort_by lt xs)"
proof (rule sorted_wrt_sort_by)
  assume a: "set xs \<subseteq> A"
  have "\<not> lt z x" if "x \<in> A" "y \<in> A" "z \<in> A" "\<not> lt y x" "\<not> lt z y" for x y z
    using lt_weak [of z y x] that by blast
  moreover have "\<not> lt x y" if "x \<in> A" "y \<in> A" "lt y x" for x y using lt_asym that by blast
  ultimately show "coarsens (\<lambda>x y. \<not> lt y x) lt (set xs)"
    unfolding coarsens_def using a by (meson subsetD)
qed

lemma insert_stable:
  assumes "x \<in> A" "y \<in> A" "set xs \<subseteq> A" "sorted_wrt (\<lambda>a b. \<not> lt b a) xs"
  shows "filter (\<lambda>z. \<not> lt y z \<and> \<not> lt z y) (insert_by lt x xs) =
         filter (\<lambda>z. \<not> lt y z \<and> \<not> lt z y) (x # xs)"
  using assms
proof (induction xs)
  case (Cons a xs)
  show ?case
  proof (cases "lt a x")
    case True
    then have "\<not> ((\<not> lt y x \<and> \<not> lt x y) \<and> \<not> lt y a \<and> \<not> lt a y)"
      using Cons.prems lt_weak [of a y x] by auto
    with True Cons show ?thesis by auto
  qed simp
qed simp

text \<open>Equivalent elements keep their order.\<close>

lemma stable_sort:
  "y \<in> A \<Longrightarrow> set xs \<subseteq> A \<Longrightarrow>
     filter (\<lambda>z. \<not> lt y z \<and> \<not> lt z y) (sort_by lt xs) = filter (\<lambda>z. \<not> lt y z \<and> \<not> lt z y) xs"
  by (induction xs) (simp_all add: insert_stable sorted_sort)

lemma hd_least: "set xs \<subseteq> A \<Longrightarrow> x \<in> set xs \<Longrightarrow> \<not> lt x (hd (sort_by lt xs))"
proof -
  assume a: "set xs \<subseteq> A" "x \<in> set xs"
  obtain y ys where s: "sort_by lt xs = y # ys" using a(2) by (cases "sort_by lt xs") auto
  have "x \<in> set (y # ys)" "y \<in> A" using a s set_sort_by [of lt xs] by auto
  with sorted_sort [OF a(1)] s show ?thesis using lt_irrefl by auto
qed

text \<open>When only equal elements are equivalent, every sorting algorithm gives the same list.\<close>

lemma sorted_unique:
  assumes "set xs \<subseteq> A" "mset ys = mset xs" "sorted_wrt (\<lambda>x y. \<not> lt y x) ys"
    and "\<And>x y. x \<in> set xs \<Longrightarrow> y \<in> set xs \<Longrightarrow> \<not> lt x y \<Longrightarrow> \<not> lt y x \<Longrightarrow> x = y"
  shows "ys = sort_by lt xs"
proof -
  have "zs = ys" if "mset zs = mset ys" "sorted_wrt (\<lambda>x y. \<not> lt y x) zs" "set zs \<subseteq> set xs"
    "sorted_wrt (\<lambda>x y. \<not> lt y x) ys" for zs ys
    using that
  proof (induction zs arbitrary: ys)
    case (Cons z zs)
    then obtain w ws where ys: "ys = w # ws" by (cases ys) auto
    have eq: "set (z # zs) = set ys" using Cons.prems(1) by (metis set_mset_mset)
    have "z = w"
    proof (rule ccontr)
      assume ne: "z \<noteq> w"
      with eq ys have "w \<in> set zs" "z \<in> set ws" by auto
      with Cons.prems ys have "\<not> lt w z" "\<not> lt z w" by auto
      moreover have "w \<in> set xs" "z \<in> set xs" using Cons.prems(3) eq ys by auto
      ultimately show False using assms(4) ne by blast
    qed
    with Cons ys show ?case by auto
  qed simp
  then show ?thesis using assms sorted_sort [OF assms(1)]
    by (metis mset_sort_by set_mset_mset subset_refl)
qed

end

text \<open>The order on paths that \<open>std::sort\<close> uses by default.\<close>

interpretation path_order: strict_weak_order UNIV path_less
proof
  show "\<not> path_less x x" for x by simp
  show "path_less x y \<Longrightarrow> path_less y z \<Longrightarrow> path_less x z" for x y z by (rule path_less_trans)
  show "path_less x z \<Longrightarrow> path_less x y \<or> path_less y z" for x y z
    by (auto simp: path_less_def split: if_splits)
qed

end
