(* ===== verification/Snapshot_Selector.thy ===== *)
theory Snapshot_Selector
  imports Sorting System_Model
begin

text \<open>
\<open>application::select_menu_snapshots\<close> (include/.../application/snapshot_selector.hpp): the choice
  of the snapshots the boot menu offers.
\<close>

definition newer_snapshot :: "snapshot_info \<Rightarrow> snapshot_info \<Rightarrow> bool" where
  "newer_snapshot lhs rhs \<longleftrightarrow> number rhs < number lhs"

fun select_loop :: "app_config \<Rightarrow> snapshot_info list \<Rightarrow> snapshot_info list \<Rightarrow> snapshot_info list" where
  "select_loop config [] sel = sel"
| "select_loop config (snapshot # rest) sel =
     (if \<not> read_only snapshot \<and> \<not> include_read_write_snapshots config then
        select_loop config rest sel
      else if max_snapshots config \<noteq> 0 \<and> unat (max_snapshots config) \<le> length sel then sel
      else select_loop config rest (sel @ [snapshot]))"

definition select_menu_snapshots :: "snapshot_info list \<Rightarrow> app_config \<Rightarrow> snapshot_info list" where
  "select_menu_snapshots snapshots config =
     select_loop config (sort_by newer_snapshot snapshots) []"

interpretation snapshot_order: strict_weak_order UNIV newer_snapshot
  by unfold_locales (auto simp: newer_snapshot_def)

definition offered :: "app_config \<Rightarrow> snapshot_info \<Rightarrow> bool" where
  "offered config s \<longleftrightarrow> read_only s \<or> include_read_write_snapshots config"

definition limit_to :: "size_t \<Rightarrow> 'a list \<Rightarrow> 'a list" where
  "limit_to n xs = (if n = 0 then xs else take (unat n) xs)"

lemma select_loop_eq:
  "max_snapshots config = 0 \<or> length sel \<le> unat (max_snapshots config) \<Longrightarrow>
   select_loop config ss sel = limit_to (max_snapshots config) (sel @ filter (offered config) ss)"
proof (induction ss arbitrary: sel)
  case Nil
  then show ?case by (auto simp: limit_to_def)
next
  case (Cons s ss)
  show ?case
  proof (cases "offered config s")
    case True
    then show ?thesis using Cons
      by (cases "max_snapshots config = 0 \<or> length sel < unat (max_snapshots config)")
         (auto simp: offered_def limit_to_def)
  next
    case False
    then show ?thesis using Cons by (auto simp: offered_def)
  qed
qed

lemma select_menu_snapshots_eq:
  "select_menu_snapshots ss config =
     limit_to (max_snapshots config) (filter (offered config) (sort_by newer_snapshot ss))"
  by (simp add: select_menu_snapshots_def select_loop_eq)

lemma limit_to_prefix: "\<exists>rest. xs = limit_to n xs @ rest"
  by (metis append_Nil2 append_take_drop_id limit_to_def)

text \<open>
  C32: the menu offers exactly the newest snapshots: read-write ones only if configured, in
  decreasing order of number, no more than the configured maximum, as many as that allows, and no
  snapshot left out is newer than one offered.
\<close>

theorem select_newest:
  "let sel = select_menu_snapshots ss config; eligible = filter (offered config) ss in
   sorted_wrt (\<lambda>a b. number b \<le> number a) sel \<and>
   mset sel \<subseteq># mset eligible \<and>
   length sel = (if max_snapshots config = 0 then length eligible
                      else min (unat (max_snapshots config)) (length eligible)) \<and>
   \<not> (\<exists>a s. a \<in># mset eligible - mset sel \<and> s \<in> set sel \<and> number s < number a)"
proof -
  let ?all = "filter (offered config) (sort_by newer_snapshot ss)"
  let ?sel = "limit_to (max_snapshots config) ?all"
  obtain rest where r: "?all = ?sel @ rest" using limit_to_prefix by blast
  have m: "mset ?all = mset (filter (offered config) ss)" by simp
  have s: "sorted_wrt (\<lambda>a b. number b \<le> number a) ?all"
    using snapshot_order.sorted_sort [of ss] by (auto simp: newer_snapshot_def not_less intro: sorted_wrt_filter)
  then have s': "sorted_wrt (\<lambda>a b. number b \<le> number a) ?sel"
    "\<forall>x\<in>set ?sel. \<forall>y\<in>set rest. number y \<le> number x"
    by (subst (asm) r, simp add: sorted_wrt_append)+
  have d: "mset (filter (offered config) ss) = mset ?sel + mset rest"
    using m r by (metis mset_append)
  have l: "length ?all = length (filter (offered config) ss)" using m by (metis size_mset)
  have n: "\<not> (\<exists>a s. a \<in> set rest \<and> s \<in> set ?sel \<and> number s < number a)"
    using s'(2) by (meson leD)
  have len: "length ?sel = (if max_snapshots config = 0 then length (filter (offered config) ss)
      else min (unat (max_snapshots config)) (length (filter (offered config) ss)))"
    using l by (simp add: limit_to_def min_def)
  show ?thesis unfolding Let_def select_menu_snapshots_eq d
    using s'(1) n len by simp
qed

end
