(* ===== verification/Posix.thy ===== *)
theory Posix
  imports File_System
begin

text \<open>
The part of POSIX the file operations of the sources use, as a state machine over a \<open>world\<close>.

  A name is a path string and refers to an inode; two different strings the program uses are taken
  to name different files. The world separates what running programs see (\<open>names\<close>, \<open>inodes\<close>) from
  what survives a power failure (\<open>on_disk\<close>, \<open>ino_synced\<close>). The environment drives it by a script
  with one outcome per system call, over which every theorem quantifies: any call may fail with any
  error, be interrupted, transfer part of the data, or be the last one before the machine stops.
  The clock is an arbitrary function, the process identity and the locks of other processes are
  fields. No other process changes files while the program runs.
\<close>

section \<open>Files, names and the state of the host\<close>

datatype errno = EINTR | ENOENT | EEXIST | ENOTDIR | EISDIR | ELOOP | EWOULDBLOCK | EIO | Errno nat

fun strerror :: "errno \<Rightarrow> string" where
  "strerror EINTR = ''Interrupted system call''"
| "strerror ENOENT = ''No such file or directory''"
| "strerror EEXIST = ''File exists''"
| "strerror ENOTDIR = ''Not a directory''"
| "strerror EISDIR = ''Is a directory''"
| "strerror ELOOP = ''Too many levels of symbolic links''"
| "strerror EWOULDBLOCK = ''Resource temporarily unavailable''"
| "strerror EIO = ''Input/output error''"
| "strerror (Errno n) = ''Unknown error '' @ dec n"

datatype file_kind = Regular | Dir | Symlink path | Special

text \<open>Permission bits are the twelve bits \<open>st_mode & 07777\<close>. \<open>ino_synced\<close> tells whether the data
  has reached the disk.\<close>

record inode =
  ino_kind :: file_kind
  ino_data :: string
  ino_synced :: bool
  ino_perm :: "12 word"
  ino_uid :: nat
  ino_gid :: nat
  ino_mtime :: nat

text \<open>The outcome the environment chooses for a system call: it succeeds, fails with an error and
  without effect, transfers only part of the data, or the machine stops.\<close>

datatype outcome = Ok | Fail errno | Short nat | Crash

datatype failure_point =
    After_temporary_create | Before_file_fsync | Before_rename | After_rename
  | Before_directory_fsync | Before_unlink

record world =
  names :: "(path \<times> nat) list"
  inodes :: "nat \<Rightarrow> inode"
  next_inode :: nat
  on_disk :: "path \<Rightarrow> nat option list"
  script :: "outcome list"
  stopped :: bool
  ticks :: "nat \<Rightarrow> nat"
  clock_reads :: nat
  now :: nat
  pid :: nat
  euid :: nat
  egid :: nat
  umask :: "12 word"
  foreign_locks :: "nat list"
  own_locks :: "nat list"
  injected :: "failure_point option"

definition lookup :: "world \<Rightarrow> path \<Rightarrow> nat option" where
  "lookup w p = map_of (names w) p"

definition inode_at :: "world \<Rightarrow> path \<Rightarrow> inode option" where
  "inode_at w p = map_option (inodes w) (lookup w p)"

definition dir_of :: "path \<Rightarrow> path" where
  "dir_of p = (if parent_path p = [] then ''.'' else parent_path p)"

text \<open>
  Rebinding a name. \<open>on_disk\<close> collects the bindings the name has had since its directory was last
  flushed: after a power failure the disk holds one of them.
\<close>

definition set_name :: "path \<Rightarrow> nat option \<Rightarrow> world \<Rightarrow> world" where
  "set_name p v w =
     w\<lparr>names := (case v of None \<Rightarrow> [] | Some i \<Rightarrow> [(p, i)]) @ filter (\<lambda>(q, _). q \<noteq> p) (names w),
       on_disk := (on_disk w)(p := v # on_disk w p)\<rparr>"

definition set_inode :: "nat \<Rightarrow> inode \<Rightarrow> world \<Rightarrow> world" where
  "set_inode i n w = w\<lparr>inodes := (inodes w)(i := n)\<rparr>"

definition flush_directory :: "path \<Rightarrow> world \<Rightarrow> world" where
  "flush_directory d w =
     w\<lparr>on_disk := (\<lambda>p. if dir_of p = d then [lookup w p] else on_disk w p)\<rparr>"

definition is_kind_dir :: "world \<Rightarrow> path \<Rightarrow> bool" where
  "is_kind_dir w p \<longleftrightarrow> (case inode_at w p of Some n \<Rightarrow> ino_kind n = Dir | None \<Rightarrow> False)"

text \<open>The file a path leads to when a symbolic link at its end is followed, at most \<open>n\<close> times.\<close>

fun resolve :: "nat \<Rightarrow> world \<Rightarrow> path \<Rightarrow> nat option" where
  "resolve 0 w p = None"
| "resolve (Suc n) w p =
     (case lookup w p of
        None \<Rightarrow> None
      | Some i \<Rightarrow> (case ino_kind (inodes w i) of
            Symlink t \<Rightarrow> resolve n w (path_append (parent_path p) t)
          | _ \<Rightarrow> Some i))"

section \<open>System calls\<close>

type_synonym 'a sys = "world \<Rightarrow> (errno + 'a) \<times> world"

text \<open>The environment does not invent errors that tell something about names.\<close>

definition environmental :: "errno \<Rightarrow> errno" where
  "environmental e = (if e = ENOENT \<or> e = EEXIST \<or> e = ENOTDIR then EIO else e)"

text \<open>Each call takes the next outcome of the script; with the script used up, calls succeed. Once
  the machine has stopped nothing has an effect any more.\<close>

definition syscall :: "(world \<Rightarrow> (errno + 'a) \<times> world) \<Rightarrow> (nat \<Rightarrow> world \<Rightarrow> (errno + 'a) \<times> world) \<Rightarrow> 'a sys" where
  "syscall act partial w =
     (if stopped w then (Inl EIO, w)
      else case script w of
        [] \<Rightarrow> act w
      | Ok # s \<Rightarrow> act (w\<lparr>script := s\<rparr>)
      | Fail e # s \<Rightarrow> (Inl (environmental e), w\<lparr>script := s\<rparr>)
      | Short n # s \<Rightarrow> partial n (w\<lparr>script := s\<rparr>)
      | Crash # s \<Rightarrow> (Inl EIO, w\<lparr>script := s, stopped := True\<rparr>))"

definition syscall1 :: "(world \<Rightarrow> (errno + 'a) \<times> world) \<Rightarrow> 'a sys" where
  "syscall1 act = syscall act (\<lambda>_. act)"

record stat =
  st_kind :: file_kind
  st_perm :: "12 word"
  st_uid :: nat
  st_gid :: nat

definition stat_of :: "inode \<Rightarrow> stat" where
  "stat_of n = \<lparr>st_kind = ino_kind n, st_perm = ino_perm n, st_uid = ino_uid n, st_gid = ino_gid n\<rparr>"

definition sys_lstat :: "path \<Rightarrow> stat sys" where
  "sys_lstat p = syscall1 (\<lambda>w.
     (case inode_at w p of None \<Rightarrow> Inl ENOENT | Some n \<Rightarrow> Inr (stat_of n), w))"

definition sys_fstat :: "nat \<Rightarrow> stat sys" where
  "sys_fstat fd = syscall1 (\<lambda>w. (Inr (stat_of (inodes w fd)), w))"

text \<open>\<open>open(p, O_RDONLY | O_NOFOLLOW)\<close>; a descriptor is the number of the open file.\<close>

definition sys_open_read :: "path \<Rightarrow> nat sys" where
  "sys_open_read p = syscall1 (\<lambda>w.
     (case lookup w p of
        None \<Rightarrow> Inl ENOENT
      | Some i \<Rightarrow> (case ino_kind (inodes w i) of Symlink _ \<Rightarrow> Inl ELOOP | _ \<Rightarrow> Inr i), w))"

definition fresh_inode :: "world \<Rightarrow> 12 word \<Rightarrow> inode" where
  "fresh_inode w perm =
     \<lparr>ino_kind = Regular, ino_data = [], ino_synced = False, ino_perm = and perm (not (umask w)),
      ino_uid = euid w, ino_gid = egid w, ino_mtime = now w\<rparr>"

definition fresh_directory :: "world \<Rightarrow> inode" where
  "fresh_directory w = (fresh_inode w 0x1FF)\<lparr>ino_kind := Dir\<rparr>"

definition create_file :: "path \<Rightarrow> 12 word \<Rightarrow> world \<Rightarrow> (errno + nat) \<times> world" where
  "create_file p perm w =
     (if \<not> is_kind_dir w (dir_of p) then (Inl ENOENT, w)
      else let i = next_inode w in
        (Inr i, set_name p (Some i) (set_inode i (fresh_inode w perm) w)\<lparr>next_inode := i + 1\<rparr>))"

text \<open>\<open>open(p, O_WRONLY | O_CREAT | O_EXCL | O_NOFOLLOW, perm)\<close>\<close>

definition sys_create_excl :: "path \<Rightarrow> 12 word \<Rightarrow> nat sys" where
  "sys_create_excl p perm = syscall1 (\<lambda>w.
     if lookup w p \<noteq> None then (Inl EEXIST, w) else create_file p perm w)"

text \<open>\<open>open(p, O_RDWR | O_CREAT | O_NOFOLLOW, perm)\<close>\<close>

definition sys_open_create :: "path \<Rightarrow> 12 word \<Rightarrow> nat sys" where
  "sys_open_create p perm = syscall1 (\<lambda>w.
     case lookup w p of
       None \<Rightarrow> create_file p perm w
     | Some i \<Rightarrow> (case ino_kind (inodes w i) of
           Symlink _ \<Rightarrow> (Inl ELOOP, w) | Dir \<Rightarrow> (Inl EISDIR, w) | _ \<Rightarrow> (Inr i, w)))"

definition sys_open_directory :: "path \<Rightarrow> path sys" where
  "sys_open_directory p = syscall1 (\<lambda>w.
     (case inode_at w p of
        None \<Rightarrow> Inl ENOENT
      | Some n \<Rightarrow> if ino_kind n = Dir then Inr p else Inl ENOTDIR, w))"

text \<open>\<open>read\<close> of at most \<open>count\<close> bytes at the offset \<open>off\<close>; a short read delivers at least one byte.\<close>

definition sys_read :: "nat \<Rightarrow> nat \<Rightarrow> nat \<Rightarrow> string sys" where
  "sys_read fd off count =
     (let deliver = (\<lambda>n w. (if ino_kind (inodes w fd) = Dir then Inl EISDIR
                           else Inr (take n (drop off (ino_data (inodes w fd)))), w)) in
      syscall (deliver count) (\<lambda>n. deliver (min count (n + 1))))"

text \<open>\<open>write\<close> to a file opened at its end; the number of bytes taken is returned.\<close>

definition sys_write :: "nat \<Rightarrow> string \<Rightarrow> nat sys" where
  "sys_write fd bytes =
     (let accept = (\<lambda>n w. let f = inodes w fd in
        (Inr (length (take n bytes)),
         set_inode fd (f\<lparr>ino_data := ino_data f @ take n bytes, ino_synced := False,
                         ino_mtime := now w\<rparr>) w)) in
      syscall (accept (length bytes)) accept)"

definition sys_fchmod :: "nat \<Rightarrow> 12 word \<Rightarrow> unit sys" where
  "sys_fchmod fd perm = syscall1 (\<lambda>w.
     (Inr (), set_inode fd ((inodes w fd)\<lparr>ino_perm := perm\<rparr>) w))"

text \<open>Changing the owner clears the set-user-ID bit, and the set-group-ID bit of a file its group
  may execute.\<close>

definition chown_perm :: "12 word \<Rightarrow> 12 word" where
  "chown_perm m =
     (let m = and m (not 0x800) in if and m 0x008 \<noteq> 0 then and m (not 0x400) else m)"

definition sys_fchown :: "nat \<Rightarrow> nat \<Rightarrow> nat \<Rightarrow> unit sys" where
  "sys_fchown fd uid gid = syscall1 (\<lambda>w.
     let f = inodes w fd in
     (Inr (), set_inode fd (f\<lparr>ino_uid := uid, ino_gid := gid, ino_perm := chown_perm (ino_perm f)\<rparr>) w))"

definition sys_fsync :: "nat \<Rightarrow> unit sys" where
  "sys_fsync fd = syscall1 (\<lambda>w. (Inr (), set_inode fd ((inodes w fd)\<lparr>ino_synced := True\<rparr>) w))"

definition sys_fsync_dir :: "path \<Rightarrow> unit sys" where
  "sys_fsync_dir d = syscall1 (\<lambda>w. (Inr (), flush_directory d w))"

definition sys_rename :: "path \<Rightarrow> path \<Rightarrow> unit sys" where
  "sys_rename p q = syscall1 (\<lambda>w.
     case lookup w p of
       None \<Rightarrow> (Inl ENOENT, w)
     | Some i \<Rightarrow>
         if lookup w q = Some i then (Inr (), w)
         else if is_kind_dir w q \<noteq> is_kind_dir w p \<and> lookup w q \<noteq> None then
           (Inl (if is_kind_dir w q then EISDIR else ENOTDIR), w)
         else (Inr (), set_name q (Some i) (set_name p None w)))"

definition sys_unlink :: "path \<Rightarrow> unit sys" where
  "sys_unlink p = syscall1 (\<lambda>w.
     case inode_at w p of
       None \<Rightarrow> (Inl ENOENT, w)
     | Some n \<Rightarrow> if ino_kind n = Dir then (Inl EISDIR, w) else (Inr (), set_name p None w))"

definition sys_flock :: "nat \<Rightarrow> unit sys" where
  "sys_flock fd = syscall1 (\<lambda>w.
     if fd \<in> set (foreign_locks w) then (Inl EWOULDBLOCK, w)
     else (Inr (), w\<lparr>own_locks := fd # own_locks w\<rparr>))"

text \<open>Closing the descriptor gives its lock back.\<close>

definition release_lock :: "nat \<Rightarrow> world \<Rightarrow> world" where
  "release_lock fd w = (if stopped w then w else w\<lparr>own_locks := filter (\<lambda>i. i \<noteq> fd) (own_locks w)\<rparr>)"

text \<open>\<open>steady_clock::now()\<close>\<close>

definition read_clock :: "world \<Rightarrow> nat \<times> world" where
  "read_clock w = (ticks w (clock_reads w), w\<lparr>clock_reads := clock_reads w + 1\<rparr>)"

section \<open>Well-formed states\<close>

definition world_ok :: "world \<Rightarrow> bool" where
  "world_ok w \<longleftrightarrow>
     (\<forall>p i. lookup w p = Some i \<longrightarrow> i < next_inode w) \<and>
     (\<forall>p. lookup w p \<in> set (on_disk w p)) \<and>
     (\<forall>p i. Some i \<in> set (on_disk w p) \<longrightarrow> i < next_inode w)"

lemma lookup_set_name [simp]: "lookup (set_name p v w) q = (if q = p then v else lookup w q)"
proof -
  have "map_of (filter (\<lambda>(q, _). q \<noteq> p) ns) q = (if q = p then None else map_of ns q)"
    for ns :: "(path \<times> nat) list" by (induction ns) auto
  then show ?thesis by (auto simp: lookup_def set_name_def split: option.split)
qed

lemma set_name_simps [simp]:
  "inodes (set_name p v w) = inodes w" "next_inode (set_name p v w) = next_inode w"
  "on_disk (set_name p v w) = (on_disk w)(p := v # on_disk w p)"
  "stopped (set_name p v w) = stopped w" "script (set_name p v w) = script w"
  "euid (set_name p v w) = euid w" "egid (set_name p v w) = egid w" "umask (set_name p v w) = umask w"
  "pid (set_name p v w) = pid w" "ticks (set_name p v w) = ticks w" "foreign_locks (set_name p v w) = foreign_locks w"
  "now (set_name p v w) = now w" "own_locks (set_name p v w) = own_locks w" "clock_reads (set_name p v w) = clock_reads w"
  "injected (set_name p v w) = injected w"
  by (simp_all add: set_name_def)

lemma set_inode_simps [simp]:
  "lookup (set_inode i n w) = lookup w" "next_inode (set_inode i n w) = next_inode w"
  "on_disk (set_inode i n w) = on_disk w" "inodes (set_inode i n w) = (inodes w)(i := n)"
  "stopped (set_inode i n w) = stopped w" "script (set_inode i n w) = script w"
  "euid (set_inode i n w) = euid w" "egid (set_inode i n w) = egid w" "umask (set_inode i n w) = umask w"
  "pid (set_inode i n w) = pid w" "ticks (set_inode i n w) = ticks w" "foreign_locks (set_inode i n w) = foreign_locks w"
  "now (set_inode i n w) = now w" "own_locks (set_inode i n w) = own_locks w" "clock_reads (set_inode i n w) = clock_reads w"
  "injected (set_inode i n w) = injected w"
  by (simp_all add: set_inode_def lookup_def fun_eq_iff)

lemma flush_directory_simps [simp]:
  "lookup (flush_directory d w) = lookup w" "next_inode (flush_directory d w) = next_inode w"
  "inodes (flush_directory d w) = inodes w"
  "on_disk (flush_directory d w) p = (if dir_of p = d then [lookup w p] else on_disk w p)"
  "stopped (flush_directory d w) = stopped w" "script (flush_directory d w) = script w"
  "euid (flush_directory d w) = euid w" "egid (flush_directory d w) = egid w" "umask (flush_directory d w) = umask w"
  "pid (flush_directory d w) = pid w" "ticks (flush_directory d w) = ticks w" "foreign_locks (flush_directory d w) = foreign_locks w"
  "now (flush_directory d w) = now w" "own_locks (flush_directory d w) = own_locks w" "clock_reads (flush_directory d w) = clock_reads w"
  "injected (flush_directory d w) = injected w"
  by (simp_all add: flush_directory_def lookup_def fun_eq_iff)

lemma lookup_updates [simp]:
  "lookup (w\<lparr>script := s\<rparr>) = lookup w" "lookup (w\<lparr>stopped := b\<rparr>) = lookup w"
  "lookup (w\<lparr>next_inode := k\<rparr>) = lookup w" "lookup (w\<lparr>own_locks := l\<rparr>) = lookup w"
  "lookup (w\<lparr>clock_reads := c\<rparr>) = lookup w" "lookup (w\<lparr>injected := j\<rparr>) = lookup w"
  by (simp_all add: lookup_def fun_eq_iff)

lemma world_ok_set_name [simp]:
  "world_ok w \<Longrightarrow> (\<And>i. v = Some i \<Longrightarrow> i < next_inode w) \<Longrightarrow> world_ok (set_name p v w)"
  by (auto simp: world_ok_def)

lemma world_ok_set_inode [simp]: "world_ok (set_inode i n w) = world_ok w"
  by (simp add: world_ok_def)

lemma world_ok_flush [simp]: "world_ok w \<Longrightarrow> world_ok (flush_directory d w)"
  by (auto simp: world_ok_def)

lemma world_ok_updates [simp]:
  "world_ok (w\<lparr>script := s\<rparr>) = world_ok w" "world_ok (w\<lparr>stopped := b\<rparr>) = world_ok w" "world_ok (w\<lparr>own_locks := l\<rparr>) = world_ok w"
  "world_ok (w\<lparr>clock_reads := c\<rparr>) = world_ok w" "world_ok (w\<lparr>injected := j\<rparr>) = world_ok w"
  by (simp_all add: world_ok_def)

end
