(* ===== verification/Posix_Specs.thy ===== *)
theory Posix_Specs
  imports Posix
begin

text \<open>
What the system calls of theory Posix guarantee whatever the environment does: \<open>frame\<close> says what
  a computation may touch, \<open>quiet\<close> that it touched no file at all, and each call has a lemma giving
  its effect for every outcome.
\<close>

section \<open>What a computation may touch\<close>

text \<open>
  \<open>frame k S w w'\<close>: between \<open>w\<close> and \<open>w'\<close> only the names in \<open>S\<close> were rebound, the files with a
  number below \<open>k\<close> kept data and attributes, and the identity of the process is the same.
\<close>

definition frame :: "nat \<Rightarrow> path set \<Rightarrow> world \<Rightarrow> world \<Rightarrow> bool" where
  "frame k S w w' \<longleftrightarrow>
     world_ok w' \<and> k \<le> next_inode w \<and> next_inode w \<le> next_inode w' \<and>
     (\<forall>p. p \<notin> S \<longrightarrow> lookup w' p = lookup w p \<and> set (on_disk w' p) \<subseteq> set (on_disk w p)) \<and>
     (\<forall>i<k. inodes w' i = inodes w i) \<and>
     (stopped w \<longrightarrow> stopped w') \<and>
     euid w' = euid w \<and> egid w' = egid w \<and> umask w' = umask w \<and> pid w' = pid w \<and>
     ticks w' = ticks w \<and> foreign_locks w' = foreign_locks w"

named_theorems frame_intros

lemma frame_refl [frame_intros]: "world_ok w \<Longrightarrow> k \<le> next_inode w \<Longrightarrow> frame k S w w"
  by (simp add: frame_def)

lemma frame_trans:
  "frame k S w w' \<Longrightarrow> frame k' S' w' w'' \<Longrightarrow> k \<le> k' \<Longrightarrow> S \<subseteq> T \<Longrightarrow> S' \<subseteq> T \<Longrightarrow> frame k T w w''"
  unfolding frame_def by (auto dest!: subsetD)

lemma frame_weaken: "frame k S w w' \<Longrightarrow> k' \<le> k \<Longrightarrow> S \<subseteq> T \<Longrightarrow> frame k' T w w'"
  unfolding frame_def by auto

lemma frame_wf: "frame k S w w' \<Longrightarrow> world_ok w'"
  by (simp add: frame_def)

lemma frame_env_updates [frame_intros]:
  "frame k S w w' \<Longrightarrow> frame k S w (w'\<lparr>script := s\<rparr>)"
  "frame k S w w' \<Longrightarrow> frame k S w (w'\<lparr>script := s, stopped := True\<rparr>)"
  "frame k S w w' \<Longrightarrow> frame k S w (w'\<lparr>own_locks := l\<rparr>)"
  "frame k S w w' \<Longrightarrow> frame k S w (w'\<lparr>clock_reads := c\<rparr>)"
  "frame k S w w' \<Longrightarrow> frame k S w (w'\<lparr>injected := j\<rparr>)"
  by (auto simp: frame_def world_ok_def)

lemma frame_set_name [frame_intros]:
  "frame k S w w' \<Longrightarrow> p \<in> S \<Longrightarrow> (\<And>i. v = Some i \<Longrightarrow> i < next_inode w') \<Longrightarrow> frame k S w (set_name p v w')"
  by (auto simp: frame_def)

lemma frame_set_inode [frame_intros]: "frame k S w w' \<Longrightarrow> k \<le> i \<Longrightarrow> frame k S w (set_inode i n w')"
  by (simp add: frame_def)

lemma frame_flush [frame_intros]: "frame k S w w' \<Longrightarrow> frame k S w (flush_directory d w')"
proof -
  assume f: "frame k S w w'"
  have "lookup w p \<in> set (on_disk w p)" if "p \<notin> S" for p
  proof -
    have "lookup w' p = lookup w p" "set (on_disk w' p) \<subseteq> set (on_disk w p)"
      using f that by (simp_all add: frame_def)
    moreover have "lookup w' p \<in> set (on_disk w' p)" using frame_wf [OF f] by (simp add: world_ok_def)
    ultimately show ?thesis by auto
  qed
  with f show ?thesis by (auto simp: frame_def)
qed

lemma frame_next [frame_intros]: "frame k S w w' \<Longrightarrow> next_inode w' \<le> n \<Longrightarrow> frame k S w (w'\<lparr>next_inode := n\<rparr>)"
  by (simp add: frame_def world_ok_def) (meson less_le_trans)

lemma frame_create_file:
  assumes "frame k S w w'" "p \<in> S" "create_file p perm w' = (r, v)"
  shows "frame k S w v \<and> (\<forall>i. r = Inr i \<longrightarrow> i = next_inode w' \<and> lookup v p = Some i \<and>
    inodes v i = fresh_inode w' perm \<and> next_inode v = i + 1)"
proof (cases "is_kind_dir w' (dir_of p)")
  case True
  let ?i = "next_inode w'"
  let ?u = "(set_inode ?i (fresh_inode w' perm) w')\<lparr>next_inode := ?i + 1\<rparr>"
  have k: "k \<le> ?i" using assms(1) by (auto simp: frame_def)
  have "v = set_name p (Some ?i) ?u" using True assms(3) by (auto simp: create_file_def Let_def set_name_def)
  moreover have "frame k S w ?u" by (intro frame_intros assms(1) k) simp
  ultimately show ?thesis using True assms(2,3)
    by (auto simp: create_file_def Let_def intro!: frame_set_name)
qed (use assms in \<open>auto simp: create_file_def\<close>)

section \<open>Calls that change no file\<close>

definition quiet :: "world \<Rightarrow> world \<Rightarrow> bool" where
  "quiet w v \<longleftrightarrow>
     lookup v = lookup w \<and> inodes v = inodes w \<and> next_inode v = next_inode w \<and> on_disk v = on_disk w \<and>
     (stopped w \<longrightarrow> stopped v) \<and> euid v = euid w \<and> egid v = egid w \<and> umask v = umask w \<and>
     pid v = pid w \<and> ticks v = ticks w \<and> foreign_locks v = foreign_locks w"

lemma quiet_refl [simp]: "quiet w w"
  by (simp add: quiet_def)

lemma quiet_trans: "quiet w v \<Longrightarrow> quiet v u \<Longrightarrow> quiet w u"
  by (simp add: quiet_def)

lemma quiet_updates [simp]:
  "quiet w (w\<lparr>script := s\<rparr>)" "quiet w (w\<lparr>script := s, stopped := True\<rparr>)"
  "quiet w (w\<lparr>clock_reads := c\<rparr>)" "quiet w (w\<lparr>injected := j\<rparr>)" "quiet w (w\<lparr>own_locks := l\<rparr>)"
  by (simp_all add: quiet_def)

lemma quiet_wf: "quiet w v \<Longrightarrow> world_ok w \<Longrightarrow> world_ok v"
  by (simp add: quiet_def world_ok_def)

lemma frame_quiet: "frame k S w0 w \<Longrightarrow> quiet w v \<Longrightarrow> frame k S w0 v"
  using quiet_wf [of w v] by (auto simp: frame_def quiet_def)

lemma inode_at_quiet: "quiet w v \<Longrightarrow> inode_at v p = inode_at w p"
  by (simp add: quiet_def inode_at_def)

section \<open>Specifications of the system calls\<close>

text \<open>A call fails quietly, or acts, or acts in part, in a quiet successor of its state.\<close>

lemma syscall_cases:
  assumes "syscall act partial w = (r, v)"
  obtains (failed) e where "r = Inl e" "e \<noteq> ENOENT" "e \<noteq> EEXIST" "quiet w v" "e \<noteq> ENOTDIR"
    | (acted) s where "\<not> stopped w" "act (w\<lparr>script := s\<rparr>) = (r, v)" "length s \<le> length (script w)"
    | (partly) n s where "\<not> stopped w" "partial n (w\<lparr>script := s\<rparr>) = (r, v)" "length s < length (script w)"
proof (cases "stopped w")
  case True
  with assms show ?thesis by (intro that(1) [of EIO]) (auto simp: syscall_def)
next
  case False
  show ?thesis
  proof (cases "script w")
    case Nil
    have "w\<lparr>script := []\<rparr> = w" using Nil by (cases w) simp
    then have "act (w\<lparr>script := []\<rparr>) = act w" by (rule arg_cong)
    also have "act w = (r, v)" using False Nil assms(1) by (simp add: syscall_def)
    finally have "act (w\<lparr>script := []\<rparr>) = (r, v)" .
    with False show ?thesis by (intro that(2)) auto
  next
    case (Cons oc s)
    show ?thesis
    proof (cases oc)
      case Ok
      with False Cons assms show ?thesis by (intro that(2) [of s]) (auto simp: syscall_def)
    next
      case (Fail e)
      with False Cons assms show ?thesis
        by (intro that(1) [of "environmental e"]) (auto simp: syscall_def environmental_def)
    next
      case (Short n)
      with False Cons assms show ?thesis by (intro that(3) [of n s]) (auto simp: syscall_def)
    next
      case Crash
      with False Cons assms show ?thesis by (intro that(1) [of EIO]) (auto simp: syscall_def)
    qed
  qed
qed

lemma syscall1_cases:
  assumes "syscall1 act w = (r, v)"
  obtains (failed) e where "r = Inl e" "e \<noteq> ENOENT" "e \<noteq> EEXIST" "quiet w v" "e \<noteq> ENOTDIR"
    | (acted) s where "\<not> stopped w" "act (w\<lparr>script := s\<rparr>) = (r, v)"
  using assms unfolding syscall1_def by (rule syscall_cases) (use that in blast)+

lemma inode_at_script [simp]: "inode_at (w\<lparr>script := s\<rparr>) p = inode_at w p"
  by (simp add: inode_at_def)

lemma sys_lstat_spec:
  "sys_lstat p w = (r, v) \<Longrightarrow> quiet w v \<and>
     (\<forall>st. r = Inr st \<longrightarrow> (\<exists>i. lookup w p = Some i \<and> st = stat_of (inodes w i))) \<and>
     (r = Inl ENOENT \<longrightarrow> lookup w p = None)"
  unfolding sys_lstat_def by (erule syscall1_cases) (auto simp: inode_at_def split: option.splits)

lemma sys_fstat_spec:
  "sys_fstat fd w = (r, v) \<Longrightarrow> quiet w v \<and> (\<forall>st. r = Inr st \<longrightarrow> st = stat_of (inodes w fd))"
  unfolding sys_fstat_def by (erule syscall1_cases) auto

lemma sys_open_read_spec:
  "sys_open_read p w = (r, v) \<Longrightarrow> quiet w v \<and> (\<forall>i. r = Inr i \<longrightarrow> lookup w p = Some i)"
  unfolding sys_open_read_def
  by (erule syscall1_cases) (auto split: option.splits file_kind.splits)

lemma sys_open_directory_spec:
  "sys_open_directory p w = (r, v) \<Longrightarrow> quiet w v \<and> (\<forall>d. r = Inr d \<longrightarrow> d = p)"
  unfolding sys_open_directory_def
  by (erule syscall1_cases) (auto split: option.splits if_splits)

lemma sys_read_spec:
  assumes "sys_read fd off (Suc m) w = (r, v)"
  shows "quiet w v \<and> (\<forall>s. r = Inr s \<longrightarrow> (\<exists>n. s = take (Suc n) (drop off (ino_data (inodes w fd)))))"
  using assms unfolding sys_read_def Let_def
  by (elim syscall_cases) (auto split: if_splits simp: min_def)

lemma sys_create_excl_spec:
  assumes "sys_create_excl p perm w = (r, v)" "frame k S w0 w" "p \<in> S"
  shows "frame k S w0 v \<and> (\<forall>i. r = Inr i \<longrightarrow> lookup w p = None \<and> k \<le> i \<and> next_inode w = i \<and> next_inode v = i + 1 \<and>
      lookup v p = Some i \<and> ino_kind (inodes v i) = Regular \<and> ino_data (inodes v i) = []) \<and>
      (r = Inl EEXIST \<longrightarrow> lookup w p \<noteq> None)"
  using assms(1) unfolding sys_create_excl_def
proof (cases rule: syscall1_cases)
  case (failed e)
  with assms(2) show ?thesis by (auto intro: frame_quiet)
next
  case (acted s)
  have f: "frame k S w0 (w\<lparr>script := s\<rparr>)" using assms(2) by (rule frame_env_updates)
  have k: "k \<le> next_inode w" using assms(2) by (auto simp: frame_def)
  show ?thesis
  proof (cases "lookup w p = None")
    case True
    with acted have "create_file p perm (w\<lparr>script := s\<rparr>) = (r, v)" by simp
    from frame_create_file [OF f assms(3) this] True k this show ?thesis
      by (auto simp: fresh_inode_def create_file_def Let_def split: if_splits)
  next
    case False
    with acted f show ?thesis by auto
  qed
qed

lemma sys_fsync_dir_spec:
  assumes "sys_fsync_dir d w = (r, v)" "frame k S w0 w"
  shows "frame k S w0 v \<and> lookup v = lookup w \<and> inodes v = inodes w \<and> next_inode v = next_inode w \<and>
    (\<forall>p. r = Inr () \<and> dir_of p = d \<longrightarrow> on_disk v p = [lookup w p]) \<and>
    (\<forall>p. on_disk v p = on_disk w p \<or> on_disk v p = [lookup w p])"
  using assms(1) unfolding sys_fsync_dir_def
proof (cases rule: syscall1_cases)
  case (failed e)
  then show ?thesis using frame_quiet [OF assms(2) failed(4)] by (simp add: quiet_def)
next
  case (acted s)
  then show ?thesis using assms(2) by (auto intro: frame_intros)
qed

lemma sys_rename_spec:
  assumes "sys_rename p q w = (r, v)" "frame k S w0 w" "p \<in> S" "q \<in> S" "p \<noteq> q"
  shows "frame k S w0 v \<and> inodes v = inodes w \<and> next_inode v = next_inode w \<and>
    ((\<exists>e. r = Inl e) \<and> lookup v = lookup w \<and> on_disk v = on_disk w \<or>
     r = Inr () \<and> (\<exists>i. lookup w p = Some i \<and> lookup v q = Some i \<and>
        (on_disk v q = Some i # on_disk w q \<or> on_disk v q = on_disk w q \<and> lookup w q = Some i)) \<and>
     (\<forall>x. x \<noteq> p \<and> x \<noteq> q \<longrightarrow> lookup v x = lookup w x \<and> on_disk v x = on_disk w x))"
  using assms(1) unfolding sys_rename_def
proof (cases rule: syscall1_cases)
  case (failed e)
  then show ?thesis using frame_quiet [OF assms(2) failed(4)] by (simp add: quiet_def)
next
  case (acted s)
  have f: "frame k S w0 (w\<lparr>script := s\<rparr>)" using assms(2) by (rule frame_env_updates)
  show ?thesis
  proof (cases "lookup w p")
    case None
    with acted f show ?thesis by auto
  next
    case (Some i)
    have "i < next_inode w" using Some frame_wf [OF assms(2)] by (auto simp: world_ok_def)
    then have "frame k S w0 (set_name q (Some i) (set_name p None (w\<lparr>script := s\<rparr>)))"
      by (intro frame_intros f assms) auto
    with acted f Some assms(5) show ?thesis by (auto split: if_splits)
  qed
qed

lemma sys_unlink_spec:
  assumes "sys_unlink p w = (r, v)" "frame k S w0 w" "p \<in> S"
  shows "frame k S w0 v \<and> inodes v = inodes w \<and> next_inode v = next_inode w \<and>
    (r = Inr () \<and> lookup v p = None \<and> on_disk v p = None # on_disk w p \<or>
     (\<exists>e. r = Inl e) \<and> lookup v p = lookup w p \<and> on_disk v p = on_disk w p) \<and>
    (\<forall>x. x \<noteq> p \<longrightarrow> lookup v x = lookup w x \<and> on_disk v x = on_disk w x)"
  using assms(1) unfolding sys_unlink_def
proof (cases rule: syscall1_cases)
  case (failed e)
  then show ?thesis using frame_quiet [OF assms(2) failed(4)] by (simp add: quiet_def)
next
  case (acted s)
  have f: "frame k S w0 (w\<lparr>script := s\<rparr>)" using assms(2) by (rule frame_env_updates)
  then have "frame k S w0 (set_name p None (w\<lparr>script := s\<rparr>))" using assms(3) by (rule frame_set_name) simp
  with acted f show ?thesis by (auto split: option.splits if_splits)
qed

end
