(* ===== verification/Secure_File_Ops.thy ===== *)
theory Secure_File_Ops
  imports Posix_Specs
begin

text \<open>
src/infrastructure/secure_file_ops.cpp: whole-file reads and writes over interrupted and partial
  system calls, copies, atomic replacement and removal of files. A failing call becomes an exception
  with the message \<open>throw_errno\<close> builds. The test hooks (\<open>fail_if_injected\<close>) are part of the model.
\<close>

section \<open>Errors\<close>

definition errno_error :: "string \<Rightarrow> path \<Rightarrow> errno \<Rightarrow> exn" where
  "errno_error operation p e =
     Runtime_error (operation @ '' '' @ [SQUOTE] @ p @ [SQUOTE] @ '': '' @ strerror e)"

text \<open>\<open>if (call < 0) throw_errno(...)\<close>\<close>

definition or_throw :: "'a sys \<Rightarrow> (errno \<Rightarrow> exn) \<Rightarrow> (world, 'a) io" where
  "or_throw m f = (\<lambda>w. case m w of (Inl e, v) \<Rightarrow> (Inl (f e), v) | (Inr x, v) \<Rightarrow> (Inr x, v))"

text \<open>A call whose failure the code looks at or ignores.\<close>

definition try_sys :: "'a sys \<Rightarrow> (world, errno + 'a) io" where
  "try_sys m = (\<lambda>w. case m w of (r, v) \<Rightarrow> (Inr r, v))"

definition ignore_sys :: "'a sys \<Rightarrow> (world, unit) io" where
  "ignore_sys m = (\<lambda>w. (Inr (), snd (m w)))"

definition fail_if_injected :: "failure_point \<Rightarrow> (world, unit) io" where
  "fail_if_injected point = (\<lambda>w.
     if injected w = Some point then
       (Inl (Runtime_error ''injected secure file failure''), w\<lparr>injected := None\<rparr>)
     else (Inr (), w))"

section \<open>Whole-file transfers\<close>

lemma sys_write_progress:
  "sys_write fd bytes w = (Inr n, v) \<Longrightarrow> bytes \<noteq> [] \<Longrightarrow>
     length (script v) < length (script w) \<or> length (script v) = length (script w) \<and> n = length bytes"
  by (auto simp: sys_write_def syscall_def Let_def split: if_splits list.splits outcome.splits)

lemma sys_write_retry:
  "sys_write fd bytes w = (Inl EINTR, v) \<Longrightarrow> length (script v) < length (script w)"
  by (auto simp: sys_write_def syscall_def Let_def split: if_splits list.splits outcome.splits)

function write_all :: "nat \<Rightarrow> string \<Rightarrow> path \<Rightarrow> (world, unit) io" where
  "write_all fd bytes p w =
     (if bytes = [] then (Inr (), w)
      else case sys_write fd bytes w of
        (Inl e, v) \<Rightarrow>
          if e = EINTR then write_all fd bytes p v else (Inl (errno_error ''cannot write'' p e), v)
      | (Inr n, v) \<Rightarrow> write_all fd (drop n bytes) p v)"
  by pat_completeness auto
termination
  by (relation "measure (\<lambda>(fd, bytes, p, w). length (script w) + length bytes)")
     (auto dest!: sys_write_retry [OF sym] sys_write_progress [OF sym])

declare write_all.simps [simp del]
lemma sys_read_progress:
  "sys_read fd off (Suc n) w = (Inr s, v) \<Longrightarrow> s \<noteq> [] \<Longrightarrow>
     length (script v) < length (script w) \<or>
     length (script v) = length (script w) \<and> inodes v = inodes w \<and> off < length (ino_data (inodes w fd))"
  by (auto simp: sys_read_def syscall_def Let_def split: if_splits list.splits outcome.splits)

lemma sys_read_retry:
  "sys_read fd off n w = (Inl EINTR, v) \<Longrightarrow> length (script v) < length (script w)"
  by (auto simp: sys_read_def syscall_def Let_def split: if_splits list.splits outcome.splits)

lemma sys_read_inodes: "sys_read fd off n w = (r, v) \<Longrightarrow> inodes v = inodes w"
  by (auto simp: sys_read_def syscall_def Let_def split: if_splits list.splits outcome.splits)

lemma sys_read_retried:
  "sys_read fd off n w = (Inl EINTR, v) \<Longrightarrow> length (script v) < length (script w) \<and> inodes v = inodes w"
  using sys_read_retry sys_read_inodes by blast

lemma sys_read_advanced:
  assumes "sys_read fd (length result) 8192 w = (Inr s, v)"
  shows "s = [] \<or>
    length (script v) + (length (ino_data (inodes v fd)) - (length result + length s)) <
    length (script w) + (length (ino_data (inodes w fd)) - length result)"
proof -
  have "sys_read fd (length result) (Suc 8191) w = (Inr s, v)" using assms by simp
  from sys_read_progress [OF this] sys_read_inodes [OF this] show ?thesis by (cases s) auto
qed

function read_loop :: "nat \<Rightarrow> path \<Rightarrow> string \<Rightarrow> (world, string) io" where
  "read_loop fd p result w =
     (case sys_read fd (length result) 8192 w of
        (Inl e, v) \<Rightarrow>
          if e = EINTR then read_loop fd p result v else (Inl (errno_error ''cannot read'' p e), v)
      | (Inr bytes, v) \<Rightarrow>
          if bytes = [] then (Inr result, v) else read_loop fd p (result @ bytes) v)"
  by pat_completeness auto
termination
  by (relation "measure (\<lambda>(fd, p, result, w).
        length (script w) + (length (ino_data (inodes w fd)) - length result))")
     (auto dest!: sys_read_retried [OF sym] sys_read_advanced [OF sym])

declare read_loop.simps [simp del]

definition read_all :: "nat \<Rightarrow> path \<Rightarrow> (world, string) io" where
  "read_all fd p = read_loop fd p []"

section \<open>The operations of secure_file_ops.cpp\<close>

text \<open>\<open>try { body } catch (...) { ::unlink(p); throw; }\<close>\<close>

definition unlinking_on_error :: "path \<Rightarrow> (world, 'a) io \<Rightarrow> (world, 'a) io" where
  "unlinking_on_error p body =
     catch_io body (\<lambda>e. bind_io (ignore_sys (sys_unlink p)) (\<lambda>_. throw e))"

definition sibling :: "path \<Rightarrow> string \<Rightarrow> nat \<Rightarrow> nat \<Rightarrow> path" where
  "sibling target sfx process t =
     path_append (parent_path target) (filename target @ sfx @ ''.'' @ dec process @ ''.'' @ dec t)"

definition unique_sibling_path :: "path \<Rightarrow> string \<Rightarrow> (world, path) io" where
  "unique_sibling_path target sfx = (\<lambda>w.
     case read_clock w of (t, v) \<Rightarrow> (Inr (sibling target sfx (pid w) t), v))"

definition fsync_directory :: "path \<Rightarrow> (world, unit) io" where
  "fsync_directory d =
     (let p = (if d = [] then ''.'' else d) in
      bind_io (or_throw (sys_open_directory p) (errno_error ''cannot open directory'' p)) (\<lambda>fd.
      bind_io (fail_if_injected Before_directory_fsync) (\<lambda>_.
      or_throw (sys_fsync_dir fd) (errno_error ''cannot fsync directory'' p))))"

text \<open>The body of the \<open>try\<close> block: fill the new file and give it the metadata.\<close>

definition fill_copy :: "nat \<Rightarrow> nat \<Rightarrow> path \<Rightarrow> path \<Rightarrow> stat \<Rightarrow> (world, unit) io" where
  "fill_copy input fd source destination metadata =
     bind_io (fail_if_injected After_temporary_create) (\<lambda>_.
     bind_io (read_all input source) (\<lambda>content.
     bind_io (write_all fd content destination) (\<lambda>_.
     bind_io (or_throw (sys_fchmod fd (st_perm metadata)) (errno_error ''cannot preserve mode'' destination)) (\<lambda>_.
     bind_io (or_throw (sys_fchown fd (st_uid metadata) (st_gid metadata))
                (errno_error ''cannot preserve ownership'' destination)) (\<lambda>_.
     bind_io (fail_if_injected Before_file_fsync) (\<lambda>_.
     or_throw (sys_fsync fd) (errno_error ''cannot fsync'' destination)))))))"

definition copy_file_secure :: "path \<Rightarrow> path \<Rightarrow> stat \<Rightarrow> string \<Rightarrow> string \<Rightarrow> (world, unit) io" where
  "copy_file_secure source destination metadata source_description destination_description =
     bind_io (or_throw (sys_open_read source) (errno_error (''cannot open '' @ source_description) source)) (\<lambda>input.
     bind_io (or_throw (sys_create_excl destination (st_perm metadata))
                (errno_error (''cannot create '' @ destination_description) destination)) (\<lambda>fd.
     unlinking_on_error destination (fill_copy input fd source destination metadata)))"

text \<open>\<open>S_ISLNK(m) || !S_ISREG(m)\<close>\<close>

definition unsafe_kind :: "stat \<Rightarrow> bool" where
  "unsafe_kind st \<longleftrightarrow> st_kind st \<noteq> Regular"

definition atomic_replace :: "path \<Rightarrow> path \<Rightarrow> stat \<Rightarrow> string \<Rightarrow> string \<Rightarrow> (world, unit) io" where
  "atomic_replace backup target backup_metadata backup_description temporary_suffix =
     bind_io (unique_sibling_path target temporary_suffix) (\<lambda>temporary.
     unlinking_on_error temporary (
       bind_io (copy_file_secure backup temporary backup_metadata backup_description ''rollback file'') (\<lambda>_.
       bind_io (fail_if_injected Before_rename) (\<lambda>_.
       bind_io (or_throw (sys_rename temporary target) (errno_error ''cannot atomically restore'' target)) (\<lambda>_.
       bind_io (fail_if_injected After_rename) (\<lambda>_.
       fsync_directory (parent_path target)))))))"

definition atomic_restore_file :: "path \<Rightarrow> path \<Rightarrow> string \<Rightarrow> string \<Rightarrow> string \<Rightarrow> (world, unit) io" where
  "atomic_restore_file backup target backup_description target_description temporary_suffix =
     bind_io (or_throw (sys_lstat backup) (errno_error (''cannot inspect '' @ backup_description) backup)) (\<lambda>backup_metadata.
     if unsafe_kind backup_metadata then
       throw (Runtime_error (''unsafe '' @ backup_description @ '': '' @ backup))
     else
     bind_io (try_sys (sys_lstat target)) (\<lambda>target_state.
     case target_state of
       Inl e \<Rightarrow> if e \<noteq> ENOENT then throw (errno_error (''cannot inspect '' @ target_description) target e)
                else atomic_replace backup target backup_metadata backup_description temporary_suffix
     | Inr target_metadata \<Rightarrow>
         if unsafe_kind target_metadata then
           throw (Runtime_error (''unsafe '' @ target_description @ '': '' @ target))
         else atomic_replace backup target backup_metadata backup_description temporary_suffix))"

definition remove_regular_file_secure :: "path \<Rightarrow> string \<Rightarrow> (world, unit) io" where
  "remove_regular_file_secure target what_it_is =
     bind_io (try_sys (sys_lstat target)) (\<lambda>state.
     case state of
       Inl e \<Rightarrow> if e = ENOENT then ret () else throw (errno_error (''cannot inspect '' @ what_it_is) target e)
     | Inr metadata \<Rightarrow>
         if unsafe_kind metadata then throw (Runtime_error (''unsafe '' @ what_it_is @ '': '' @ target))
         else
           bind_io (fail_if_injected Before_unlink) (\<lambda>_.
           bind_io (or_throw (sys_unlink target) (errno_error (''cannot remove '' @ what_it_is) target)) (\<lambda>_.
           fsync_directory (parent_path target))))"

end
