(* ===== verification/Secure_File_Specs.thy ===== *)
theory Secure_File_Specs
  imports Secure_File_Ops
begin

text \<open>
What the file operations of theory Secure_File_Ops achieve under every schedule of failures,
  interruptions, partial transfers and a power failure at any call.
\<close>

section \<open>From calls to computations\<close>

lemma hoare_or_throw:
  assumes "\<And>w r v. P w \<Longrightarrow> m w = (r, v) \<Longrightarrow> (case r of Inl e \<Rightarrow> E (f e) v | Inr x \<Rightarrow> Q x v)"
  shows "hoare P (or_throw m f) Q E"
  using assms by (fastforce simp: hoare_def or_throw_def split: prod.splits sum.splits)

lemma hoare_from_spec:
  assumes "\<And>w r v. P w \<Longrightarrow> m w = (r, v) \<Longrightarrow> (\<forall>e. r = Inl e \<longrightarrow> E e v) \<and> (\<forall>x. r = Inr x \<longrightarrow> Q x v)"
  shows "hoare P m Q E"
  unfolding hoare_def
proof (intro allI impI)
  fix w
  assume P: "P w"
  obtain r v where rv: "m w = (r, v)" by force
  from assms [OF P rv] show "case m w of (Inl e, v) \<Rightarrow> E e v | (Inr x, v) \<Rightarrow> Q x v"
    by (cases r) (auto simp: rv)
qed

lemma hoare_spec:
  assumes "hoare P m Q E" "P w" "m w = (r, v)"
  shows "(\<forall>e. r = Inl e \<longrightarrow> E e v) \<and> (\<forall>x. r = Inr x \<longrightarrow> Q x v)"
  using hoareD_ok [OF assms(1,2)] hoareD_exn [OF assms(1,2)] assms(3) by auto

lemma fail_if_injected_spec: "fail_if_injected point w = (r, v) \<Longrightarrow> quiet w v"
  by (auto simp: fail_if_injected_def split: if_splits)

lemma read_loop_spec:
  "read_loop fd p acc w = (r, v) \<Longrightarrow> acc = take (length acc) (ino_data (inodes w fd)) \<Longrightarrow>
     quiet w v \<and> (\<forall>s. r = Inr s \<longrightarrow> s = ino_data (inodes w fd))"
proof (induction fd p acc w arbitrary: r v rule: read_loop.induct)
  case (1 fd p acc w)
  obtain r1 u where ru: "sys_read fd (length acc) 8192 w = (r1, u)" by force
  have sp: "quiet w u \<and> (\<forall>s. r1 = Inr s \<longrightarrow> (\<exists>n. s = take (Suc n) (drop (length acc) (ino_data (inodes w fd)))))"
    using sys_read_spec [of fd "length acc" 8191 w r1 u] ru by simp
  have iu: "inodes u = inodes w" using sp by (simp add: quiet_def)
  show ?case
  proof (cases r1)
    case (Inl e)
    show ?thesis
    proof (cases "e = EINTR")
      case True
      with "1.prems"(1) ru Inl have "read_loop fd p acc u = (r, v)"
        by (simp add: read_loop.simps [of fd p acc w])
      with "1.IH"(1) [OF ru [symmetric] Inl True] "1.prems"(2) iu sp show ?thesis
        by (auto intro: quiet_trans)
    next
      case False
      with "1.prems"(1) ru Inl sp show ?thesis
        by (auto simp: read_loop.simps [of fd p acc w])
    qed
  next
    case (Inr s)
    then obtain n where s: "s = take (Suc n) (drop (length acc) (ino_data (inodes w fd)))" using sp by blast
    show ?thesis
    proof (cases "s = []")
      case True
      then have "length (ino_data (inodes w fd)) \<le> length acc" using s by simp
      then have a: "acc = ino_data (inodes w fd)" using "1.prems"(2) by simp
      have "read_loop fd p acc w = (Inr acc, u)" using True ru Inr
        by (simp add: read_loop.simps [of fd p acc w])
      with "1.prems"(1) sp a show ?thesis by auto
    next
      case False
      have rl: "read_loop fd p (acc @ s) u = (r, v)" using False "1.prems"(1) ru Inr
        by (simp add: read_loop.simps [of fd p acc w])
      have "acc @ s = take (length (acc @ s)) (ino_data (inodes u fd))"
      proof -
        let ?d = "ino_data (inodes w fd)"
        have "acc @ s = take (length acc) ?d @ take (Suc n) (drop (length acc) ?d)"
          using "1.prems"(2) s by simp
        also have "\<dots> = take (length acc + Suc n) ?d" by (rule take_add [symmetric])
        finally have e: "acc @ s = take (length acc + Suc n) ?d" .
        then have "length (acc @ s) = min (length acc + Suc n) (length ?d)" by (metis length_take min.commute)
        with e show ?thesis using iu by (metis min.cobounded2 nat_le_linear take_all min_def)
      qed
      with "1.IH"(2) [OF ru [symmetric] Inr False rl] sp iu show ?thesis
        by (auto intro: quiet_trans)
    qed
  qed
qed

lemma read_all_spec:
  "read_all fd p w = (r, v) \<Longrightarrow> quiet w v \<and> (\<forall>s. r = Inr s \<longrightarrow> s = ino_data (inodes w fd))"
  using read_loop_spec [of fd p "[]" w r v] by (simp add: read_all_def)

lemma fsync_directory_spec:
  assumes "fsync_directory d w = (r, v)" "frame k S w0 w"
  shows "frame k S w0 v \<and> lookup v = lookup w \<and> inodes v = inodes w \<and> next_inode v = next_inode w \<and>
    (\<forall>p. r = Inr () \<and> dir_of p = (if d = [] then ''.'' else d) \<longrightarrow> on_disk v p = [lookup w p]) \<and>
    (\<forall>p. on_disk v p = on_disk w p \<or> on_disk v p = [lookup w p])"
proof -
  let ?p = "if d = [] then ''.'' else d"
  obtain r1 u1 where 1: "sys_open_directory ?p w = (r1, u1)" by force
  have s1: "quiet w u1" "\<And>x. r1 = Inr x \<Longrightarrow> x = ?p" using sys_open_directory_spec [OF 1] by auto
  obtain r2 u2 where 2: "fail_if_injected Before_directory_fsync u1 = (r2, u2)" by force
  have q: "quiet w u2" using fail_if_injected_spec [OF 2] s1(1) by (rule quiet_trans [rotated])
  obtain r3 u3 where 3: "sys_fsync_dir ?p u2 = (r3, u3)" by force
  note f2 = frame_quiet [OF assms(2) q]
  have q': "lookup u2 = lookup w \<and> inodes u2 = inodes w \<and> next_inode u2 = next_inode w \<and> on_disk u2 = on_disk w"
    using q by (simp add: quiet_def)
  have q1: "lookup u1 = lookup w \<and> inodes u1 = inodes w \<and> next_inode u1 = next_inode w \<and> on_disk u1 = on_disk w"
    using s1 by (simp add: quiet_def)
  show ?thesis
  proof (cases r1)
    case (Inl e)
    with assms(1) 1 frame_quiet [OF assms(2) s1(1)] q1 show ?thesis
      by (auto simp: fsync_directory_def Let_def bind_io_def or_throw_def)
  next
    case (Inr x)
    show ?thesis
    proof (cases r2)
      case i2: (Inl e)
      with assms(1) 1 2 Inr f2 q' show ?thesis
        by (auto simp: fsync_directory_def Let_def bind_io_def or_throw_def)
    next
      case i2: (Inr y)
      have "v = u3 \<and> (r = Inr () \<longleftrightarrow> r3 = Inr ())" using assms(1) 1 2 3 Inr i2 s1(2) [OF Inr]
        by (cases r3) (auto simp: fsync_directory_def Let_def bind_io_def or_throw_def)
      with sys_fsync_dir_spec [OF 3 f2] q' show ?thesis by auto
    qed
  qed
qed

section \<open>Building a new file\<close>

text \<open>\<open>building k S w0 dst fd P\<close>: since \<open>w0\<close> only names in \<open>S\<close> changed, the name \<open>dst\<close> is the new
  file \<open>fd\<close>, and that file satisfies \<open>P\<close>.\<close>

definition building :: "nat \<Rightarrow> path set \<Rightarrow> world \<Rightarrow> path \<Rightarrow> nat \<Rightarrow> (inode \<Rightarrow> bool) \<Rightarrow> world \<Rightarrow> bool" where
  "building k S w0 dst fd P w \<longleftrightarrow>
     frame k S w0 w \<and> k \<le> fd \<and> fd < next_inode w \<and> lookup w dst = Some fd \<and> P (inodes w fd)"

lemma building_frame: "building k S w0 dst fd P w \<Longrightarrow> frame k S w0 w"
  by (simp add: building_def)

lemma building_quiet: "building k S w0 dst fd P w \<Longrightarrow> quiet w v \<Longrightarrow> building k S w0 dst fd P v"
  using frame_quiet by (auto simp: building_def quiet_def)

lemma building_set_inode:
  "building k S w0 dst fd P w \<Longrightarrow> Q n \<Longrightarrow> building k S w0 dst fd Q (set_inode fd n w)"
  by (auto simp: building_def intro: frame_set_inode)

lemma hoare_quiet:
  assumes "\<And>w r v. m w = (r, v) \<Longrightarrow> quiet w v \<and> (\<forall>x. r = Inr x \<longrightarrow> R w x)"
    and "\<And>w v x. building k S w0 dst fd P w \<Longrightarrow> R w x \<Longrightarrow> quiet w v \<Longrightarrow> C x"
  shows "hoare (building k S w0 dst fd P) m (\<lambda>x w. building k S w0 dst fd P w \<and> C x) (\<lambda>_. frame k S w0)"
  by (rule hoare_from_spec) (metis assms building_quiet building_frame)

lemma hoare_inject:
  "hoare (building k S w0 dst fd P) (fail_if_injected point) (\<lambda>_. building k S w0 dst fd P) (\<lambda>_. frame k S w0)"
  by (rule hoare_from_spec) (metis fail_if_injected_spec building_quiet building_frame)

lemma hoare_fd_call:
  assumes "\<And>n. P n \<Longrightarrow> Q (upd n)"
  shows "hoare (building k S w0 dst fd P)
     (or_throw (syscall1 (\<lambda>w. (Inr (), set_inode fd (upd (inodes w fd)) w))) f)
     (\<lambda>_. building k S w0 dst fd Q) (\<lambda>_. frame k S w0)"
proof (rule hoare_or_throw)
  fix w r v
  assume b: "building k S w0 dst fd P w"
    and m: "syscall1 (\<lambda>w. (Inr (), set_inode fd (upd (inodes w fd)) w)) w = (r, v)"
  from m show "case r of Inl e \<Rightarrow> frame k S w0 v | Inr x \<Rightarrow> building k S w0 dst fd Q v"
  proof (cases rule: syscall1_cases)
    case (failed e)
    with b show ?thesis by (auto dest: building_frame intro: frame_quiet)
  next
    case (acted s)
    have "building k S w0 dst fd P (w\<lparr>script := s\<rparr>)" using b by (rule building_quiet) simp
    moreover have "Q (upd (inodes w fd))" using b assms by (simp add: building_def)
    ultimately show ?thesis using acted by (auto intro: building_set_inode)
  qed
qed

lemma hoare_fchmod:
  "(\<And>n. P n \<Longrightarrow> Q (n\<lparr>ino_perm := p\<rparr>)) \<Longrightarrow>
   hoare (building k S w0 dst fd P) (or_throw (sys_fchmod fd p) f) (\<lambda>_. building k S w0 dst fd Q) (\<lambda>_. frame k S w0)"
  unfolding sys_fchmod_def by (rule hoare_fd_call)

lemma hoare_fchown:
  "(\<And>n. P n \<Longrightarrow> Q (n\<lparr>ino_uid := u, ino_gid := g, ino_perm := chown_perm (ino_perm n)\<rparr>)) \<Longrightarrow>
   hoare (building k S w0 dst fd P) (or_throw (sys_fchown fd u g) f) (\<lambda>_. building k S w0 dst fd Q) (\<lambda>_. frame k S w0)"
  unfolding sys_fchown_def Let_def by (rule hoare_fd_call)

lemma hoare_fsync:
  "(\<And>n. P n \<Longrightarrow> Q (n\<lparr>ino_synced := True\<rparr>)) \<Longrightarrow>
   hoare (building k S w0 dst fd P) (or_throw (sys_fsync fd) f) (\<lambda>_. building k S w0 dst fd Q) (\<lambda>_. frame k S w0)"
  unfolding sys_fsync_def by (rule hoare_fd_call)

definition holds :: "string \<Rightarrow> inode \<Rightarrow> bool" where
  "holds d n \<longleftrightarrow> ino_kind n = Regular \<and> ino_data n = d"

lemma sys_write_spec:
  assumes "sys_write fd bytes w = (r, v)" "building k S w0 dst fd (holds d) w"
  shows "(\<forall>e. r = Inl e \<longrightarrow> building k S w0 dst fd (holds d) v) \<and>
    (\<forall>n. r = Inr n \<longrightarrow> building k S w0 dst fd (holds (d @ take n bytes)) v)"
proof -
  have act: "building k S w0 dst fd (holds (d @ take (length (take n bytes)) bytes)) v"
    if "(Inr (length (take n bytes)), set_inode fd ((inodes u fd)\<lparr>ino_data := ino_data (inodes u fd) @ take n bytes,
          ino_synced := False, ino_mtime := now u\<rparr>) u) = (r, v)" "u = w\<lparr>script := s\<rparr>" for n s u
  proof -
    have "building k S w0 dst fd (holds d) u" unfolding that(2) using assms(2) by (rule building_quiet) simp
    moreover from this have "holds d (inodes u fd)" by (simp add: building_def)
    moreover have "take (length (take n bytes)) bytes = take n bytes" by (simp add: min_def)
    ultimately show ?thesis using that(1)
      by (auto intro!: building_set_inode simp: holds_def)
  qed
  from assms(1) show ?thesis unfolding sys_write_def Let_def
  proof (cases rule: syscall_cases)
    case (failed e)
    then show ?thesis using building_quiet [OF assms(2)] by auto
  next
    case (acted s)
    then show ?thesis using act [of "length bytes" "w\<lparr>script := s\<rparr>" s] by auto
  next
    case (partly n s)
    then show ?thesis using act [of n "w\<lparr>script := s\<rparr>" s] by auto
  qed
qed

lemma write_all_spec:
  "write_all fd bytes p w = (r, v) \<Longrightarrow> building k S w0 dst fd (holds d) w \<Longrightarrow>
     frame k S w0 v \<and> (\<forall>x. r = Inr x \<longrightarrow> building k S w0 dst fd (holds (d @ bytes)) v)"
proof (induction fd bytes p w arbitrary: r v d rule: write_all.induct)
  case (1 fd bytes p w)
  show ?case
  proof (cases "bytes = []")
    case True
    then have "write_all fd bytes p w = (Inr (), w)" by (subst write_all.simps) simp
    with 1 True show ?thesis by (auto dest: building_frame)
  next
    case False
    obtain r1 u where ru: "sys_write fd bytes w = (r1, u)" by force
    note sp = sys_write_spec [OF ru "1.prems"(2)]
    show ?thesis
    proof (cases r1)
      case (Inl e)
      show ?thesis
      proof (cases "e = EINTR")
        case True
        with "1.prems"(1) ru Inl False have "write_all fd bytes p u = (r, v)"
          by (simp add: write_all.simps [of fd bytes p w])
        with "1.IH"(1) [OF False ru [symmetric] Inl True] sp Inl show ?thesis by blast
      next
        case ne: False
        with "1.prems"(1) ru Inl sp False show ?thesis
          by (auto simp: write_all.simps [of fd bytes p w] dest: building_frame)
      qed
    next
      case (Inr n)
      have wl: "write_all fd (drop n bytes) p u = (r, v)" using "1.prems"(1) ru Inr False
        by (simp add: write_all.simps [of fd bytes p w])
      have "building k S w0 dst fd (holds (d @ take n bytes)) u" using sp Inr by blast
      from "1.IH"(2) [OF False ru [symmetric] Inr wl this] show ?thesis by simp
    qed
  qed
qed

lemma hoare_write_all:
  "hoare (building k S w0 dst fd (holds d)) (write_all fd bytes p)
     (\<lambda>_. building k S w0 dst fd (holds (d @ bytes))) (\<lambda>_. frame k S w0)"
  by (rule hoare_from_spec) (use write_all_spec in blast)

text \<open>What a finished copy looks like.\<close>

definition copied :: "string \<Rightarrow> stat \<Rightarrow> inode \<Rightarrow> bool" where
  "copied d st n \<longleftrightarrow> holds d n \<and> ino_synced n \<and> ino_perm n = chown_perm (st_perm st) \<and>
     ino_uid n = st_uid st \<and> ino_gid n = st_gid st"

lemma hoare_read_all:
  assumes "i < k"
  shows "hoare (building k S w0 dst fd P) (read_all i p)
    (\<lambda>s w. building k S w0 dst fd P w \<and> s = ino_data (inodes w0 i)) (\<lambda>_. frame k S w0)"
proof (rule hoare_quiet [where R = "\<lambda>w s. s = ino_data (inodes w i)"])
  show "quiet w v \<and> (\<forall>x. r = Inr x \<longrightarrow> x = ino_data (inodes w i))" if "read_all i p w = (r, v)" for w r v
    using read_all_spec [OF that] by simp
  show "x = ino_data (inodes w0 i)" if "building k S w0 dst fd P w" "x = ino_data (inodes w i)" for w x
    using that assms by (simp add: building_def frame_def)
qed

lemma hoare_conj_const:
  "(C \<Longrightarrow> hoare P m Q E) \<Longrightarrow> hoare (\<lambda>w. P w \<and> C) m Q E"
  by (auto simp: hoare_def)

lemma fill_copy_spec:
  assumes "i < k"
  shows "hoare (building k S w0 dst fd (holds [])) (fill_copy i fd src dst st)
    (\<lambda>_. building k S w0 dst fd (copied (ino_data (inodes w0 i)) st)) (\<lambda>_. frame k S w0)"
  unfolding fill_copy_def
proof (rule hoare_bind [OF hoare_inject], rule hoare_bind [OF hoare_read_all [OF assms]],
    rule hoare_conj_const)
  fix content
  assume c: "content = ino_data (inodes w0 i)"
  let ?b = "\<lambda>P. building k S w0 dst fd P"
  show "hoare (?b (holds []))
     (bind_io (write_all fd content dst) (\<lambda>_.
      bind_io (or_throw (sys_fchmod fd (st_perm st)) (errno_error ''cannot preserve mode'' dst)) (\<lambda>_.
      bind_io (or_throw (sys_fchown fd (st_uid st) (st_gid st)) (errno_error ''cannot preserve ownership'' dst)) (\<lambda>_.
      bind_io (fail_if_injected Before_file_fsync) (\<lambda>_.
      or_throw (sys_fsync fd) (errno_error ''cannot fsync'' dst))))))
     (\<lambda>_. ?b (copied (ino_data (inodes w0 i)) st)) (\<lambda>_. frame k S w0)"
    unfolding c
    by (rule hoare_bind [OF hoare_write_all], unfold append_Nil,
        rule hoare_bind [OF hoare_fchmod [where Q = "\<lambda>n. holds (ino_data (inodes w0 i)) n \<and> ino_perm n = st_perm st"]],
        simp add: holds_def,
        rule hoare_bind [OF hoare_fchown [where Q = "\<lambda>n. holds (ino_data (inodes w0 i)) n \<and>
           ino_perm n = chown_perm (st_perm st) \<and> ino_uid n = st_uid st \<and> ino_gid n = st_gid st"]],
        simp add: holds_def, rule hoare_bind [OF hoare_inject], rule hoare_fsync, simp add: copied_def holds_def)
qed

lemma unlinking_on_error_cases:
  assumes "unlinking_on_error p body w = (r, v)"
  obtains x where "body w = (Inr x, v)" "r = Inr x"
    | e u where "body w = (Inl e, u)" "r = Inl e" "v = snd (sys_unlink p u)"
proof -
  obtain r1 u where b: "body w = (r1, u)" by force
  show ?thesis
  proof (cases r1)
    case (Inl e)
    then have "unlinking_on_error p body w = (Inl e, snd (sys_unlink p u))"
      by (simp add: b unlinking_on_error_def catch_io_def bind_io_def ignore_sys_def throw_def)
    then have "r = Inl e" "v = snd (sys_unlink p u)" unfolding assms by simp_all
    with b Inl show ?thesis by (intro that(2)) simp_all
  next
    case (Inr x)
    then have "unlinking_on_error p body w = (Inr x, u)"
      by (simp add: b unlinking_on_error_def catch_io_def)
    then have "r = Inr x" "v = u" unfolding assms by simp_all
    with b Inr show ?thesis by (intro that(1)) simp_all
  qed
qed

lemma unlink_frame: "frame k S w0 w \<Longrightarrow> p \<in> S \<Longrightarrow> frame k S w0 (snd (sys_unlink p w))"
  using sys_unlink_spec [of p w "fst (sys_unlink p w)" "snd (sys_unlink p w)"] by simp

text \<open>
  A copy changes nothing but the name of the destination; when it succeeds the destination is a new
  file with the data of the source, flushed to disk, and the owner and permissions asked for.
\<close>

lemma copy_file_secure_spec:
  assumes "copy_file_secure src dst st sd dd w = (r, v)" "world_ok w"
  shows "frame (next_inode w) {dst} w v \<and>
    (\<forall>x. r = Inr x \<longrightarrow> (\<exists>i j. lookup w src = Some i \<and> lookup w dst = None \<and> lookup v dst = Some j \<and>
       next_inode w \<le> j \<and> j < next_inode v \<and> copied (ino_data (inodes w i)) st (inodes v j)))"
proof -
  let ?k = "next_inode w"
  have f0: "frame ?k {dst} w w" using assms(2) by (intro frame_refl) simp_all
  obtain r1 u1 where 1: "sys_open_read src w = (r1, u1)" by force
  note s1 = sys_open_read_spec [OF 1]
  note f1 = frame_quiet [OF f0 conjunct1 [OF s1]]
  show ?thesis
  proof (cases r1)
    case (Inl e)
    then have "v = u1" "\<exists>e. r = Inl e"
      using assms(1) 1 by (simp_all add: copy_file_secure_def bind_io_def or_throw_def) blast
    with f1 show ?thesis by blast
  next
    case (Inr i)
    then have i: "lookup w src = Some i" using s1 by simp
    then have ik: "i < ?k" using assms(2) by (auto simp: world_ok_def)
    obtain r2 u2 where 2: "sys_create_excl dst (st_perm st) u1 = (r2, u2)" by force
    note s2 = sys_create_excl_spec [OF 2 f1 singletonI]
    show ?thesis
    proof (cases r2)
      case e: (Inl e)
      then have "v = u2" "\<exists>e. r = Inl e"
        using assms(1) 1 2 Inr by (simp_all add: copy_file_secure_def bind_io_def or_throw_def) blast
      with s2 show ?thesis by blast
    next
      case fd: (Inr fd)
      have u1: "lookup u1 = lookup w" using s1 by (simp add: quiet_def)
      have c: "lookup u1 dst = None" "?k \<le> fd" "next_inode u2 = fd + 1" "lookup u2 dst = Some fd"
          "ino_kind (inodes u2 fd) = Regular" "ino_data (inodes u2 fd) = []" "frame ?k {dst} w u2"
        using s2 fd by simp_all
      then have b: "building ?k {dst} w dst fd (holds []) u2"
        by (simp add: building_def holds_def)
      have un: "unlinking_on_error dst (fill_copy i fd src dst st) u2 = (r, v)"
        using assms(1) 1 2 Inr fd by (simp add: copy_file_secure_def bind_io_def or_throw_def)
      then show ?thesis
      proof (cases rule: unlinking_on_error_cases)
        case (1 x)
        have "building ?k {dst} w dst fd (copied (ino_data (inodes w i)) st) v"
          using hoareD_ok [OF fill_copy_spec [OF ik], OF b 1(1)] .
        then have "frame ?k {dst} w v" "lookup v dst = Some fd" "fd < next_inode v"
          "copied (ino_data (inodes w i)) st (inodes v fd)" by (simp_all add: building_def)
        moreover have "lookup w dst = None" using c(1) u1 by simp
        ultimately show ?thesis using i c(2) by blast
      next
        case (2 e u)
        have "frame ?k {dst} w u" using hoareD_exn [OF fill_copy_spec [OF ik], OF b 2(1)] .
        then have "frame ?k {dst} w v" unfolding 2(3) by (rule unlink_frame) simp
        with 2(2) show ?thesis by blast
      qed
    qed
  qed
qed

section \<open>Sibling names\<close>

lemma parent_path_cases:
  obtains "parent_path t = []" | "parent_path t = [SLASH]" | e c where "parent_path t = e @ [c]" "c \<noteq> SLASH"
proof (cases "dropWhile (\<lambda>c. c \<noteq> SLASH) (rev t)")
  case Nil
  have "parent_path t = []" unfolding parent_path_def Let_def Nil by simp
  then show ?thesis by (rule that(1))
next
  case (Cons a d)
  show ?thesis
  proof (cases "dropWhile (\<lambda>c. c = SLASH) (a # d)")
    case Nil
    have "parent_path t = [SLASH]" unfolding parent_path_def Let_def Cons Nil by simp
    then show ?thesis by (rule that(2))
  next
    case c: (Cons c e)
    have "parent_path t = rev e @ [c]" unfolding parent_path_def Let_def Cons c by simp
    moreover have "c \<noteq> SLASH" using hd_dropWhile [of "\<lambda>c. c = SLASH" "a # d"] c by simp
    ultimately show ?thesis by (rule that(3))
  qed
qed

lemma parent_path_slash:
  "SLASH \<notin> set q \<Longrightarrow> parent_path (d @ SLASH # q) =
     (let e = dropWhile (\<lambda>c. c = SLASH) (SLASH # rev d) in if e = [] then [SLASH] else rev e)"
proof -
  assume "SLASH \<notin> set q"
  then have "dropWhile (\<lambda>c. c \<noteq> SLASH) (rev q @ SLASH # rev d) = dropWhile (\<lambda>c. c \<noteq> SLASH) (SLASH # rev d)"
    by (intro dropWhile_append2) auto
  then have "dropWhile (\<lambda>c. c \<noteq> SLASH) (rev (d @ SLASH # q)) = SLASH # rev d" by simp
  then show ?thesis unfolding parent_path_def by simp
qed

lemma parent_path_append:
  assumes "SLASH \<notin> set q" "q \<noteq> []"
  shows "parent_path (path_append (parent_path t) q) = parent_path t"
proof (cases t rule: parent_path_cases)
  case 1
  have "dropWhile (\<lambda>c. c \<noteq> SLASH) (rev q) = []" using assms(1) by auto
  then have "parent_path q = []" unfolding parent_path_def Let_def by simp
  with 1 show ?thesis by (simp add: path_append_def)
next
  case 2
  have "\<not> is_absolute q" using assms by (cases q) (auto simp: is_absolute_def)
  then have "path_append (parent_path t) q = [] @ SLASH # q" using 2 by (simp add: path_append_def)
  then show ?thesis using parent_path_slash [OF assms(1), of "[]"] 2 by simp
next
  case (3 e c)
  have "\<not> is_absolute q" using assms by (cases q) (auto simp: is_absolute_def)
  then have "path_append (parent_path t) q = (e @ [c]) @ SLASH # q" using 3 by (simp add: path_append_def)
  then show ?thesis using parent_path_slash [OF assms(1), of "e @ [c]"] 3 by simp
qed

lemma SLASH_dec [simp]: "SLASH \<notin> set (dec n)"
  using isdigit_dec [of SLASH n] by (auto simp: isdigit_def)

lemma filename_sibling:
  "SLASH \<notin> set sfx \<Longrightarrow>
     filename (sibling t sfx p n) = filename t @ sfx @ ''.'' @ dec p @ ''.'' @ dec n"
  unfolding sibling_def by (rule filename_path_append) simp

lemma sibling_neq [simp]: "SLASH \<notin> set sfx \<Longrightarrow> sibling t sfx p n \<noteq> t"
  using filename_sibling [of sfx t p n] by (metis append_eq_conv_conj append_self_conv append_is_Nil_conv not_Cons_self2)

lemma dir_of_sibling [simp]: "SLASH \<notin> set sfx \<Longrightarrow> dir_of (sibling t sfx p n) = dir_of t"
  unfolding dir_of_def sibling_def by (simp add: parent_path_append)

lemma sibling_neq_sibling:
  "SLASH \<notin> set s1 \<Longrightarrow> SLASH \<notin> set s2 \<Longrightarrow>
   take 2 s1 \<noteq> take 2 s2 \<Longrightarrow> 2 \<le> length s1 \<Longrightarrow> 2 \<le> length s2 \<Longrightarrow> sibling t s1 p1 n1 \<noteq> sibling t s2 p2 n2"
proof
  assume a: "SLASH \<notin> set s1" "SLASH \<notin> set s2" "take 2 s1 \<noteq> take 2 s2" "2 \<le> length s1" "2 \<le> length s2"
    and "sibling t s1 p1 n1 = sibling t s2 p2 n2"
  then have "s1 @ ''.'' @ dec p1 @ ''.'' @ dec n1 = s2 @ ''.'' @ dec p2 @ ''.'' @ dec n2"
    using filename_sibling by (metis same_append_eq)
  then have "take 2 (s1 @ ''.'' @ dec p1 @ ''.'' @ dec n1) = take 2 (s2 @ ''.'' @ dec p2 @ ''.'' @ dec n2)"
    by (rule arg_cong)
  with a show False by simp
qed

lemma unique_sibling_path_spec:
  "unique_sibling_path t sfx w = (r, v) \<Longrightarrow>
     quiet w v \<and> r = Inr (sibling t sfx (pid w) (ticks w (clock_reads w))) \<and>
     clock_reads v = Suc (clock_reads w)"
  by (auto simp: unique_sibling_path_def read_clock_def)

definition siblings :: "path \<Rightarrow> string \<Rightarrow> path set" where
  "siblings t sfx = {sibling t sfx p n |p n. True}"

section \<open>Replacing a file\<close>

text \<open>What the disk may hold under the name \<open>t\<close> after a power failure: a file it may have held
  before, or a new file satisfying \<open>P\<close>.\<close>

definition installs :: "world \<Rightarrow> world \<Rightarrow> path \<Rightarrow> (inode \<Rightarrow> bool) \<Rightarrow> bool" where
  "installs w v t P \<longleftrightarrow>
     (\<forall>b\<in>set (on_disk v t). b \<in> set (on_disk w t) \<or>
        (\<exists>j. b = Some j \<and> next_inode w \<le> j \<and> j < next_inode v \<and> P (inodes v j)))"

lemma installs_frame: "frame k S w v \<Longrightarrow> t \<notin> S \<Longrightarrow> installs w v t P"
  by (auto simp: frame_def installs_def)

lemma installs_same:
  "installs w0 w t P \<Longrightarrow> inodes v = inodes w \<Longrightarrow> next_inode v = next_inode w \<Longrightarrow>
     set (on_disk v t) \<subseteq> set (on_disk w t) \<Longrightarrow> installs w0 v t P"
  by (auto simp: installs_def)

lemma installs_quiet: "installs w0 w t P \<Longrightarrow> quiet w v \<Longrightarrow> installs w0 v t P"
  by (simp add: installs_def quiet_def)

lemma installs_unlink:
  assumes "installs w0 w t P" "frame k S w0 w" "p \<in> S" "p \<noteq> t"
  shows "installs w0 (snd (sys_unlink p w)) t P"
proof -
  obtain r v where u: "sys_unlink p w = (r, v)" by force
  from sys_unlink_spec [OF u assms(2,3)] assms(4)
  have "inodes v = inodes w" "next_inode v = next_inode w" "on_disk v t = on_disk w t" by auto
  with assms(1) show ?thesis by (simp add: installs_def u)
qed

lemma installs_fsync_directory:
  assumes "installs w0 w t P" "frame k S w0 w" "fsync_directory d w = (r, v)"
  shows "installs w0 v t P"
proof -
  have s: "inodes v = inodes w" "next_inode v = next_inode w" "on_disk v t = on_disk w t \<or> on_disk v t = [lookup w t]"
    using fsync_directory_spec [OF assms(3,2)] by auto
  have "lookup w t \<in> set (on_disk w t)" using frame_wf [OF assms(2)] by (simp add: world_ok_def)
  with s assms(1) show ?thesis by (auto simp: installs_def)
qed

lemma installs_rename:
  assumes "installs w0 w t P" "frame k S w0 w" "p \<in> S" "t \<in> S" "p \<noteq> t"
    and "lookup w p = Some j" "next_inode w0 \<le> j" "P (inodes w j)" "sys_rename p t w = (r, v)"
  shows "installs w0 v t P"
proof -
  have s: "inodes v = inodes w" "next_inode v = next_inode w"
    "on_disk v t = on_disk w t \<or> on_disk v t = Some j # on_disk w t"
    using sys_rename_spec [OF assms(9,2-5)] assms(6) by auto
  have "j < next_inode w" using frame_wf [OF assms(2)] assms(6) by (auto simp: world_ok_def)
  with s assms(1,7,8) show ?thesis by (auto simp: installs_def)
qed

lemma copied_stat: "copied d st n \<Longrightarrow> stat_of n = \<lparr>st_kind = Regular, st_perm = chown_perm (st_perm st), st_uid = st_uid st, st_gid = st_gid st\<rparr>"
  by (simp add: copied_def holds_def stat_of_def)

text \<open>The common shape of a replacement: put a finished file in place, flush the directory.\<close>

definition swapped :: "world \<Rightarrow> world \<Rightarrow> path \<Rightarrow> (inode \<Rightarrow> bool) \<Rightarrow> bool" where
  "swapped w v t P \<longleftrightarrow> (\<exists>j. lookup v t = Some j \<and> next_inode w \<le> j \<and> j < next_inode v \<and> P (inodes v j))"

lemma swapped_same:
  "swapped w0 w t P \<Longrightarrow> lookup v t = lookup w t \<Longrightarrow> inodes v = inodes w \<Longrightarrow> next_inode v = next_inode w \<Longrightarrow>
     swapped w0 v t P"
  by (simp add: swapped_def)

definition ready :: "world \<Rightarrow> world \<Rightarrow> path \<Rightarrow> path \<Rightarrow> (inode \<Rightarrow> bool) \<Rightarrow> bool" where
  "ready w0 w p t P \<longleftrightarrow> frame (next_inode w0) {p, t} w0 w \<and> installs w0 w t P \<and> swapped w0 w p P \<and>
     lookup w t = lookup w0 t"

definition failed_swap :: "world \<Rightarrow> path \<Rightarrow> path \<Rightarrow> (inode \<Rightarrow> bool) \<Rightarrow> world \<Rightarrow> bool" where
  "failed_swap w0 p t P w \<longleftrightarrow> frame (next_inode w0) {p, t} w0 w \<and> installs w0 w t P \<and>
     (lookup w t = lookup w0 t \<or> swapped w0 w t P)"

definition in_place :: "world \<Rightarrow> path \<Rightarrow> path \<Rightarrow> (inode \<Rightarrow> bool) \<Rightarrow> world \<Rightarrow> bool" where
  "in_place w0 p t P w \<longleftrightarrow> failed_swap w0 p t P w \<and> swapped w0 w t P"

lemma swapped_quiet: "swapped w0 w t P \<Longrightarrow> quiet w v \<Longrightarrow> swapped w0 v t P"
  by (simp add: swapped_def quiet_def)

lemma lookup_quiet: "quiet w v \<Longrightarrow> lookup v t = lookup w t"
  by (simp add: quiet_def)

lemma failed_swap_quiet: "failed_swap w0 p t P w \<Longrightarrow> quiet w v \<Longrightarrow> failed_swap w0 p t P v"
  by (auto simp: failed_swap_def lookup_quiet intro: frame_quiet installs_quiet swapped_quiet)

lemma hoare_swap_rename:
  assumes "p \<noteq> t"
  shows "hoare (\<lambda>w. ready w0 w p t P) (or_throw (sys_rename p t) f) (\<lambda>_. in_place w0 p t P) (\<lambda>_. failed_swap w0 p t P)"
proof (rule hoare_or_throw)
  fix w r v
  assume rd: "ready w0 w p t P" and rn: "sys_rename p t w = (r, v)"
  have f: "frame (next_inode w0) {p, t} w0 w" and i: "installs w0 w t P" using rd by (auto simp: ready_def)
  obtain j where j: "lookup w p = Some j" "next_inode w0 \<le> j" "j < next_inode w" "P (inodes w j)"
    using rd by (auto simp: ready_def swapped_def)
  note sp = sys_rename_spec [OF rn f _ _ assms]
  have fv: "frame (next_inode w0) {p, t} w0 v" using sp by simp
  have iv: "installs w0 v t P" by (rule installs_rename [OF i f _ _ assms j(1,2,4) rn]) simp_all
  show "case r of Inl e \<Rightarrow> failed_swap w0 p t P v | Inr x \<Rightarrow> in_place w0 p t P v"
  proof (cases r)
    case (Inl e)
    then have "lookup v t = lookup w0 t" using sp rd by (auto simp: ready_def)
    then show ?thesis using Inl fv iv by (simp add: failed_swap_def)
  next
    case (Inr x)
    then have "lookup v t = Some j" "inodes v = inodes w" "next_inode v = next_inode w" using sp j(1) by auto
    then show ?thesis using Inr fv iv j by (auto simp: in_place_def failed_swap_def swapped_def)
  qed
qed

lemma hoare_swap_inject:
  "hoare (\<lambda>w. ready w0 w p t P) (fail_if_injected point) (\<lambda>_ w. ready w0 w p t P) (\<lambda>_. failed_swap w0 p t P)"
  by (rule hoare_from_spec)
     (auto dest!: fail_if_injected_spec simp: ready_def failed_swap_def swapped_def
       intro: frame_quiet installs_quiet simp: quiet_def)

lemma hoare_in_place_inject:
  "hoare (in_place w0 p t P) (fail_if_injected point) (\<lambda>_. in_place w0 p t P) (\<lambda>_. failed_swap w0 p t P)"
  by (rule hoare_from_spec)
     (auto dest!: fail_if_injected_spec simp: in_place_def intro: failed_swap_quiet simp: swapped_def quiet_def)

lemma hoare_swap_fsync:
  "hoare (in_place w0 p t P) (fsync_directory (parent_path t))
     (\<lambda>_ w. in_place w0 p t P w \<and> on_disk w t = [lookup w t]) (\<lambda>_. failed_swap w0 p t P)"
proof (rule hoare_from_spec)
  fix w r v
  assume ip: "in_place w0 p t P w" and fs: "fsync_directory (parent_path t) w = (r, v)"
  have f: "frame (next_inode w0) {p, t} w0 w" and i: "installs w0 w t P" and s: "swapped w0 w t P"
    using ip by (auto simp: in_place_def failed_swap_def)
  note sp = fsync_directory_spec [OF fs f]
  have iv: "installs w0 v t P" by (rule installs_fsync_directory [OF i f fs])
  have "dir_of t = (if parent_path t = [] then ''.'' else parent_path t)" by (simp add: dir_of_def)
  then show "(\<forall>e. r = Inl e \<longrightarrow> failed_swap w0 p t P v) \<and>
      (\<forall>x. r = Inr x \<longrightarrow> in_place w0 p t P v \<and> on_disk v t = [lookup v t])"
    using sp iv s by (auto simp: in_place_def failed_swap_def swapped_def)
qed

text \<open>What \<open>atomic_restore_file\<close> and the recovery of the apply service do alike.\<close>

lemma restored_copy:
  assumes "copy_file_secure src p st sd dd w = (r, v)" "world_ok w" "p \<noteq> t"
    and "\<And>i. lookup w src = Some i \<Longrightarrow> P = copied (ino_data (inodes w i)) st"
  shows "failed_swap w p t P v \<and> (\<forall>x. r = Inr x \<longrightarrow> ready w v p t P \<and> lookup w src \<noteq> None)"
proof -
  note sp = copy_file_secure_spec [OF assms(1,2)]
  have f: "frame (next_inode w) {p} w v" using sp by blast
  then have "frame (next_inode w) {p, t} w v" by (rule frame_weaken) auto
  moreover have "installs w v t P" using f assms(3) by (auto intro: installs_frame)
  moreover have "lookup v t = lookup w t" using f assms(3) by (simp add: frame_def)
  moreover have "swapped w v p P \<and> lookup w src \<noteq> None" if "r = Inr x" for x
    using sp that assms(4) by (auto simp: swapped_def)
  ultimately show ?thesis by (simp add: failed_swap_def ready_def)
qed

lemma frame_quiet_left: "quiet w u \<Longrightarrow> frame k S u v \<Longrightarrow> frame k S w v"
  by (auto simp: quiet_def frame_def)

lemma swapped_left_quiet: "quiet w u \<Longrightarrow> swapped u v t P \<Longrightarrow> swapped w v t P"
  by (simp add: swapped_def quiet_def)

lemma installs_left_quiet: "quiet w u \<Longrightarrow> installs u v t P \<Longrightarrow> installs w v t P"
  by (simp add: installs_def quiet_def)

lemma failed_swap_left: "quiet w u \<Longrightarrow> failed_swap u p t P v \<Longrightarrow> failed_swap w p t P v"
  using frame_quiet_left [of w u "next_inode u" "{p, t}" v] swapped_left_quiet [of w u v t P]
    installs_left_quiet [of w u v t P] lookup_quiet [of w u t]
  by (auto simp: failed_swap_def quiet_def)

lemma in_place_left: "quiet w u \<Longrightarrow> in_place u p t P v \<Longrightarrow> in_place w p t P v"
  using failed_swap_left [of w u p t P v] by (auto simp: in_place_def swapped_def quiet_def)

lemma failed_swap_unlink:
  assumes "failed_swap w0 p t P u" "p \<noteq> t"
  shows "failed_swap w0 p t P (snd (sys_unlink p u))"
proof -
  obtain r v where u: "sys_unlink p u = (r, v)" by force
  have f: "frame (next_inode w0) {p, t} w0 u" using assms(1) by (simp add: failed_swap_def)
  have "lookup v t = lookup u t" "inodes v = inodes u" "next_inode v = next_inode u"
    using sys_unlink_spec [OF u f] assms(2) by auto
  moreover have "frame (next_inode w0) {p, t} w0 v" "installs w0 v t P"
    using assms unlink_frame [OF f, of p] installs_unlink [of w0 u t P, OF _ f, of p] u by (auto simp: failed_swap_def)
  ultimately show ?thesis using assms(1) by (auto simp: failed_swap_def swapped_def u)
qed

definition swap_in :: "path \<Rightarrow> path \<Rightarrow> (errno \<Rightarrow> exn) \<Rightarrow> (world, unit) io" where
  "swap_in p t f =
     bind_io (fail_if_injected Before_rename) (\<lambda>_.
     bind_io (or_throw (sys_rename p t) f) (\<lambda>_.
     bind_io (fail_if_injected After_rename) (\<lambda>_.
     fsync_directory (parent_path t))))"

lemma swap_in_spec:
  assumes "p \<noteq> t"
  shows "hoare (\<lambda>w. ready w0 w p t P) (swap_in p t f)
    (\<lambda>_ w. in_place w0 p t P w \<and> on_disk w t = [lookup w t]) (\<lambda>_. failed_swap w0 p t P)"
  unfolding swap_in_def
  by (rule hoare_bind [OF hoare_swap_inject], rule hoare_bind [OF hoare_swap_rename [OF assms]],
      rule hoare_bind [OF hoare_in_place_inject], rule hoare_swap_fsync)

text \<open>Copy to a sibling, then run a computation that needs the finished sibling; on an error the
  sibling is removed.\<close>

lemma copy_then_swap:
  assumes "unlinking_on_error p (bind_io (copy_file_secure src p st sd dd) (\<lambda>_. m)) w = (r, v)"
    and "world_ok w" "p \<noteq> t"
    and "\<And>i. lookup w src = Some i \<Longrightarrow> P = copied (ino_data (inodes w i)) st"
    and "hoare (\<lambda>u. ready w u p t P) m (\<lambda>_ u. in_place w p t P u \<and> on_disk u t = [lookup u t]) (\<lambda>_. failed_swap w p t P)"
  shows "failed_swap w p t P v \<and>
    (r = Inr () \<longrightarrow> in_place w p t P v \<and> on_disk v t = [lookup v t] \<and> lookup w src \<noteq> None)"
proof -
  obtain r1 u1 where c: "copy_file_secure src p st sd dd w = (r1, u1)" by force
  note sp = restored_copy [OF c assms(2,3,4)]
  obtain r2 u2 where m: "m u1 = (r2, u2)" by force
  show ?thesis
  proof (cases r1)
    case (Inl e)
    then have "v = snd (sys_unlink p u1)" "r = Inl e" using assms(1) c
      by (simp_all add: unlinking_on_error_def catch_io_def bind_io_def ignore_sys_def throw_def)
    with sp assms(3) show ?thesis by (simp add: failed_swap_unlink)
  next
    case ok: (Inr x)
    then have rd: "ready w u1 p t P" "lookup w src \<noteq> None" using sp by auto
    note ms = hoare_spec [OF assms(5) rd(1) m]
    show ?thesis
    proof (cases r2)
      case (Inl e)
      then have "v = snd (sys_unlink p u2)" "r = Inl e" using assms(1) c m ok
        by (simp_all add: unlinking_on_error_def catch_io_def bind_io_def ignore_sys_def throw_def)
      with ms Inl assms(3) show ?thesis by (simp add: failed_swap_unlink)
    next
      case (Inr y)
      then have "v = u2" "r = Inr y" using assms(1) c m ok
        by (simp_all add: unlinking_on_error_def catch_io_def bind_io_def)
      with ms Inr rd(2) show ?thesis by (simp add: in_place_def)
    qed
  qed
qed

lemma atomic_replace_spec:
  assumes "atomic_replace src t st bd sfx w = (r, v)" "world_ok w" "SLASH \<notin> set sfx"
    and "\<And>i. lookup w src = Some i \<Longrightarrow> P = copied (ino_data (inodes w i)) st"
  shows "\<exists>p\<in>siblings t sfx. failed_swap w p t P v \<and>
    (r = Inr () \<longrightarrow> in_place w p t P v \<and> on_disk v t = [lookup v t] \<and> lookup w src \<noteq> None)"
proof -
  define p where "p = sibling t sfx (pid w) (ticks w (clock_reads w))"
  obtain r1 u where u: "unique_sibling_path t sfx w = (r1, u)" by force
  note us = unique_sibling_path_spec [OF u]
  have q: "quiet w u" and r1: "r1 = Inr p" using us by (auto simp: p_def)
  have body: "unlinking_on_error p (bind_io (copy_file_secure src p st bd ''rollback file'')
      (\<lambda>_. swap_in p t (errno_error ''cannot atomically restore'' t))) u = (r, v)"
    using assms(1) u r1 by (simp add: atomic_replace_def bind_io_def swap_in_def)
  have pt: "p \<noteq> t" using assms(3) by (simp add: p_def)
  have "failed_swap u p t P v \<and> (r = Inr () \<longrightarrow> in_place u p t P v \<and> on_disk v t = [lookup v t] \<and> lookup u src \<noteq> None)"
    by (rule copy_then_swap [OF body quiet_wf [OF q assms(2)] pt _ swap_in_spec [OF pt]])
       (use assms(4) q in \<open>auto simp: quiet_def\<close>)
  moreover have "p \<in> siblings t sfx" by (auto simp: siblings_def p_def)
  moreover have "lookup u src = lookup w src" using q by (simp add: quiet_def)
  ultimately show ?thesis using failed_swap_left [OF q] in_place_left [OF q] by (intro bexI [of _ p]) auto
qed

text \<open>A restored file has the data, owner and permissions of the one it was restored from.\<close>

definition restored :: "inode \<Rightarrow> inode \<Rightarrow> bool" where
  "restored n = copied (ino_data n) (stat_of n)"

lemma atomic_restore_file_spec:
  assumes "atomic_restore_file src t sd td sfx w = (r, v)" "world_ok w" "SLASH \<notin> set sfx"
    and "lookup w src = Some i"
  shows "\<exists>p\<in>siblings t sfx. failed_swap w p t (restored (inodes w i)) v \<and>
    (r = Inr () \<longrightarrow> in_place w p t (restored (inodes w i)) v \<and> on_disk v t = [lookup v t] \<and>
       ino_kind (inodes w i) = Regular)"
proof -
  obtain r1 u1 where 1: "sys_lstat src w = (r1, u1)" by force
  obtain r2 u2 where 2: "sys_lstat t u1 = (r2, u2)" by force
  have q1: "quiet w u1" and q2: "quiet w u2"
    using sys_lstat_spec [OF 1] sys_lstat_spec [OF 2] quiet_trans by blast+
  have s1: "st = stat_of (inodes w i)" if "r1 = Inr st" for st
    using sys_lstat_spec [OF 1] that assms(4) by auto
  have quiet_case: ?thesis if q: "quiet w v" and ne: "r \<noteq> Inr ()"
  proof (intro bexI conjI impI)
    have "frame (next_inode w) {sibling t sfx 0 0, t} w w" using assms(2) by (intro frame_refl) simp_all
    then show "failed_swap w (sibling t sfx 0 0) t (restored (inodes w i)) v"
      using q by (simp add: failed_swap_def frame_quiet) (simp add: installs_def quiet_def)
    show "sibling t sfx 0 0 \<in> siblings t sfx" by (auto simp: siblings_def)
  qed (use ne in simp_all)
  show ?thesis
  proof (cases "\<exists>st. r1 = Inr st \<and> \<not> unsafe_kind st \<and> atomic_replace src t st sd sfx u2 = (r, v)")
    case True
    then obtain st where st: "r1 = Inr st" "\<not> unsafe_kind st" "atomic_replace src t st sd sfx u2 = (r, v)" by blast
    have reg: "ino_kind (inodes w i) = Regular" using st(2) s1 [OF st(1)] by (simp add: unsafe_kind_def stat_of_def)
    have l2: "lookup u2 src = Some i" "inodes u2 = inodes w" using q2 assms(4) by (simp_all add: quiet_def)
    have "\<exists>p\<in>siblings t sfx. failed_swap u2 p t (restored (inodes w i)) v \<and>
      (r = Inr () \<longrightarrow> in_place u2 p t (restored (inodes w i)) v \<and> on_disk v t = [lookup v t] \<and> lookup u2 src \<noteq> None)"
      by (rule atomic_replace_spec [OF st(3) quiet_wf [OF q2 assms(2)] assms(3)])
         (use l2 s1 [OF st(1)] in \<open>auto simp: restored_def\<close>)
    then obtain p where "p \<in> siblings t sfx" "failed_swap u2 p t (restored (inodes w i)) v"
      "r = Inr () \<longrightarrow> in_place u2 p t (restored (inodes w i)) v \<and> on_disk v t = [lookup v t]" by blast
    then show ?thesis using failed_swap_left [OF q2] in_place_left [OF q2] reg by (intro bexI [of _ p]) auto
  next
    case False
    have "quiet w v \<and> r \<noteq> Inr ()"
    proof (cases r1)
      case (Inl e)
      with assms(1) 1 q1 show ?thesis by (auto simp: atomic_restore_file_def bind_io_def or_throw_def)
    next
      case (Inr st)
      show ?thesis
      proof (cases "unsafe_kind st")
        case True
        with assms(1) 1 Inr q1 show ?thesis
          by (auto simp: atomic_restore_file_def bind_io_def or_throw_def throw_def)
      next
        case ok: False
        with False Inr assms(1) 1 2 q2 show ?thesis
          by (auto simp: atomic_restore_file_def bind_io_def or_throw_def throw_def try_sys_def
              split: sum.splits if_splits)
      qed
    qed
    then show ?thesis using quiet_case by blast
  qed
qed

lemma remove_regular_file_secure_spec:
  assumes "remove_regular_file_secure t d w = (r, v)" "frame k S w0 w" "t \<in> S"
  shows "frame k S w0 v \<and> inodes v = inodes w \<and> next_inode v = next_inode w \<and>
    set (on_disk v t) \<subseteq> insert None (set (on_disk w t)) \<and>
    (r = Inr () \<longrightarrow> lookup v t = None \<and> (lookup w t = None \<or> on_disk v t = [None])) \<and>
    (lookup v t = lookup w t \<or> lookup v t = None) \<and>
    (\<forall>p. p \<noteq> t \<longrightarrow> lookup v p = lookup w p)"
proof -
  obtain r1 u1 where 1: "sys_lstat t w = (r1, u1)" by force
  note s1 = sys_lstat_spec [OF 1]
  have q1: "quiet w u1" using s1 by simp
  have e1: "lookup u1 = lookup w" "inodes u1 = inodes w" "next_inode u1 = next_inode w" "on_disk u1 = on_disk w"
    using q1 by (simp_all add: quiet_def)
  note f1 = frame_quiet [OF assms(2) q1]
  obtain r2 u2 where 2: "fail_if_injected Before_unlink u1 = (r2, u2)" by force
  have q2: "quiet w u2" using fail_if_injected_spec [OF 2] q1 quiet_trans by blast
  have e2: "lookup u2 = lookup w" "inodes u2 = inodes w" "next_inode u2 = next_inode w" "on_disk u2 = on_disk w"
    using q2 by (simp_all add: quiet_def)
  note f2 = frame_quiet [OF assms(2) q2]
  obtain r3 u3 where 3: "sys_unlink t u2 = (r3, u3)" by force
  note s3 = sys_unlink_spec [OF 3 f2 assms(3)]
  have f3: "frame k S w0 u3" using s3 by simp
  obtain r4 u4 where 4: "fsync_directory (parent_path t) u3 = (r4, u4)" by force
  note s4 = fsync_directory_spec [OF 4 f3]
  have dir: "dir_of t = (if parent_path t = [] then ''.'' else parent_path t)" by (simp add: dir_of_def)
  consider (absent) "v = u1" "r = Inr ()" "lookup w t = None" | (bad) "v = u1" "\<exists>e. r = Inl e"
    | (inj) "v = u2" "\<exists>e. r = Inl e" | (unl) "v = u3" "\<exists>e. r3 = Inl e" "\<exists>e. r = Inl e"
    | (gone) "v = u4" "r3 = Inr ()" "r = r4"
    using assms(1) 1 2 3 4 s1
    by (cases r1; cases r2; cases r3)
       (auto simp: remove_regular_file_secure_def bind_io_def or_throw_def throw_def ret_def try_sys_def
         split: if_splits)
  then show ?thesis
  proof cases
    case absent
    then show ?thesis using f1 e1 by auto
  next
    case bad
    then show ?thesis using f1 e1 by auto
  next
    case inj
    then show ?thesis using f2 e2 by auto
  next
    case unl
    then show ?thesis using s3 e2 by auto
  next
    case gone
    then have l: "lookup u3 t = None" "on_disk u3 t = None # on_disk w t" using s3 e2 by auto
    have "on_disk u4 t = on_disk u3 t \<or> on_disk u4 t = [None]" using s4 l by metis
    moreover have "r4 = Inr () \<longrightarrow> on_disk u4 t = [None]" using s4 l dir by metis
    ultimately show ?thesis using gone s3 s4 l e2 by auto
  qed
qed

section \<open>Restoring is atomic\<close>

text \<open>
  C29: restoring a file from a backup is atomic under every schedule of failures and at whatever
  call the machine stops. The disk then holds under the target's name either a file it could have
  held before, or a complete copy of the backup with its permissions and owner, flushed; success
  means the copy is visible and durable; nothing but the target and the temporary sibling changes.
\<close>

theorem atomic_restore_old_or_new:
  assumes "world_ok w" and "lookup w src = Some i" and "SLASH \<notin> set sfx"
    and "atomic_restore_file src t sd td sfx w = (r, v)"
  shows "(\<forall>b\<in>set (on_disk v t). b \<in> set (on_disk w t) \<or> (\<exists>j. b = Some j \<and> restored (inodes w i) (inodes v j))) \<and>
    (r = Inr () \<longrightarrow> (\<exists>j. lookup v t = Some j \<and> restored (inodes w i) (inodes v j) \<and> on_disk v t = [Some j])) \<and>
    (\<forall>p. p \<noteq> t \<and> p \<notin> siblings t sfx \<longrightarrow> lookup v p = lookup w p \<and> set (on_disk v p) \<subseteq> set (on_disk w p)) \<and>
    (\<forall>k<next_inode w. inodes v k = inodes w k)"
proof -
  obtain p where p: "p \<in> siblings t sfx" "failed_swap w p t (restored (inodes w i)) v"
    "r = Inr () \<longrightarrow> in_place w p t (restored (inodes w i)) v \<and> on_disk v t = [lookup v t]"
    using atomic_restore_file_spec [OF assms(4,1,3,2)] by blast
  then have "frame (next_inode w) {p, t} w v" "installs w v t (restored (inodes w i))"
    by (simp_all add: failed_swap_def)
  moreover have "r = Inr () \<longrightarrow> swapped w v t (restored (inodes w i)) \<and> on_disk v t = [lookup v t]"
    using p(3) by (simp add: in_place_def)
  ultimately show ?thesis using p(1) by (auto simp: frame_def installs_def swapped_def)
qed

text \<open>A host with the given files; the directories are listed with the kind \<open>Dir\<close>.\<close>

definition plain_file :: "string \<Rightarrow> inode" where
  "plain_file d = \<lparr>ino_kind = Regular, ino_data = d, ino_synced = True, ino_perm = 0x1A4, ino_uid = 0,
     ino_gid = 0, ino_mtime = 0\<rparr>"

definition plain_dir :: inode where
  "plain_dir = (plain_file [])\<lparr>ino_kind := Dir, ino_perm := 0x1ED\<rparr>"

definition sample_host :: "(path \<times> inode) list \<Rightarrow> outcome list \<Rightarrow> world" where
  "sample_host fs oc =
     \<lparr>names = zip (map fst fs) [0..<length fs],
      inodes = (\<lambda>i. if i < length fs then snd (fs ! i) else plain_file []), next_inode = length fs,
      on_disk = (\<lambda>p. [map_of (zip (map fst fs) [0..<length fs]) p]), script = oc, stopped = False,
      ticks = (\<lambda>n. 1000 + n), clock_reads = 0, now = 7, pid = 42, euid = 0, egid = 0, umask = 0x012,
      foreign_locks = [], own_locks = [], injected = None\<rparr>"

lemma sample_host_ok [simp]: "world_ok (sample_host fs oc)"
proof -
  have "i < length fs" if "map_of (zip (map fst fs) [0..<length fs]) p = Some i" for p i
    using map_of_SomeD [OF that] by (auto dest: set_zip_rightD)
  then show ?thesis by (auto simp: world_ok_def sample_host_def lookup_def dest: sym)
qed

definition boot_files :: "(path \<times> inode) list" where
  "boot_files = [(''/boot'', plain_dir), (''/boot/limine.conf'', plain_file ''new''),
     (''/boot/limine.conf.bak.1.2'', plain_file ''old''), (''/run/limine-manager'', plain_dir)]"

definition restore_run :: "outcome list \<Rightarrow> unit result \<times> world" where
  "restore_run oc = atomic_restore_file ''/boot/limine.conf.bak.1.2'' ''/boot/limine.conf'' ''backup''
     ''target'' ''.rollback'' (sample_host boot_files oc)"

theorem atomic_restore_old_or_new_witness:
  "\<exists>j. lookup (snd (restore_run [])) ''/boot/limine.conf'' = Some j \<and>
     restored (plain_file ''old'') (inodes (snd (restore_run [])) j) \<and>
     on_disk (snd (restore_run [])) ''/boot/limine.conf'' = [Some j]"
proof -
  have ok: "fst (restore_run []) = Inr ()" by code_simp
  have l: "lookup (sample_host boot_files []) ''/boot/limine.conf.bak.1.2'' = Some 2" by code_simp
  have n: "inodes (sample_host boot_files []) 2 = plain_file ''old''"
    by (simp add: sample_host_def boot_files_def)
  have "atomic_restore_file ''/boot/limine.conf.bak.1.2'' ''/boot/limine.conf'' ''backup'' ''target''
      ''.rollback'' (sample_host boot_files []) = (Inr (), snd (restore_run []))"
    using ok by (metis prod.collapse restore_run_def)
  from atomic_restore_old_or_new [OF sample_host_ok l _ this] n show ?thesis by simp
qed

end
