(* ===== verification/Apply_Service.thy ===== *)
theory Apply_Service
  imports Secure_File_Specs Change_Plan
begin

text \<open>
\<open>application::ApplyService\<close> (src/application/apply_service.cpp): installing a generated
  configuration under a lock, with a backup, an atomic replacement, a verification and a recovery.
\<close>

section \<open>Directories and locks\<close>

text \<open>\<open>std::filesystem::create_directories\<close>: the ancestors of a path, outermost first.\<close>

fun ancestors :: "nat \<Rightarrow> path \<Rightarrow> path list" where
  "ancestors 0 p = [p]"
| "ancestors (Suc n) p =
     (if parent_path p = [] \<or> parent_path p = p then [p] else ancestors n (parent_path p) @ [p])"

fun make_directories :: "path list \<Rightarrow> world \<Rightarrow> (errno + unit) \<times> world" where
  "make_directories [] w = (Inr (), w)"
| "make_directories (p # ps) w =
     (case resolve 40 w p of
        Some i \<Rightarrow> if ino_kind (inodes w i) = Dir then make_directories ps w else (Inl ENOTDIR, w)
      | None \<Rightarrow> if lookup w p \<noteq> None then (Inl EEXIST, w)
          else let i = next_inode w in
            make_directories ps
              (set_name p (Some i) (set_inode i (fresh_directory w) w)\<lparr>next_inode := i + 1\<rparr>))"

definition create_directories :: "path \<Rightarrow> unit sys" where
  "create_directories p = syscall1 (make_directories (ancestors (length p) p))"

section \<open>The service\<close>

record apply_result =
  ar_changed :: bool
  ar_target :: path
  ar_backup :: path

text \<open>A caught exception as a value.\<close>

definition attempt :: "('w, 'a) io \<Rightarrow> ('w, exn + 'a) io" where
  "attempt m = (\<lambda>w. case m w of (r, v) \<Rightarrow> (Inr r, v))"

definition restore_from_backup :: "path \<Rightarrow> path \<Rightarrow> stat \<Rightarrow> (world, unit) io" where
  "restore_from_backup backup target metadata =
     bind_io (unique_sibling_path target ''.rollback'') (\<lambda>rollback.
     unlinking_on_error rollback (
       bind_io (copy_file_secure backup rollback metadata ''backup'' ''rollback file'') (\<lambda>_.
       bind_io (or_throw (sys_rename rollback target) (errno_error ''cannot restore backup'' target)) (\<lambda>_.
       fsync_directory (parent_path target)))))"

definition make_backup :: "path \<Rightarrow> path \<Rightarrow> stat \<Rightarrow> (world, path) io" where
  "make_backup target dir metadata =
     bind_io (unique_sibling_path target ''.bak'') (\<lambda>candidate.
     bind_io (copy_file_secure target candidate metadata ''source'' ''backup'') (\<lambda>_.
     bind_io (fsync_directory dir) (\<lambda>_. ret candidate)))"

definition write_temporary :: "path \<Rightarrow> string \<Rightarrow> 12 word \<Rightarrow> nat \<Rightarrow> nat \<Rightarrow> (world, unit) io" where
  "write_temporary temporary generated mode uid gid =
     bind_io (or_throw (sys_create_excl temporary mode) (errno_error ''cannot create temporary file'' temporary)) (\<lambda>fd.
     bind_io (write_all fd generated temporary) (\<lambda>_.
     bind_io (or_throw (sys_fchmod fd mode) (errno_error ''cannot set mode'' temporary)) (\<lambda>_.
     bind_io (or_throw (sys_fstat fd) (errno_error ''cannot inspect temporary file'' temporary)) (\<lambda>st.
     bind_io (if st_uid st \<noteq> uid \<or> st_gid st \<noteq> gid
              then or_throw (sys_fchown fd uid gid) (errno_error ''cannot set ownership'' temporary)
              else ret ()) (\<lambda>_.
     or_throw (sys_fsync fd) (errno_error ''cannot fsync'' temporary))))))"

definition verify_target :: "change_plan \<Rightarrow> (world, unit) io" where
  "verify_target plan =
     bind_io (or_throw (sys_open_read (plan_target plan)) (errno_error ''cannot reopen target'' (plan_target plan))) (\<lambda>fd.
     bind_io (read_all fd (plan_target plan)) (\<lambda>found.
     if found \<noteq> plan_generated plan then
       throw (Runtime_error (''post-write verification failed for '' @ plan_target plan))
     else ret ()))"

definition install_generated ::
  "change_plan \<Rightarrow> path \<Rightarrow> path \<Rightarrow> path \<Rightarrow> 12 word \<Rightarrow> nat \<Rightarrow> nat \<Rightarrow> (world, apply_result) io" where
  "install_generated plan dir temporary backup mode uid gid =
     bind_io (write_temporary temporary (plan_generated plan) mode uid gid) (\<lambda>_.
     bind_io (or_throw (sys_rename temporary (plan_target plan))
                (errno_error ''cannot atomically replace target'' (plan_target plan))) (\<lambda>_.
     bind_io (fsync_directory dir) (\<lambda>_.
     bind_io (verify_target plan) (\<lambda>_.
     ret \<lparr>ar_changed = True, ar_target = plan_target plan, ar_backup = backup\<rparr>))))"

text \<open>The handler of the \<open>try\<close> block; it always throws.\<close>

definition recover :: "change_plan \<Rightarrow> path \<Rightarrow> path \<Rightarrow> stat option \<Rightarrow> path \<Rightarrow> exn \<Rightarrow> (world, 'a) io" where
  "recover plan dir temporary target_metadata backup e =
     bind_io (ignore_sys (sys_unlink temporary)) (\<lambda>_.
     case target_metadata of
       Some metadata \<Rightarrow>
         if backup \<noteq> [] then
           bind_io (attempt (restore_from_backup backup (plan_target plan) metadata)) (\<lambda>outcome.
             case outcome of
               Inl _ \<Rightarrow> throw (Runtime_error
                   (''apply failed and automatic rollback also failed; backup: '' @ backup))
             | Inr _ \<Rightarrow> throw e)
         else throw e
     | None \<Rightarrow>
         bind_io (ignore_sys (sys_unlink (plan_target plan))) (\<lambda>_.
         bind_io (attempt (fsync_directory dir)) (\<lambda>_. throw e)))"

definition replace_target :: "change_plan \<Rightarrow> path \<Rightarrow> stat option \<Rightarrow> (world, apply_result) io" where
  "replace_target plan dir target_metadata =
     bind_io (gets euid) (\<lambda>my_uid. bind_io (gets egid) (\<lambda>my_gid.
     let mode = (case target_metadata of Some st \<Rightarrow> st_perm st | None \<Rightarrow> 0x1A4);
         uid = (case target_metadata of Some st \<Rightarrow> st_uid st | None \<Rightarrow> my_uid);
         gid = (case target_metadata of Some st \<Rightarrow> st_gid st | None \<Rightarrow> my_gid) in
     bind_io (unique_sibling_path (plan_target plan) ''.tmp'') (\<lambda>temporary.
     bind_io (attempt (case target_metadata of
                Some st \<Rightarrow> make_backup (plan_target plan) dir st | None \<Rightarrow> ret [])) (\<lambda>saved.
     case saved of
       Inl e \<Rightarrow> recover plan dir temporary target_metadata [] e
     | Inr backup \<Rightarrow>
         bind_io (attempt (install_generated plan dir temporary backup mode uid gid)) (\<lambda>installed.
         case installed of
           Inl e \<Rightarrow> recover plan dir temporary target_metadata backup e
         | Inr result \<Rightarrow> ret result)))))"

definition check_unchanged :: "change_plan \<Rightarrow> (world, unit) io" where
  "check_unchanged plan =
     bind_io (or_throw (sys_open_read (plan_target plan)) (errno_error ''cannot open target'' (plan_target plan))) (\<lambda>fd.
     bind_io (read_all fd (plan_target plan)) (\<lambda>found.
     if normalize_newline found \<noteq> plan_installed plan then
       throw (Runtime_error ''target changed after planning; refusing to overwrite'')
     else ret ()))"

definition apply_inspected :: "change_plan \<Rightarrow> path \<Rightarrow> stat option \<Rightarrow> (world, apply_result) io" where
  "apply_inspected plan dir target_metadata =
     (if plan_kind plan = Create \<and> target_metadata \<noteq> None then
        throw (Runtime_error ''target appeared after planning; run plan again'')
      else if plan_kind plan = Update \<and> target_metadata = None then
        throw (Runtime_error ''target disappeared after planning; run plan again'')
      else bind_io (if target_metadata \<noteq> None then check_unchanged plan else ret ()) (\<lambda>_.
        replace_target plan dir target_metadata))"

definition inspect_target :: "change_plan \<Rightarrow> (world, stat option) io" where
  "inspect_target plan =
     bind_io (try_sys (sys_lstat (plan_target plan))) (\<lambda>state.
     case state of
       Inr st \<Rightarrow>
         (case st_kind st of
            Symlink _ \<Rightarrow> throw (Runtime_error (''refusing to replace symbolic link: '' @ plan_target plan))
          | Regular \<Rightarrow> ret (Some st)
          | _ \<Rightarrow> throw (Runtime_error (''target is not a regular file: '' @ plan_target plan)))
     | Inl e \<Rightarrow> if e \<noteq> ENOENT then throw (errno_error ''cannot inspect target'' (plan_target plan) e)
               else ret None)"

definition take_lock :: "path \<Rightarrow> nat \<Rightarrow> (world, unit) io" where
  "take_lock lock_path fd =
     or_throw (sys_flock fd) (\<lambda>e.
       if e = EWOULDBLOCK then Runtime_error ''another limine-manager apply operation is active''
       else errno_error ''cannot lock'' lock_path e)"

definition prepare_runtime :: "path \<Rightarrow> (world, unit) io" where
  "prepare_runtime runtime_directory =
     bind_io (or_throw (create_directories runtime_directory) (\<lambda>e. Runtime_error
        (''cannot create runtime directory '' @ [SQUOTE] @ runtime_directory @ [SQUOTE] @ '': '' @ strerror e))) (\<lambda>_.
     bind_io (or_throw (sys_lstat runtime_directory)
        (errno_error ''cannot inspect runtime directory'' runtime_directory)) (\<lambda>st.
     if st_kind st \<noteq> Dir then
       throw (Runtime_error (''unsafe apply runtime directory: '' @ runtime_directory))
     else ret ()))"

definition apply_plan :: "path \<Rightarrow> change_plan \<Rightarrow> (world, apply_result) io" where
  "apply_plan runtime_directory plan =
     (if \<not> has_changes plan then ret \<lparr>ar_changed = False, ar_target = plan_target plan, ar_backup = []\<rparr>
      else if plan_target plan = [] \<or> filename (plan_target plan) = [] then
        throw (Runtime_error ''invalid empty target path'')
      else if runtime_directory = [] then
        throw (Runtime_error ''apply runtime directory cannot be empty'')
      else
        bind_io (prepare_runtime runtime_directory) (\<lambda>_.
        let lock_path = path_append runtime_directory ''apply.lock'' in
        bind_io (or_throw (sys_open_create lock_path 0x180) (errno_error ''cannot open lock'' lock_path)) (\<lambda>fd.
        finally_io
          (bind_io (take_lock lock_path fd) (\<lambda>_.
           bind_io (inspect_target plan) (\<lambda>target_metadata.
           apply_inspected plan (dir_of (plan_target plan)) target_metadata)))
          (release_lock fd))))"

definition default_runtime_directory :: "nat \<Rightarrow> string option \<Rightarrow> path \<Rightarrow> path" where
  "default_runtime_directory uid xdg_runtime temp_directory =
     (if uid = 0 then ''/run/limine-manager''
      else case xdg_runtime of
        Some d \<Rightarrow> if d \<noteq> [] then path_append d ''limine-manager''
                  else path_append temp_directory (''limine-manager-'' @ dec uid)
      | None \<Rightarrow> path_append temp_directory (''limine-manager-'' @ dec uid))"

end
