(* ===== verification/Apply_Specs.thy ===== *)
theory Apply_Specs
  imports Apply_Service
begin

text \<open>
What \<open>ApplyService::apply\<close> guarantees under every schedule of failures and a power failure at any
  call: the target is always the old or the new file, success is durable and leaves a backup, an
  exception leaves the old content, and nothing else on the host changes.
\<close>

section \<open>The new file\<close>

lemma bind_io_Inr: "m w = (Inr x, u) \<Longrightarrow> bind_io m k w = k x u"
  by (simp add: bind_io_def)

lemma bind_io_Inl: "m w = (Inl e, u) \<Longrightarrow> bind_io m k w = (Inl e, u)"
  by (simp add: bind_io_def)

lemma or_throw_Inr: "m w = (Inr x, u) \<Longrightarrow> or_throw m f w = (Inr x, u)"
  by (simp add: or_throw_def)

lemma or_throw_Inl: "m w = (Inl e, u) \<Longrightarrow> or_throw m f w = (Inl (f e), u)"
  by (simp add: or_throw_def)

definition new_file :: "string \<Rightarrow> 12 word \<Rightarrow> nat \<Rightarrow> nat \<Rightarrow> inode \<Rightarrow> bool" where
  "new_file d mode uid gid n \<longleftrightarrow> holds d n \<and> ino_synced n \<and> (ino_perm n = mode \<or> ino_perm n = chown_perm mode) \<and>
     ino_uid n = uid \<and> ino_gid n = gid"

lemma hoare_fstat:
  "hoare (building k S w0 dst fd P) (or_throw (sys_fstat fd) f)
     (\<lambda>st w. building k S w0 dst fd P w \<and> st = stat_of (inodes w fd)) (\<lambda>_. frame k S w0)"
proof (rule hoare_or_throw)
  fix w r v
  assume b: "building k S w0 dst fd P w" and m: "sys_fstat fd w = (r, v)"
  note s = sys_fstat_spec [OF m]
  have "building k S w0 dst fd P v" using b s building_quiet by blast
  moreover have "inodes v = inodes w" using s by (simp add: quiet_def)
  ultimately show "case r of Inl e \<Rightarrow> frame k S w0 v | Inr x \<Rightarrow> building k S w0 dst fd P v \<and> x = stat_of (inodes v fd)"
    using s by (auto split: sum.split intro: building_frame)
qed

lemma write_temporary_tail:
  "hoare (building k S w0 dst fd (holds []))
    (bind_io (write_all fd d dst) (\<lambda>_.
     bind_io (or_throw (sys_fchmod fd mode) f1) (\<lambda>_.
     bind_io (or_throw (sys_fstat fd) f2) (\<lambda>st.
     bind_io (if st_uid st \<noteq> uid \<or> st_gid st \<noteq> gid then or_throw (sys_fchown fd uid gid) f3 else ret ()) (\<lambda>_.
     or_throw (sys_fsync fd) f4)))))
    (\<lambda>_. building k S w0 dst fd (new_file d mode uid gid)) (\<lambda>_. frame k S w0)"
proof -
  let ?b = "building k S w0 dst fd"
  let ?P = "\<lambda>n. holds d n \<and> ino_perm n = mode"
  let ?Q = "\<lambda>n. holds d n \<and> (ino_perm n = mode \<or> ino_perm n = chown_perm mode) \<and> ino_uid n = uid \<and> ino_gid n = gid"
  have own: "hoare (\<lambda>w. ?b ?P w \<and> st = stat_of (inodes w fd))
      (if st_uid st \<noteq> uid \<or> st_gid st \<noteq> gid then or_throw (sys_fchown fd uid gid) f3 else ret ())
      (\<lambda>_. ?b ?Q) (\<lambda>_. frame k S w0)" for st
  proof (cases "st_uid st \<noteq> uid \<or> st_gid st \<noteq> gid")
    case True
    then show ?thesis
      by (simp, intro hoare_pre [OF hoare_fchown [where P = ?P]]) (auto simp: holds_def)
  next
    case False
    then show ?thesis by (auto simp: hoare_def ret_def building_def stat_of_def)
  qed
  show ?thesis
    by (rule hoare_bind [OF hoare_write_all], unfold append_Nil,
        rule hoare_bind [OF hoare_fchmod [where Q = ?P]], simp add: holds_def,
        rule hoare_bind [OF hoare_fstat], rule hoare_bind [OF own], rule hoare_fsync,
        simp add: new_file_def holds_def)
qed

lemma write_temporary_spec:
  assumes "write_temporary p d mode uid gid w = (r, v)" "world_ok w"
  shows "frame (next_inode w) {p} w v \<and>
    (\<forall>x. r = Inr x \<longrightarrow> lookup w p = None \<and> swapped w v p (new_file d mode uid gid))"
proof -
  let ?k = "next_inode w"
  have f0: "frame ?k {p} w w" using assms(2) by (intro frame_refl) simp_all
  obtain r2 u2 where 2: "sys_create_excl p mode w = (r2, u2)" by force
  note s2 = sys_create_excl_spec [OF 2 f0 singletonI]
  show ?thesis
  proof (cases r2)
    case e: (Inl e)
    then have "v = u2" "\<exists>e. r = Inl e"
      using assms(1) 2 by (simp_all add: write_temporary_def bind_io_def or_throw_def) blast
    with s2 show ?thesis by blast
  next
    case fd: (Inr fd)
    have c: "lookup w p = None" "?k \<le> fd" "next_inode u2 = fd + 1" "lookup u2 p = Some fd"
        "ino_kind (inodes u2 fd) = Regular" "ino_data (inodes u2 fd) = []" "frame ?k {p} w u2"
      using s2 fd order_refl by blast+
    then have b: "building ?k {p} w p fd (holds []) u2"
      by (simp add: building_def holds_def)
    obtain rest where rest: "rest = bind_io (write_all fd d p) (\<lambda>_.
       bind_io (or_throw (sys_fchmod fd mode) (errno_error ''cannot set mode'' p)) (\<lambda>_.
       bind_io (or_throw (sys_fstat fd) (errno_error ''cannot inspect temporary file'' p)) (\<lambda>st.
       bind_io (if st_uid st \<noteq> uid \<or> st_gid st \<noteq> gid
                then or_throw (sys_fchown fd uid gid) (errno_error ''cannot set ownership'' p)
                else ret ()) (\<lambda>_.
       or_throw (sys_fsync fd) (errno_error ''cannot fsync'' p)))))" by simp
    have run: "rest u2 = (r, v)" using assms(1) unfolding rest write_temporary_def
      by (subst (asm) bind_io_Inr [where m = "or_throw (sys_create_excl p mode) f" for f, OF
            or_throw_Inr [where m = "sys_create_excl p mode", OF 2 [unfolded fd]]])
    have h: "hoare (building ?k {p} w p fd (holds [])) rest
      (\<lambda>_. building ?k {p} w p fd (new_file d mode uid gid)) (\<lambda>_. frame ?k {p} w)"
      unfolding rest by (rule write_temporary_tail)
    from hoare_spec [OF h b run] c(1,2) show ?thesis
      by (cases r) (auto simp: swapped_def building_def)
  qed
qed

section \<open>Installing it\<close>

lemma fsync_directory_dir_of: "fsync_directory (dir_of t) = fsync_directory (parent_path t)"
  by (simp add: fsync_directory_def dir_of_def)

lemma verify_target_quiet: "verify_target plan w = (r, v) \<Longrightarrow> quiet w v"
proof -
  assume a: "verify_target plan w = (r, v)"
  obtain r1 u1 where 1: "sys_open_read (plan_target plan) w = (r1, u1)" by force
  have q1: "quiet w u1" using sys_open_read_spec [OF 1] by simp
  show ?thesis
  proof (cases r1)
    case (Inl e)
    with a 1 q1 show ?thesis by (auto simp: verify_target_def bind_io_def or_throw_def)
  next
    case (Inr fd)
    obtain r2 u2 where 2: "read_all fd (plan_target plan) u1 = (r2, u2)" by force
    have q2: "quiet w u2" using read_all_spec [OF 2] q1 quiet_trans by blast
    with a 1 2 Inr show ?thesis
      by (cases r2) (auto simp: verify_target_def bind_io_def or_throw_def throw_def ret_def split: if_splits)
  qed
qed

lemma hoare_verify:
  "hoare (\<lambda>w. in_place w0 p t P w \<and> on_disk w t = [lookup w t]) (verify_target plan)
     (\<lambda>_ w. in_place w0 p t P w \<and> on_disk w t = [lookup w t]) (\<lambda>_. failed_swap w0 p t P)"
  by (rule hoare_from_spec)
     (auto dest!: verify_target_quiet simp: in_place_def intro: failed_swap_quiet simp: swapped_def quiet_def)

lemma install_generated_spec:
  assumes "install_generated plan (dir_of (plan_target plan)) p backup mode uid gid w = (r, v)" "world_ok w"
    and "p \<noteq> plan_target plan"
  shows "failed_swap w p (plan_target plan) (new_file (plan_generated plan) mode uid gid) v \<and>
    (\<forall>x. r = Inr x \<longrightarrow> in_place w p (plan_target plan) (new_file (plan_generated plan) mode uid gid) v \<and>
       on_disk v (plan_target plan) = [lookup v (plan_target plan)] \<and>
       x = \<lparr>ar_changed = True, ar_target = plan_target plan, ar_backup = backup\<rparr>)"
proof -
  let ?t = "plan_target plan" and ?P = "new_file (plan_generated plan) mode uid gid"
  define res where "res = \<lparr>ar_changed = True, ar_target = ?t, ar_backup = backup\<rparr>"
  obtain r1 u1 where 1: "write_temporary p (plan_generated plan) mode uid gid w = (r1, u1)" by force
  note s1 = write_temporary_spec [OF 1 assms(2)]
  have f1: "frame (next_inode w) {p} w u1" using s1 by blast
  then have f1': "frame (next_inode w) {p, ?t} w u1" by (rule frame_weaken) auto
  have i1: "installs w u1 ?t ?P" using f1 assms(3) by (auto intro: installs_frame)
  define rest where "rest = bind_io (or_throw (sys_rename p ?t) (errno_error ''cannot atomically replace target'' ?t)) (\<lambda>_.
     bind_io (fsync_directory (parent_path ?t)) (\<lambda>_.
     bind_io (verify_target plan) (\<lambda>_. ret res)))"
  have h: "hoare (\<lambda>u. ready w u p ?t ?P) rest
    (\<lambda>x u. (in_place w p ?t ?P u \<and> on_disk u ?t = [lookup u ?t]) \<and> x = res) (\<lambda>_. failed_swap w p ?t ?P)"
    unfolding rest_def
    by (rule hoare_bind [OF hoare_swap_rename [OF assms(3)]], rule hoare_bind [OF hoare_swap_fsync],
        rule hoare_bind [OF hoare_verify]) (auto simp: hoare_def ret_def)
  show ?thesis
  proof (cases r1)
    case (Inl e)
    then have "v = u1" "\<exists>e. r = Inl e" using assms(1) 1
      by (simp_all add: install_generated_def bind_io_def) blast
    moreover have "lookup u1 ?t = lookup w ?t" using f1 assms(3) by (simp add: frame_def)
    ultimately show ?thesis using f1' i1 by (auto simp: failed_swap_def)
  next
    case (Inr x)
    then have "lookup u1 ?t = lookup w ?t" using f1 assms(3) by (simp add: frame_def)
    with Inr have rd: "ready w u1 p ?t ?P" using s1 f1' i1 by (simp add: ready_def)
    have run: "rest u1 = (r, v)" using assms(1) 1 Inr unfolding rest_def res_def
      by (simp add: install_generated_def fsync_directory_dir_of bind_io_Inr [where m = "write_temporary p (plan_generated plan) mode uid gid", OF 1 [unfolded Inr]])
    from hoare_spec [OF h rd run] show ?thesis
      by (cases r) (auto simp: res_def in_place_def)
  qed
qed

lemma restore_from_backup_spec:
  assumes "restore_from_backup src t st w = (r, v)" "world_ok w"
    and "\<And>i. lookup w src = Some i \<Longrightarrow> P = copied (ino_data (inodes w i)) st"
  shows "\<exists>p\<in>siblings t ''.rollback''. failed_swap w p t P v \<and>
    (r = Inr () \<longrightarrow> in_place w p t P v \<and> on_disk v t = [lookup v t])"
proof -
  define p where "p = sibling t ''.rollback'' (pid w) (ticks w (clock_reads w))"
  obtain r1 u where u: "unique_sibling_path t ''.rollback'' w = (r1, u)" by force
  note us = unique_sibling_path_spec [OF u]
  have q: "quiet w u" and r1: "r1 = Inr p" using us by (auto simp: p_def)
  have pt: "p \<noteq> t" by (simp add: p_def)
  let ?m = "bind_io (or_throw (sys_rename p t) (errno_error ''cannot restore backup'' t))
      (\<lambda>_. fsync_directory (parent_path t))"
  have body: "unlinking_on_error p (bind_io (copy_file_secure src p st ''backup'' ''rollback file'')
      (\<lambda>_. ?m)) u = (r, v)"
    using assms(1) unfolding restore_from_backup_def 
      bind_io_Inr [where m = "unique_sibling_path t ''.rollback''", OF u [unfolded r1]] .
  have h: "hoare (\<lambda>w'. ready u w' p t P) ?m (\<lambda>_ w'. in_place u p t P w' \<and> on_disk w' t = [lookup w' t])
      (\<lambda>_. failed_swap u p t P)"
    by (rule hoare_bind [OF hoare_swap_rename [OF pt]], rule hoare_swap_fsync)
  have "failed_swap u p t P v \<and> (r = Inr () \<longrightarrow> in_place u p t P v \<and> on_disk v t = [lookup v t] \<and> lookup u src \<noteq> None)"
    by (rule copy_then_swap [OF body quiet_wf [OF q assms(2)] pt _ h])
       (use assms(3) q in \<open>auto simp: quiet_def\<close>)
  moreover have "p \<in> siblings t ''.rollback''" by (auto simp: siblings_def p_def)
  ultimately show ?thesis using failed_swap_left [OF q] in_place_left [OF q] by (intro bexI [of _ p]) auto
qed

section \<open>Composing the stages\<close>

lemma installs_trans:
  assumes "installs w v t P" "installs v u t Q" "frame (next_inode v) S v u" "next_inode w \<le> next_inode v"
  shows "installs w u t (\<lambda>n. P n \<or> Q n)"
  unfolding installs_def
proof
  fix b
  assume "b \<in> set (on_disk u t)"
  then consider "b \<in> set (on_disk v t)"
    | j where "b = Some j" "next_inode v \<le> j" "j < next_inode u" "Q (inodes u j)"
    using assms(2) by (auto simp: installs_def)
  then show "b \<in> set (on_disk w t) \<or>
      (\<exists>j. b = Some j \<and> next_inode w \<le> j \<and> j < next_inode u \<and> (P (inodes u j) \<or> Q (inodes u j)))"
  proof cases
    case 1
    with assms(1) consider "b \<in> set (on_disk w t)"
      | j where "b = Some j" "next_inode w \<le> j" "j < next_inode v" "P (inodes v j)"
      by (auto simp: installs_def)
    then show ?thesis using assms(3) by cases (auto simp: frame_def)
  next
    case 2
    with assms(4) show ?thesis by auto
  qed
qed

lemma installs_weaken: "installs w v t P \<Longrightarrow> (\<And>n. P n \<Longrightarrow> Q n) \<Longrightarrow> installs w v t Q"
  by (auto simp: installs_def)

lemma swapped_frame:
  "swapped w v p P \<Longrightarrow> frame (next_inode v) S v u \<Longrightarrow> p \<notin> S \<Longrightarrow> swapped w u p P \<and> lookup u p = lookup v p"
  by (auto simp: swapped_def frame_def)

lemma swapped_left: "swapped v u p P \<Longrightarrow> next_inode w \<le> next_inode v \<Longrightarrow> swapped w u p P"
  by (auto simp: swapped_def)

definition touched :: "path \<Rightarrow> path set" where
  "touched t = {t} \<union> siblings t ''.tmp'' \<union> siblings t ''.bak'' \<union> siblings t ''.rollback''"

lemma sibling_in_touched [simp]:
  "sibling t ''.tmp'' p n \<in> touched t" "sibling t ''.bak'' p n \<in> touched t"
  "sibling t ''.rollback'' p n \<in> touched t" "t \<in> touched t"
  by (auto simp: touched_def siblings_def)

lemma siblings_subset_touched:
  "siblings t ''.tmp'' \<subseteq> touched t" "siblings t ''.bak'' \<subseteq> touched t" "siblings t ''.rollback'' \<subseteq> touched t"
  by (auto simp: touched_def)

lemma sibling_not_Nil [simp]: "sfx \<noteq> [] \<Longrightarrow> sibling t sfx p n \<noteq> []"
  by (auto simp: sibling_def path_append_def)

lemma make_backup_spec:
  assumes "make_backup t (dir_of t) st w = (r, v)" "world_ok w" "lookup w t = Some i"
  shows "\<exists>b p n. b = sibling t ''.bak'' p n \<and> frame (next_inode w) {b} w v \<and>
    (\<forall>x. r = Inr x \<longrightarrow> x = b \<and> swapped w v b (copied (ino_data (inodes w i)) st) \<and> on_disk v b = [lookup v b])"
proof -
  let ?k = "next_inode w"
  obtain r0 u0 where 0: "unique_sibling_path t ''.bak'' w = (r0, u0)" by force
  define b where "b = sibling t ''.bak'' (pid w) (ticks w (clock_reads w))"
  note s0 = unique_sibling_path_spec [OF 0]
  have q0: "quiet w u0" and r0: "r0 = Inr b" using s0 by (auto simp: b_def)
  obtain r1 u1 where 1: "copy_file_secure t b st ''source'' ''backup'' u0 = (r1, u1)" by force
  note s1 = copy_file_secure_spec [OF 1 quiet_wf [OF q0 assms(2)]]
  have e0: "lookup u0 = lookup w" "inodes u0 = inodes w" "next_inode u0 = ?k" using q0 by (simp_all add: quiet_def)
  have f1: "frame ?k {b} w u1" using s1 e0 frame_quiet_left [OF q0] by auto
  have main: "frame ?k {b} w v \<and>
    (\<forall>x. r = Inr x \<longrightarrow> x = b \<and> swapped w v b (copied (ino_data (inodes w i)) st) \<and> on_disk v b = [lookup v b])"
  proof (cases r1)
    case (Inl e)
    then have "v = u1" "\<exists>e. r = Inl e" using assms(1) 0 r0 1
      by (simp_all add: make_backup_def bind_io_def) blast
    with f1 show ?thesis by auto
  next
    case (Inr x)
    obtain r2 u2 where 2: "fsync_directory (dir_of t) u1 = (r2, u2)" by force
    note s2 = fsync_directory_spec [OF 2 f1]
    have sw: "swapped w u1 b (copied (ino_data (inodes w i)) st)"
      using s1 Inr assms(3) e0 by (auto simp: swapped_def)
    have d: "dir_of b = dir_of t" by (simp add: b_def)
    have ne: "dir_of t \<noteq> []" by (simp add: dir_of_def)
    have "v = u2" "(\<exists>e. r = Inl e) \<or> r = Inr b \<and> r2 = Inr ()" using assms(1) 0 r0 1 2 Inr
      by (cases r2; simp add: make_backup_def bind_io_def ret_def; blast)+
    moreover have "swapped w u2 b (copied (ino_data (inodes w i)) st)"
      using sw s2 by (auto simp: swapped_def)
    moreover have "r2 = Inr () \<Longrightarrow> on_disk u2 b = [lookup u2 b]" using s2 d ne by auto
    ultimately show ?thesis using s2 by auto
  qed
  then show ?thesis using b_def by blast
qed

definition rollback_failed :: "exn \<Rightarrow> bool" where
  "rollback_failed e \<longleftrightarrow> (\<exists>b. e = Runtime_error (''apply failed and automatic rollback also failed; backup: '' @ b))"

text \<open>The recovery of an existing target after a failed installation.\<close>

lemma attempt_total: "\<exists>r u. attempt m w = (Inr r, u)"
  by (cases "m w") (simp add: attempt_def)

lemma ignore_sys_run: "ignore_sys m w = (Inr (), snd (m w))"
  by (simp add: ignore_sys_def)

lemma recover_plain:
  "recover plan d p (Some st) [] e w = (Inl e, snd (sys_unlink p w))"
  by (simp add: recover_def bind_io_def ignore_sys_run throw_def)

lemma recover_existing_spec:
  assumes "recover plan d p (Some st) b e w = (r, v)" "b \<noteq> []" "world_ok w" "b \<notin> {p, plan_target plan}"
    and "p \<noteq> plan_target plan" "p \<in> touched (plan_target plan)"
    and "lookup w b = Some j" "P = copied (ino_data (inodes w j)) st"
  shows "frame (next_inode w) (touched (plan_target plan)) w v \<and> installs w v (plan_target plan) P \<and>
    ((\<exists>b. r = Inl (Runtime_error (''apply failed and automatic rollback also failed; backup: '' @ b))) \<or>
     r = Inl e \<and> swapped w v (plan_target plan) P \<and>
       on_disk v (plan_target plan) = [lookup v (plan_target plan)])"
proof -
  let ?t = "plan_target plan" and ?T = "touched (plan_target plan)"
  have f0: "frame (next_inode w) {p} w w" using assms(3) by (intro frame_refl) simp_all
  obtain r1 u1 where 1: "sys_unlink p w = (r1, u1)" by force
  note s1 = sys_unlink_spec [OF 1 f0 singletonI]
  have f1: "frame (next_inode w) {p} w u1" using s1 by simp
  have i1: "installs w u1 ?t P" using f1 assms(5) by (auto intro: installs_frame)
  have e1: "next_inode u1 = next_inode w" "inodes u1 = inodes w" "lookup u1 b = Some j" using s1 assms(4,7) by auto
  obtain r2 u2 where 2: "restore_from_backup b ?t st u1 = (r2, u2)" by force
  have "\<exists>q\<in>siblings ?t ''.rollback''. failed_swap u1 q ?t P u2 \<and>
    (r2 = Inr () \<longrightarrow> in_place u1 q ?t P u2 \<and> on_disk u2 ?t = [lookup u2 ?t])"
    by (rule restore_from_backup_spec [OF 2 frame_wf [OF f1]]) (use e1 assms(8) in auto)
  then obtain q where q: "q \<in> siblings ?t ''.rollback''" "failed_swap u1 q ?t P u2"
    "r2 = Inr () \<longrightarrow> in_place u1 q ?t P u2 \<and> on_disk u2 ?t = [lookup u2 ?t]" by blast
  have f2: "frame (next_inode u1) {q, ?t} u1 u2" "installs u1 u2 ?t P" using q(2) by (auto simp: failed_swap_def)
  have qT: "{q, ?t} \<subseteq> ?T" "{p} \<subseteq> ?T" using subsetD [OF siblings_subset_touched(3) q(1)] assms(6) by simp_all
  have f: "frame (next_inode w) ?T w u2"
    by (rule frame_trans [OF f1 f2(1) _ qT(2,1)]) (simp add: e1)
  have i: "installs w u2 ?t P"
    using installs_trans [OF i1 f2(2,1)] e1 by (auto simp: installs_def)
  have run: "r = (case r2 of Inl _ \<Rightarrow> Inl (Runtime_error (''apply failed and automatic rollback also failed; backup: '' @ b))
         | Inr _ \<Rightarrow> Inl e) \<and> v = u2"
    using assms(1,2) 1 2 by (auto simp: recover_def bind_io_def ignore_sys_run attempt_def throw_def split: sum.splits)
  then have v: "v = u2" by simp
  show ?thesis
  proof (cases r2)
    case (Inl e')
    with run f i v show ?thesis by auto
  next
    case (Inr x)
    then have "in_place u1 q ?t P u2" "on_disk u2 ?t = [lookup u2 ?t]" using q(3) by auto
    moreover from this have "swapped w u2 ?t P" using e1 by (auto simp: in_place_def swapped_def)
    moreover have "r = Inl e" using run Inr by simp
    ultimately show ?thesis using f i v by simp
  qed
qed

definition old_copy :: "inode \<Rightarrow> inode \<Rightarrow> bool" where
  "old_copy n = copied (ino_data n) (stat_of n)"

definition generated_file :: "change_plan \<Rightarrow> stat \<Rightarrow> inode \<Rightarrow> bool" where
  "generated_file plan st = new_file (plan_generated plan) (st_perm st) (st_uid st) (st_gid st)"

text \<open>What the replacement of an existing file \<open>n\<close>, number \<open>i\<close>, may lead to.\<close>

definition replacement :: "change_plan \<Rightarrow> nat \<Rightarrow> inode \<Rightarrow> world \<Rightarrow> world \<Rightarrow> apply_result result \<Rightarrow> bool" where
  "replacement plan i n w v r \<longleftrightarrow>
     (let t = plan_target plan; new = generated_file plan (stat_of n) in
      frame (next_inode w) (touched t) w v \<and>
      installs w v t (\<lambda>m. new m \<or> old_copy n m) \<and>
      (case r of
         Inr x \<Rightarrow> swapped w v t new \<and> on_disk v t = [lookup v t] \<and> ar_changed x \<and> ar_target x = t \<and>
           ar_backup x \<in> siblings t ''.bak'' \<and> swapped w v (ar_backup x) (old_copy n) \<and>
           set (on_disk v (ar_backup x)) = {lookup v (ar_backup x)}
       | Inl e \<Rightarrow> lookup v t = Some i \<or> swapped w v t (old_copy n) \<and> on_disk v t = [lookup v t] \<or> rollback_failed e))"

lemma replace_existing_spec:
  assumes "replace_target plan (dir_of (plan_target plan)) (Some (stat_of n)) w = (r, v)" "world_ok w"
    and "lookup w (plan_target plan) = Some i" "inodes w i = n"
  shows "replacement plan i n w v r"
proof -
  let ?t = "plan_target plan" and ?T = "touched (plan_target plan)" and ?k = "next_inode w"
  let ?st = "stat_of n"
  obtain r0 u0 where 0: "unique_sibling_path ?t ''.tmp'' w = (r0, u0)" by force
  define p where "p = sibling ?t ''.tmp'' (pid w) (ticks w (clock_reads w))"
  note s0 = unique_sibling_path_spec [OF 0]
  have q0: "quiet w u0" and r0: "r0 = Inr p" using s0 by (auto simp: p_def)
  have e0: "lookup u0 = lookup w" "inodes u0 = inodes w" "next_inode u0 = ?k" using q0 by (simp_all add: quiet_def)
  have pt: "p \<noteq> ?t" "p \<in> ?T" by (simp_all add: p_def)
  obtain r1 u1 where 1: "make_backup ?t (dir_of ?t) ?st u0 = (r1, u1)" by force
  obtain b m1 m2 where b: "b = sibling ?t ''.bak'' m1 m2" and fb: "frame (next_inode u0) {b} u0 u1"
    and sb: "\<forall>x. r1 = Inr x \<longrightarrow> x = b \<and> swapped u0 u1 b (copied (ino_data (inodes u0 i)) ?st) \<and> on_disk u1 b = [lookup u1 b]"
    using make_backup_spec [OF 1 quiet_wf [OF q0 assms(2)], of i] e0 assms(3) by auto
  have f1: "frame ?k {b} w u1" using frame_quiet_left [OF q0] fb e0 by simp
  have bt: "b \<noteq> ?t" "b \<noteq> p" "b \<in> ?T" "b \<in> siblings ?t ''.bak''" "b \<noteq> []"
    using sibling_neq_sibling [of "''.bak''" "''.tmp''" ?t] by (auto simp: b p_def siblings_def)
  have i1: "installs w u1 ?t X" for X using f1 bt by (auto intro: installs_frame)
  have l1: "lookup u1 ?t = Some i" using f1 bt assms(3) by (auto simp: frame_def)
  show ?thesis
  proof (cases r1)
    case (Inl e)
    have run: "r = Inl e" "v = snd (sys_unlink p u1)" using assms(1) 0 r0 1 Inl
      by (simp_all add: replace_target_def bind_io_def gets_def attempt_def recover_plain stat_of_def)
    obtain r2 u2 where 2: "sys_unlink p u1 = (r2, u2)" by force
    have fT: "frame ?k ?T w u1" by (rule frame_weaken [OF f1]) (use bt in auto)
    note s2 = sys_unlink_spec [OF 2 fT pt(2)]
    have "lookup v ?t = Some i" "frame ?k ?T w v" "installs w v ?t X" for X
      using run s2 2 l1 pt installs_unlink [OF i1 fT pt(2,1)] by auto
    then show ?thesis using run by (simp add: replacement_def Let_def)
  next
    case (Inr x)
    then have x: "x = b" and swb: "swapped w u1 b (old_copy n)" and db: "on_disk u1 b = [lookup u1 b]"
      using sb e0 assms(4) by (auto simp: old_copy_def swapped_def)
    obtain r2 u2 where 2: "install_generated plan (dir_of ?t) p b (st_perm ?st) (st_uid ?st) (st_gid ?st) u1 = (r2, u2)"
      by force
    note s2 = install_generated_spec [OF 2 frame_wf [OF f1] pt(1), folded generated_file_def]
    have f2: "frame (next_inode u1) {p, ?t} u1 u2" "installs u1 u2 ?t (generated_file plan ?st)"
      using s2 by (auto simp: failed_swap_def)
    have k1: "?k \<le> next_inode u1" using f1 by (simp add: frame_def)
    have k2: "next_inode u1 \<le> next_inode u2" using f2(1) by (simp add: frame_def)
    have f12: "frame ?k ?T w u2" by (rule frame_trans [OF f1 f2(1) k1]) (use bt pt in auto)
    have i2: "installs w u2 ?t (generated_file plan ?st)"
      using installs_trans [OF i1 f2(2,1) k1, of "generated_file plan ?st"] by simp
    have sb2: "swapped w u2 b (old_copy n)" "lookup u2 b = lookup u1 b"
      using swapped_frame [OF swb f2(1)] bt by auto
    show ?thesis
    proof (cases r2)
      case i2': (Inr y)
      have run: "r = Inr y" "v = u2" using assms(1) 0 r0 1 Inr x 2 i2'
        by (simp_all add: replace_target_def bind_io_def gets_def attempt_def ret_def)
      have ip: "in_place u1 p ?t (generated_file plan ?st) u2" "on_disk u2 ?t = [lookup u2 ?t]"
        "y = \<lparr>ar_changed = True, ar_target = ?t, ar_backup = b\<rparr>" using s2 i2' by auto
      have "swapped w u2 ?t (generated_file plan ?st)"
        using ip(1) k1 by (auto simp: in_place_def intro: swapped_left)
      moreover have "set (on_disk u2 b) = {lookup u2 b}"
      proof -
        have "b \<notin> {p, ?t}" using bt by simp
        then have "set (on_disk u2 b) \<subseteq> set (on_disk u1 b)" using f2(1) unfolding frame_def by blast
        then have "set (on_disk u2 b) \<subseteq> {lookup u1 b}" using db by simp
        moreover have "lookup u2 b \<in> set (on_disk u2 b)" using frame_wf [OF f2(1)] by (simp add: world_ok_def)
        ultimately show ?thesis using sb2(2) by auto
      qed
      ultimately show ?thesis using run ip f12 sb2 bt installs_weaken [OF i2]
        by (simp add: replacement_def Let_def)
    next
      case (Inl e)
      have run: "recover plan (dir_of ?t) p (Some ?st) b e u2 = (r, v)" using assms(1) 0 r0 1 Inr x 2 Inl
        by (simp add: replace_target_def bind_io_def gets_def attempt_def)
      obtain j where j: "lookup u2 b = Some j" "old_copy n (inodes u2 j)" using sb2(1) by (auto simp: swapped_def)
      have P: "old_copy n = copied (ino_data (inodes u2 j)) ?st"
        using j(2) by (simp add: old_copy_def copied_def holds_def fun_eq_iff)
      have bn: "b \<notin> {p, ?t}" using bt by auto
      note s3 = recover_existing_spec [OF run bt(5) frame_wf [OF f12] bn pt j(1) P]
      have k: "?k \<le> next_inode u2" using k1 k2 by simp
      have f3: "frame ?k ?T w v"
        by (rule frame_trans [OF f12 conjunct1 [OF s3]]) (simp_all add: k)
      have "installs w v ?t (\<lambda>m. generated_file plan ?st m \<or> old_copy n m)"
        by (rule installs_trans [OF i2 _ conjunct1 [OF s3] k]) (use s3 in blast)
      moreover have "(\<exists>b. r = Inl (Runtime_error (''apply failed and automatic rollback also failed; backup: '' @ b))) \<or>
          r = Inl e \<and> swapped w v ?t (old_copy n) \<and> on_disk v ?t = [lookup v ?t]"
        using s3 k by (auto intro: swapped_left)
      ultimately show ?thesis using f3 by (auto simp: replacement_def Let_def rollback_failed_def)
    qed
  qed
qed

definition created_file :: "change_plan \<Rightarrow> world \<Rightarrow> inode \<Rightarrow> bool" where
  "created_file plan w = new_file (plan_generated plan) 0x1A4 (euid w) (egid w)"

definition creation :: "change_plan \<Rightarrow> world \<Rightarrow> world \<Rightarrow> apply_result result \<Rightarrow> bool" where
  "creation plan w v r \<longleftrightarrow>
     (let t = plan_target plan; new = created_file plan w in
      frame (next_inode w) (touched t) w v \<and>
      installs w v t new \<and>
      (case r of
         Inr x \<Rightarrow> swapped w v t new \<and> on_disk v t = [lookup v t] \<and>
           x = \<lparr>ar_changed = True, ar_target = t, ar_backup = []\<rparr>
       | Inl e \<Rightarrow> lookup v t = None \<or> swapped w v t new))"

lemma recover_created_spec:
  assumes "recover plan (dir_of (plan_target plan)) p None [] e w = (r, v)" "frame (next_inode w0) (touched (plan_target plan)) w0 w"
    and "installs w0 w (plan_target plan) P" "lookup w0 (plan_target plan) = None" "world_ok w0"
    and "p \<noteq> plan_target plan" "p \<in> touched (plan_target plan)"
    and "lookup w (plan_target plan) = None \<or> swapped w0 w (plan_target plan) P"
  shows "r = Inl e \<and> frame (next_inode w0) (touched (plan_target plan)) w0 v \<and> installs w0 v (plan_target plan) P \<and>
    (lookup v (plan_target plan) = None \<or> swapped w0 v (plan_target plan) P)"
proof -
  let ?t = "plan_target plan" and ?T = "touched (plan_target plan)"
  obtain r1 u1 where 1: "sys_unlink p w = (r1, u1)" by force
  note s1 = sys_unlink_spec [OF 1 assms(2,7)]
  have f1: "frame (next_inode w0) ?T w0 u1" using s1 by blast
  have e1: "lookup u1 ?t = lookup w ?t" "on_disk u1 ?t = on_disk w ?t" "inodes u1 = inodes w" "next_inode u1 = next_inode w"
    using s1 assms(6) by auto
  obtain r2 u2 where 2: "sys_unlink ?t u1 = (r2, u2)" by force
  note s2 = sys_unlink_spec [OF 2 f1 sibling_in_touched(4)]
  have f2: "frame (next_inode w0) ?T w0 u2" using s2 by blast
  have N: "None \<in> set (on_disk w0 ?t)" using assms(4,5) by (metis world_ok_def)
  have i2: "installs w0 u2 ?t P"
    using assms(3) s2 e1 N by (auto simp: installs_def)
  have l2: "lookup u2 ?t = None \<or> swapped w0 u2 ?t P"
    using assms(8) s2 e1 by (auto simp: swapped_def)
  obtain r3 u3 where 3: "fsync_directory (dir_of ?t) u2 = (r3, u3)" by force
  note s3 = fsync_directory_spec [OF 3 f2]
  have "r = Inl e \<and> v = u3" using assms(1) 1 2 3
    by (auto simp: recover_def bind_io_def ignore_sys_run attempt_def throw_def)
  moreover have "installs w0 u3 ?t P" by (rule installs_fsync_directory [OF i2 f2 3])
  ultimately show ?thesis using s3 l2 by (auto simp: swapped_def)
qed

lemma replace_created_spec:
  assumes "replace_target plan (dir_of (plan_target plan)) None w = (r, v)" "world_ok w"
    and "lookup w (plan_target plan) = None"
  shows "creation plan w v r"
proof -
  let ?t = "plan_target plan" and ?T = "touched (plan_target plan)" and ?k = "next_inode w"
  let ?new = "created_file plan w"
  obtain r0 u0 where 0: "unique_sibling_path ?t ''.tmp'' w = (r0, u0)" by force
  define p where "p = sibling ?t ''.tmp'' (pid w) (ticks w (clock_reads w))"
  note s0 = unique_sibling_path_spec [OF 0]
  have q0: "quiet w u0" and r0: "r0 = Inr p" using s0 by (auto simp: p_def)
  have pt: "p \<noteq> ?t" "p \<in> ?T" by (simp_all add: p_def)
  obtain r2 u2 where 2: "install_generated plan (dir_of ?t) p [] 0x1A4 (euid w) (egid w) u0 = (r2, u2)" by force
  note s2 = install_generated_spec [OF 2 quiet_wf [OF q0 assms(2)] pt(1), folded created_file_def]
  have fs: "failed_swap w p ?t ?new u2" using s2 failed_swap_left [OF q0] by blast
  then have f2: "frame ?k {p, ?t} w u2" and i2: "installs w u2 ?t ?new" by (auto simp: failed_swap_def)
  have f2T: "frame ?k ?T w u2" by (rule frame_weaken [OF f2]) (use pt in auto)
  show ?thesis
  proof (cases r2)
    case (Inr y)
    have run: "r = Inr y" "v = u2" using assms(1) 0 r0 2 Inr
      by (simp_all add: replace_target_def bind_io_def gets_def attempt_def ret_def)
    have "in_place u0 p ?t ?new u2" using s2 Inr by blast
    then have "in_place w p ?t ?new u2" by (rule in_place_left [OF q0])
    then have "swapped w u2 ?t ?new" by (simp add: in_place_def)
    then show ?thesis using run s2 Inr f2T i2 by (simp add: creation_def Let_def)
  next
    case (Inl e)
    have run: "recover plan (dir_of ?t) p None [] e u2 = (r, v)" using assms(1) 0 r0 2 Inl
      by (simp add: replace_target_def bind_io_def gets_def attempt_def ret_def)
    have "lookup u2 ?t = None \<or> swapped w u2 ?t ?new"
      using fs assms(3) by (auto simp: failed_swap_def)
    from recover_created_spec [OF run f2T i2 assms(3,2) pt this] show ?thesis
      by (auto simp: creation_def Let_def)
  qed
qed

section \<open>The whole operation\<close>

definition runtime_names :: "path \<Rightarrow> path set" where
  "runtime_names rd = insert (path_append rd ''apply.lock'') (set (ancestors (length rd) rd))"

lemma make_directories_frame:
  "frame k S w0 w \<Longrightarrow> set ps \<subseteq> S \<Longrightarrow> make_directories ps w = (r, v) \<Longrightarrow> frame k S w0 v"
proof (induction ps w arbitrary: r v rule: make_directories.induct)
  case (2 p ps w)
  show ?case
  proof (cases "resolve 40 w p")
    case None
    show ?thesis
    proof (cases "lookup w p")
      case (Some i)
      with None 2 show ?thesis by simp
    next
      case n: None
      let ?i = "next_inode w"
      let ?u = "(set_inode ?i (fresh_directory w) w)\<lparr>next_inode := ?i + 1\<rparr>"
      have k: "k \<le> ?i" using 2(3) by (auto simp: frame_def)
      have "frame k S w0 ?u" by (intro frame_intros 2(3) k) simp
      then have "frame k S w0 (set_name p (Some ?i) ?u)"
        by (rule frame_set_name) (use 2(4) in auto)
      moreover have "set_name p (Some ?i) ?u = (set_name p (Some ?i) (set_inode ?i (fresh_directory w) w))\<lparr>next_inode := ?i + 1\<rparr>"
        by (simp add: set_name_def)
      ultimately have f: "frame k S w0 ((set_name p (Some ?i) (set_inode ?i (fresh_directory w) w))\<lparr>next_inode := ?i + 1\<rparr>)"
        by simp
      have nn: "\<not> lookup w p \<noteq> None" using n by simp
      have "make_directories ps ((set_name p (Some ?i) (set_inode ?i (fresh_directory w) w))\<lparr>next_inode := ?i + 1\<rparr>) = (r, v)"
        using 2(5) None n by (simp add: Let_def)
      from 2(1) [OF None nn refl f _ this] 2(4) show ?thesis by simp
    qed
  next
    case (Some i)
    show ?thesis
    proof (cases "ino_kind (inodes w i) = Dir")
      case True
      with 2(5) Some have "make_directories ps w = (r, v)" by simp
      from 2(2) [OF Some True 2(3) _ this] 2(4) show ?thesis by simp
    next
      case False
      with 2(3,5) Some show ?thesis by simp
    qed
  qed
qed simp

lemma prepare_runtime_spec:
  assumes "prepare_runtime rd w = (r, v)" "frame k S w0 w" "runtime_names rd \<subseteq> S"
  shows "frame k S w0 v"
proof -
  obtain r1 u1 where 1: "create_directories rd w = (r1, u1)" by force
  have f1: "frame k S w0 u1"
    using 1 unfolding create_directories_def
  proof (cases rule: syscall1_cases)
    case (failed e)
    then show ?thesis using assms(2) by (auto intro: frame_quiet)
  next
    case (acted s)
    have f: "frame k S w0 (w\<lparr>script := s\<rparr>)" using assms(2) by (rule frame_env_updates)
    have "set (ancestors (length rd) rd) \<subseteq> S" using assms(3) unfolding runtime_names_def by blast
    from make_directories_frame [OF f this acted(2)] show ?thesis .
  qed
  obtain r2 u2 where 2: "sys_lstat rd u1 = (r2, u2)" by force
  have f2: "frame k S w0 u2" using sys_lstat_spec [OF 2] f1 by (auto intro: frame_quiet)
  have "v = u1 \<or> v = u2"
  proof (cases r1)
    case (Inl e)
    with assms(1) 1 show ?thesis by (simp add: prepare_runtime_def bind_io_def or_throw_def)
  next
    case (Inr x)
    with assms(1) 1 2 show ?thesis
      by (cases r2) (auto simp: prepare_runtime_def bind_io_def or_throw_def throw_def ret_def split: if_splits)
  qed
  with f1 f2 show ?thesis by auto
qed

lemma sys_open_create_frame:
  assumes "sys_open_create p perm w = (r, v)" "frame k S w0 w" "p \<in> S"
  shows "frame k S w0 v"
  using assms(1) unfolding sys_open_create_def
proof (cases rule: syscall1_cases)
  case (failed e)
  with assms(2) show ?thesis by (auto intro: frame_quiet)
next
  case (acted s)
  have f: "frame k S w0 (w\<lparr>script := s\<rparr>)" using assms(2) by (rule frame_env_updates)
  show ?thesis
  proof (cases "lookup w p")
    case None
    with acted have "create_file p perm (w\<lparr>script := s\<rparr>) = (r, v)" by simp
    with frame_create_file [OF f assms(3)] show ?thesis by blast
  next
    case (Some i)
    with acted have "v = w\<lparr>script := s\<rparr>" by (cases "ino_kind (inodes w i)") auto
    with f show ?thesis by simp
  qed
qed

lemma take_lock_quiet: "take_lock p fd w = (r, v) \<Longrightarrow> quiet w v"
proof -
  assume a: "take_lock p fd w = (r, v)"
  obtain r1 u where 1: "sys_flock fd w = (r1, u)" by force
  have "quiet w u" using 1 unfolding sys_flock_def
    by (cases rule: syscall1_cases) (auto simp: quiet_def split: if_splits)
  with a 1 show ?thesis by (cases r1) (auto simp: take_lock_def or_throw_def)
qed

lemma inspect_target_spec:
  "inspect_target plan w = (r, v) \<Longrightarrow> quiet w v \<and>
     (\<forall>st. r = Inr (Some st) \<longrightarrow> st_kind st = Regular \<and> (\<exists>i. lookup w (plan_target plan) = Some i \<and> st = stat_of (inodes w i))) \<and>
     (r = Inr None \<longrightarrow> lookup w (plan_target plan) = None)"
proof -
  assume a: "inspect_target plan w = (r, v)"
  obtain r1 u where 1: "sys_lstat (plan_target plan) w = (r1, u)" by force
  note s = sys_lstat_spec [OF 1]
  from a 1 s show ?thesis
    by (cases r1) (auto simp: inspect_target_def bind_io_def try_sys_def throw_def ret_def
        split: if_splits file_kind.splits)
qed

lemma check_unchanged_spec:
  "check_unchanged plan w = (r, v) \<Longrightarrow> quiet w v \<and>
     (\<forall>i. r = Inr () \<and> lookup w (plan_target plan) = Some i \<longrightarrow>
        normalize_newline (ino_data (inodes w i)) = plan_installed plan)"
proof -
  assume a: "check_unchanged plan w = (r, v)"
  obtain r1 u1 where 1: "sys_open_read (plan_target plan) w = (r1, u1)" by force
  note s1 = sys_open_read_spec [OF 1]
  show ?thesis
  proof (cases r1)
    case (Inl e)
    with a 1 s1 show ?thesis by (auto simp: check_unchanged_def bind_io_def or_throw_def)
  next
    case (Inr fd)
    obtain r2 u2 where 2: "read_all fd (plan_target plan) u1 = (r2, u2)" by force
    note s2 = read_all_spec [OF 2]
    have "quiet w u2" using s1 s2 quiet_trans by blast
    moreover have "inodes u1 = inodes w" using s1 by (simp add: quiet_def)
    ultimately show ?thesis using a 1 2 Inr s1 s2
      by (cases r2) (auto simp: check_unchanged_def bind_io_def or_throw_def throw_def ret_def split: if_splits)
  qed
qed

lemma quiet_release_lock [simp]: "quiet w (release_lock fd w)"
  by (simp add: release_lock_def)

lemma quiet_commit: "frame k S w0 w \<Longrightarrow> frame k S w0 (release_lock fd w)"
  by (erule frame_quiet) simp

lemma apply_inspected_stages:
  assumes "apply_inspected plan (dir_of (plan_target plan)) target_metadata w = (r, v)" "world_ok w"
    and "inspect_target plan w0 = (Inr target_metadata, w)" "has_changes plan"
  obtains (early) e where "r = Inl e" "quiet w v"
    | (existing) u i where "quiet w u" "lookup w (plan_target plan) = Some i" "plan_kind plan = Update"
        "ino_kind (inodes w i) = Regular"
        "normalize_newline (ino_data (inodes w i)) = plan_installed plan" "replacement plan i (inodes w i) u v r"
    | (fresh) "lookup w (plan_target plan) = None" "plan_kind plan = Create" "creation plan w v r"
proof -
  let ?t = "plan_target plan"
  have q0: "quiet w0 w" using inspect_target_spec [OF assms(3)] by simp
  have e0: "lookup w = lookup w0" "inodes w = inodes w0" using q0 by (simp_all add: quiet_def)
  show ?thesis
  proof (cases target_metadata)
    case None
    have l: "lookup w ?t = None" using inspect_target_spec [OF assms(3)] None e0 by simp
    show ?thesis
    proof (cases "plan_kind plan = Update")
      case True
      with assms(1) None show ?thesis by (intro early [of "Runtime_error ''target disappeared after planning; run plan again''"])
          (simp_all add: apply_inspected_def throw_def)
    next
      case False
      then have c: "plan_kind plan = Create" using assms(4) by (cases "plan_kind plan") (auto simp: has_changes_def)
      have "replace_target plan (dir_of ?t) None w = (r, v)"
        using assms(1) None False by (simp add: apply_inspected_def bind_io_def ret_def)
      from replace_created_spec [OF this assms(2) l] l c show ?thesis by (intro fresh)
    qed
  next
    case (Some st)
    obtain i where i: "lookup w ?t = Some i" "st = stat_of (inodes w i)" "ino_kind (inodes w i) = Regular"
      using inspect_target_spec [OF assms(3)] Some e0 by (auto simp: stat_of_def)
    show ?thesis
    proof (cases "plan_kind plan = Create")
      case True
      with assms(1) Some show ?thesis by (intro early [of "Runtime_error ''target appeared after planning; run plan again''"])
          (simp_all add: apply_inspected_def throw_def)
    next
      case False
      then have c: "plan_kind plan = Update" using assms(4) by (cases "plan_kind plan") (auto simp: has_changes_def)
      obtain r1 u where 1: "check_unchanged plan w = (r1, u)" by force
      note s1 = check_unchanged_spec [OF 1]
      have q1: "quiet w u" using s1 by simp
      show ?thesis
      proof (cases r1)
        case (Inl e)
        with assms(1) Some c 1 q1 show ?thesis
          by (intro early [of e]) (simp_all add: apply_inspected_def bind_io_def)
      next
        case (Inr x)
        then have n: "normalize_newline (ino_data (inodes w i)) = plan_installed plan" using s1 i(1) by simp
        have run: "replace_target plan (dir_of ?t) (Some st) u = (r, v)"
          using assms(1) Some c 1 Inr by (simp add: apply_inspected_def bind_io_def)
        have eu: "lookup u = lookup w" "inodes u = inodes w" using q1 by (simp_all add: quiet_def)
        have "replacement plan i (inodes w i) u v r"
          by (rule replace_existing_spec [OF _ quiet_wf [OF q1 assms(2)]]) (use run eu i in auto)
        with q1 i c n show ?thesis by (intro existing)
      qed
    qed
  qed
qed

lemma apply_stages:
  assumes "apply_plan rd plan w = (r, v)" "world_ok w" "has_changes plan"
  obtains (early) e where "r = Inl e" "frame (next_inode w) (runtime_names rd) w v"
    | (existing) u i v' fd where "frame (next_inode w) (runtime_names rd) w u" "lookup u (plan_target plan) = Some i"
        "plan_kind plan = Update" "ino_kind (inodes u i) = Regular"
        "normalize_newline (ino_data (inodes u i)) = plan_installed plan"
        "replacement plan i (inodes u i) u v' r" "v = release_lock fd v'"
    | (fresh) u v' fd where "frame (next_inode w) (runtime_names rd) w u" "lookup u (plan_target plan) = None"
        "plan_kind plan = Create" "creation plan u v' r" "v = release_lock fd v'"
proof -
  let ?k = "next_inode w" and ?R = "runtime_names rd" and ?t = "plan_target plan"
  let ?lock = "path_append rd ''apply.lock''"
  have f0: "frame ?k ?R w w" using assms(2) by (intro frame_refl) simp_all
  have lock: "?lock \<in> ?R" by (simp add: runtime_names_def)
  show ?thesis
  proof (cases "?t = [] \<or> filename ?t = [] \<or> rd = []")
    case True
    then have "v = w" "\<exists>e. r = Inl e" using assms(1,3)
      by (auto simp: apply_plan_def throw_def split: if_splits)
    with f0 early show ?thesis by blast
  next
    case False
    obtain r1 u1 where 1: "prepare_runtime rd w = (r1, u1)" by force
    have f1: "frame ?k ?R w u1" using prepare_runtime_spec [OF 1 f0] by simp
    define body where "body fd = bind_io (take_lock ?lock fd) (\<lambda>_. bind_io (inspect_target plan) (\<lambda>st.
        apply_inspected plan (dir_of ?t) st))" for fd
    have run1: "bind_io (prepare_runtime rd) (\<lambda>_. bind_io (or_throw (sys_open_create ?lock 0x180)
        (errno_error ''cannot open lock'' ?lock)) (\<lambda>fd. finally_io (body fd) (release_lock fd))) w = (r, v)"
      using assms(1,3) False by (simp add: apply_plan_def body_def Let_def)
    show ?thesis
    proof (cases r1)
      case (Inl e)
      with run1 1 have "v = u1" "r = Inl e" by (simp_all add: bind_io_def)
      with f1 early show ?thesis by blast
    next
      case (Inr x1)
      obtain r2 u2 where 2: "sys_open_create ?lock 0x180 u1 = (r2, u2)" by force
      have f2: "frame ?k ?R w u2" by (rule sys_open_create_frame [OF 2 f1 lock])
      show ?thesis
      proof (cases r2)
        case (Inl e)
        with run1 1 2 Inr have "v = u2" "\<exists>e. r = Inl e" by (auto simp: bind_io_def or_throw_def)
        with f2 early show ?thesis by blast
      next
        case r2: (Inr fd)
        obtain v' where run: "body fd u2 = (r, v')" "v = release_lock fd v'"
          using run1 1 2 Inr r2 by (cases "body fd u2") (auto simp: bind_io_def or_throw_def finally_io_def)
        obtain r3 u3 where 3: "take_lock ?lock fd u2 = (r3, u3)" by force
        have f3: "frame ?k ?R w u3" using take_lock_quiet [OF 3] f2 by (auto intro: frame_quiet)
        show ?thesis
        proof (cases r3)
          case (Inl e)
          with run 3 have "v' = u3" "r = Inl e" by (simp_all add: body_def bind_io_def)
          with f3 run(2) early show ?thesis by (auto intro: quiet_commit)
        next
          case r3: (Inr x3)
          obtain r4 u4 where 4: "inspect_target plan u3 = (r4, u4)" by force
          have f4: "frame ?k ?R w u4" using inspect_target_spec [OF 4] f3 by (auto intro: frame_quiet)
          show ?thesis
          proof (cases r4)
            case (Inl e)
            with run 3 4 r3 have "v' = u4" "r = Inl e" by (simp_all add: body_def bind_io_def)
            with f4 run(2) early show ?thesis by (auto intro: quiet_commit)
          next
            case r4: (Inr st)
            have fin: "apply_inspected plan (dir_of ?t) st u4 = (r, v')"
              using run(1) 3 4 r3 r4 by (simp add: body_def bind_io_def)
            show ?thesis
            proof (cases rule: apply_inspected_stages [OF fin frame_wf [OF f4] 4 [unfolded r4] assms(3)])
              case (1 e)
              with f4 run(2) early show ?thesis by (auto intro: quiet_commit frame_quiet)
            next
              case (2 u i)
              have e: "lookup u = lookup u4" "inodes u = inodes u4" using 2(1) by (simp_all add: quiet_def)
              show ?thesis
                by (rule existing [OF frame_quiet [OF f4 2(1)] _ 2(3) _ _ _ run(2)]) (use 2 e in simp_all)
            next
              case 3
              show ?thesis by (rule fresh [OF f4 3 run(2)])
            qed
          qed
        qed
      qed
    qed
  qed
qed

end
