(* ===== verification/Apply_Guarantees.thy ===== *)
theory Apply_Guarantees
  imports Apply_Specs
begin

text \<open>
The guarantees of \<open>ApplyService::apply\<close> as properties of the whole call.
\<close>

section \<open>The guarantees\<close>

definition apply_names :: "path \<Rightarrow> path \<Rightarrow> path set" where
  "apply_names rd t = touched t \<union> runtime_names rd"

lemma release_lock_keeps [simp]:
  "lookup (release_lock fd w) = lookup w" "inodes (release_lock fd w) = inodes w"
  "on_disk (release_lock fd w) = on_disk w" "next_inode (release_lock fd w) = next_inode w"
  using quiet_release_lock [of w fd] by (simp_all add: quiet_def)

lemma frame_target:
  "frame k S w u \<Longrightarrow> t \<notin> S \<Longrightarrow> lookup u t = lookup w t \<and> set (on_disk u t) \<subseteq> set (on_disk w t)"
  by (simp add: frame_def)

lemma frame_inode: "frame k S w u \<Longrightarrow> i < k \<Longrightarrow> inodes u i = inodes w i"
  by (simp add: frame_def)

lemma world_ok_lookup: "world_ok w \<Longrightarrow> lookup w p = Some i \<Longrightarrow> i < next_inode w"
  by (simp add: world_ok_def)

lemma generated_file_data: "generated_file plan st n \<Longrightarrow> ino_data n = plan_generated plan \<and> ino_kind n = Regular \<and> ino_synced n"
  by (simp add: generated_file_def new_file_def holds_def)

lemma created_file_data: "created_file plan w n \<Longrightarrow> ino_data n = plan_generated plan \<and> ino_kind n = Regular \<and> ino_synced n"
  by (simp add: created_file_def new_file_def holds_def)

lemma old_copy_data: "old_copy m n \<Longrightarrow> ino_data n = ino_data m \<and> ino_kind n = Regular \<and> ino_synced n"
  by (simp add: old_copy_def copied_def holds_def)

text \<open>The stages of \<open>apply_stages\<close> seen from the state before the call.\<close>

lemma apply_cases:
  assumes "apply_plan rd plan w = (r, v)" "world_ok w" "has_changes plan" "plan_target plan \<notin> runtime_names rd"
  obtains (early) e where "r = Inl e" "frame (next_inode w) (runtime_names rd) w v"
    | (existing) u i where "frame (next_inode w) (runtime_names rd) w u" "lookup w (plan_target plan) = Some i"
        "inodes u i = inodes w i" "plan_kind plan = Update" "ino_kind (inodes w i) = Regular"
        "normalize_newline (ino_data (inodes w i)) = plan_installed plan"
        "frame (next_inode w) (apply_names rd (plan_target plan)) w v"
        "replacement plan i (inodes w i) u v r"
    | (fresh) u where "frame (next_inode w) (runtime_names rd) w u" "lookup w (plan_target plan) = None"
        "plan_kind plan = Create" "frame (next_inode w) (apply_names rd (plan_target plan)) w v"
        "creation plan u v r"
proof (rule apply_stages [OF assms(1-3)])
  fix e
  assume "r = Inl e" "frame (next_inode w) (runtime_names rd) w v"
  then show thesis by (rule early)
next
  fix u i v' fd
  assume s: "frame (next_inode w) (runtime_names rd) w u" "lookup u (plan_target plan) = Some i" "plan_kind plan = Update"
    "ino_kind (inodes u i) = Regular" "normalize_newline (ino_data (inodes u i)) = plan_installed plan"
    "replacement plan i (inodes u i) u v' r" "v = release_lock fd v'"
  have l: "lookup w (plan_target plan) = Some i" using frame_target [OF s(1) assms(4)] s(2) by simp
  have e: "inodes u i = inodes w i" using frame_inode [OF s(1)] world_ok_lookup [OF assms(2) l] by simp
  have rep: "replacement plan i (inodes w i) u v r"
    using s(6,7) quiet_commit [of "next_inode u" "touched (plan_target plan)" u v' fd] e
    by (simp add: replacement_def Let_def installs_def swapped_def cong: sum.case_cong)
  have fv: "frame (next_inode u) (touched (plan_target plan)) u v" using rep by (simp add: replacement_def Let_def)
  have "frame (next_inode w) (apply_names rd (plan_target plan)) w v"
    by (rule frame_trans [OF s(1) fv]) (use s(1) in \<open>auto simp: apply_names_def frame_def\<close>)
  then show thesis using existing [OF s(1) l e s(3)] s(4,5) rep e by simp
next
  fix u v' fd
  assume s: "frame (next_inode w) (runtime_names rd) w u" "lookup u (plan_target plan) = None" "plan_kind plan = Create"
    "creation plan u v' r" "v = release_lock fd v'"
  have l: "lookup w (plan_target plan) = None" using frame_target [OF s(1) assms(4)] s(2) by simp
  have cr: "creation plan u v r"
    using s(4,5) quiet_commit [of "next_inode u" "touched (plan_target plan)" u v' fd]
    by (simp add: creation_def Let_def installs_def swapped_def cong: sum.case_cong)
  have fv: "frame (next_inode u) (touched (plan_target plan)) u v" using cr by (simp add: creation_def Let_def)
  have "frame (next_inode w) (apply_names rd (plan_target plan)) w v"
    by (rule frame_trans [OF s(1) fv]) (use s(1) in \<open>auto simp: apply_names_def frame_def\<close>)
  then show thesis using fresh [OF s(1) l s(3)] cr by simp
qed

lemma installs_in:
  "installs u v t P \<Longrightarrow> set (on_disk u t) \<subseteq> set (on_disk w t) \<Longrightarrow> b \<in> set (on_disk v t) \<Longrightarrow>
     b \<in> set (on_disk w t) \<or> (\<exists>j. b = Some j \<and> P (inodes v j))"
  by (auto simp: installs_def)

text \<open>
  C1: applying a plan is atomic with respect to power failures: whenever the machine stops, and
  whatever calls failed, were interrupted or transferred only part of their data before, every file
  the disk may hold under the target's name is one it may have held before the call, or a complete
  file, flushed to disk, with either the generated text or the old content. No other file of the
  host changes, except the temporary, backup and recovery siblings of the target and the names of
  the runtime directory.
\<close>

theorem apply_crash_atomic:
  assumes "world_ok w" and "plan_target plan \<notin> runtime_names rd" and "apply_plan rd plan w = (r, v)"
  shows "(\<forall>b\<in>set (on_disk v (plan_target plan)).
      b \<in> set (on_disk w (plan_target plan)) \<or>
      (\<exists>j. b = Some j \<and> ino_kind (inodes v j) = Regular \<and> ino_synced (inodes v j) \<and>
         (ino_data (inodes v j) = plan_generated plan \<or>
          (\<exists>n. inode_at w (plan_target plan) = Some n \<and> ino_data (inodes v j) = ino_data n)))) \<and>
    (\<forall>p. p \<notin> apply_names rd (plan_target plan) \<longrightarrow>
       lookup v p = lookup w p \<and> set (on_disk v p) \<subseteq> set (on_disk w p)) \<and>
    (\<forall>k<next_inode w. inodes v k = inodes w k)"
proof (cases "has_changes plan")
  case False
  with assms(3) have "v = w" by (simp add: apply_plan_def ret_def)
  then show ?thesis by simp
next
  case True
  let ?t = "plan_target plan"
  show ?thesis
  proof (cases rule: apply_cases [OF assms(3,1) True assms(2)])
    case (1 e)
    with frame_target [OF 1(2) assms(2)] show ?thesis by (auto simp: frame_def apply_names_def)
  next
    case (2 u i)
    have i: "installs u v ?t (\<lambda>m. generated_file plan (stat_of (inodes w i)) m \<or> old_copy (inodes w i) m)"
      using 2(8) by (simp add: replacement_def Let_def)
    have at: "inode_at w ?t = Some (inodes w i)" using 2(2) by (simp add: inode_at_def)
    have "b \<in> set (on_disk w ?t) \<or>
      (\<exists>j. b = Some j \<and> ino_kind (inodes v j) = Regular \<and> ino_synced (inodes v j) \<and>
         (ino_data (inodes v j) = plan_generated plan \<or> ino_data (inodes v j) = ino_data (inodes w i)))"
      if "b \<in> set (on_disk v ?t)" for b
      using installs_in [OF i conjunct2 [OF frame_target [OF 2(1) assms(2)]] that]
      by (auto dest: generated_file_data old_copy_data)
    then show ?thesis using 2(7) at by (auto simp: frame_def)
  next
    case (3 u)
    have i: "installs u v ?t (created_file plan u)" using 3(5) by (simp add: creation_def Let_def)
    have "b \<in> set (on_disk w ?t) \<or>
      (\<exists>j. b = Some j \<and> ino_kind (inodes v j) = Regular \<and> ino_synced (inodes v j) \<and>
         ino_data (inodes v j) = plan_generated plan)" if "b \<in> set (on_disk v ?t)" for b
      using installs_in [OF i conjunct2 [OF frame_target [OF 3(1) assms(2)]] that]
      by (auto dest: created_file_data)
    then show ?thesis using 3(4) by (auto simp: frame_def)
  qed
qed

text \<open>
  C11: a call that reports success has put exactly the generated text in place, visibly and on disk,
  as a regular file; an existing target keeps its owner and (up to the set-ID bits that a change of
  owner clears) its permissions, had the content the plan was made from, and its old content, owner
  and permissions are in the backup the result names, which is on disk as well.
\<close>

theorem apply_success:
  assumes "world_ok w" and "plan_target plan \<notin> runtime_names rd" and "has_changes plan"
    and "apply_plan rd plan w = (Inr x, v)"
  shows "ar_changed x \<and> ar_target x = plan_target plan \<and>
    (\<exists>j. lookup v (plan_target plan) = Some j \<and> on_disk v (plan_target plan) = [Some j] \<and>
       ino_kind (inodes v j) = Regular \<and> ino_synced (inodes v j) \<and>
       ino_data (inodes v j) = plan_generated plan \<and>
       (case inode_at w (plan_target plan) of
          None \<Rightarrow> ar_backup x = [] \<and> plan_kind plan = Create
        | Some n \<Rightarrow>
            plan_kind plan = Update \<and> normalize_newline (ino_data n) = plan_installed plan \<and>
            ino_perm (inodes v j) \<in> {ino_perm n, chown_perm (ino_perm n)} \<and>
            ino_uid (inodes v j) = ino_uid n \<and> ino_gid (inodes v j) = ino_gid n \<and>
            (\<exists>b. lookup v (ar_backup x) = Some b \<and> set (on_disk v (ar_backup x)) = {Some b} \<and>
               old_copy n (inodes v b))))"
proof (cases rule: apply_cases [OF assms(4,1,3,2)])
  case (1 e)
  then show ?thesis by simp
next
  case (2 u i)
  have at: "inode_at w (plan_target plan) = Some (inodes w i)" using 2(2) by (simp add: inode_at_def)
  from 2(8) obtain j b where
    "ar_changed x" "ar_target x = plan_target plan" "on_disk v (plan_target plan) = [lookup v (plan_target plan)]"
    "lookup v (plan_target plan) = Some j" "generated_file plan (stat_of (inodes w i)) (inodes v j)"
    "lookup v (ar_backup x) = Some b" "old_copy (inodes w i) (inodes v b)"
    "set (on_disk v (ar_backup x)) = {lookup v (ar_backup x)}"
    by (auto simp: replacement_def Let_def swapped_def)
  then show ?thesis using at 2(4,6)
    by (auto simp: generated_file_def new_file_def holds_def stat_of_def)
next
  case (3 u)
  have at: "inode_at w (plan_target plan) = None" using 3(2) by (simp add: inode_at_def)
  from 3(5) obtain j where
    "x = \<lparr>ar_changed = True, ar_target = plan_target plan, ar_backup = []\<rparr>"
    "on_disk v (plan_target plan) = [lookup v (plan_target plan)]"
    "lookup v (plan_target plan) = Some j" "created_file plan u (inodes v j)"
    by (auto simp: creation_def Let_def swapped_def)
  then show ?thesis using at 3(3) by (auto dest: created_file_data)
qed

text \<open>
  C12: a call that ends with an exception leaves an existing target with the content it had, in the
  same file or in a restored copy that has its owner and permissions; the only exception is the one
  that says that the automatic rollback failed too.
\<close>

theorem apply_failure_restores:
  assumes "world_ok w" and "plan_target plan \<notin> runtime_names rd"
    and "inode_at w (plan_target plan) = Some n"
    and "apply_plan rd plan w = (Inl e, v)" and "\<not> rollback_failed e"
  shows "\<exists>m. inode_at v (plan_target plan) = Some m \<and> (m = n \<or> old_copy n m)"
proof (cases "has_changes plan")
  case False
  with assms(4) show ?thesis by (simp add: apply_plan_def ret_def)
next
  case True
  obtain i where i: "lookup w (plan_target plan) = Some i" "inodes w i = n"
    using assms(3) by (auto simp: inode_at_def)
  have ik: "i < next_inode w" by (rule world_ok_lookup [OF assms(1) i(1)])
  show ?thesis
  proof (cases rule: apply_cases [OF assms(4,1) True assms(2)])
    case (1 e')
    with frame_target [OF 1(2) assms(2)] frame_inode [OF 1(2) ik] i show ?thesis
      by (simp add: inode_at_def)
  next
    case (2 u i')
    have "inodes v i = n" using frame_inode [OF 2(7) ik] i by simp
    then show ?thesis using 2(8) 2(2) i assms(5)
      by (auto simp: replacement_def Let_def swapped_def inode_at_def)
  next
    case (3 u)
    with i show ?thesis by simp
  qed
qed

text \<open>
  C14: a plan that no longer fits the host is refused: when the target appeared since planning,
  disappeared, is not a regular file, or has other content than the plan was made from, the call
  throws, and nothing but the runtime directory changes.
\<close>

theorem apply_stale_plan:
  assumes "world_ok w" and "plan_target plan \<notin> runtime_names rd" and "has_changes plan"
    and "\<not> (case inode_at w (plan_target plan) of
           None \<Rightarrow> plan_kind plan = Create
         | Some n \<Rightarrow> plan_kind plan = Update \<and> ino_kind n = Regular \<and>
             normalize_newline (ino_data n) = plan_installed plan)"
    and "apply_plan rd plan w = (r, v)"
  shows "(\<exists>e. r = Inl e) \<and> (\<forall>p. p \<notin> runtime_names rd \<longrightarrow> inode_at v p = inode_at w p)"
proof (cases rule: apply_cases [OF assms(5,1,3,2)])
  case (1 e)
  have "inode_at v p = inode_at w p" if "p \<notin> runtime_names rd" for p
  proof -
    have l: "lookup v p = lookup w p" using frame_target [OF 1(2) that] by simp
    show ?thesis
    proof (cases "lookup w p")
      case (Some i)
      then show ?thesis using l frame_inode [OF 1(2) world_ok_lookup [OF assms(1) Some]]
        by (simp add: inode_at_def)
    qed (simp add: inode_at_def l)
  qed
  with 1 show ?thesis by blast
next
  case (2 u i)
  with assms(4) show ?thesis by (simp add: inode_at_def)
next
  case (3 u)
  with assms(4) show ?thesis by (simp add: inode_at_def)
qed

lemma apply_plan_frame:
  assumes "apply_plan rd plan w = (r, v)" "world_ok w" "has_changes plan"
  shows "frame (next_inode w) (apply_names rd (plan_target plan)) w v"
proof (rule apply_stages [OF assms])
  fix e
  assume "frame (next_inode w) (runtime_names rd) w v"
  then show ?thesis by (rule frame_weaken) (auto simp: apply_names_def)
next
  fix u i v' fd
  assume s: "frame (next_inode w) (runtime_names rd) w u" "replacement plan i (inodes u i) u v' r" "v = release_lock fd v'"
  then have "frame (next_inode u) (touched (plan_target plan)) u v"
    by (simp add: replacement_def Let_def quiet_commit)
  then show ?thesis by (rule frame_trans [OF s(1)]) (use s(1) in \<open>auto simp: apply_names_def frame_def\<close>)
next
  fix u v' fd
  assume s: "frame (next_inode w) (runtime_names rd) w u" "creation plan u v' r" "v = release_lock fd v'"
  then have "frame (next_inode u) (touched (plan_target plan)) u v"
    by (simp add: creation_def Let_def quiet_commit)
  then show ?thesis by (rule frame_trans [OF s(1)]) (use s(1) in \<open>auto simp: apply_names_def frame_def\<close>)
qed

end
