(* ===== verification/Apply_Liveness.thy ===== *)
theory Apply_Liveness
  imports Apply_Guarantees
begin

text \<open>
\<open>ApplyService::apply\<close> in an environment where no call fails: every loop ends, every check
  passes and the service returns a result. The runs on a concrete host that close the theory show
  that the hypotheses of the guarantees can be met.
\<close>

section \<open>An environment without failures\<close>

definition calm :: "world \<Rightarrow> bool" where
  "calm w \<longleftrightarrow> script w = [] \<and> \<not> stopped w \<and> injected w = None"

lemma calm_syscall: "calm w \<Longrightarrow> syscall act partial w = act w"
  by (simp add: calm_def syscall_def)

lemma calm_syscall1: "calm w \<Longrightarrow> syscall1 act w = act w"
  by (simp add: syscall1_def calm_syscall)

lemma calm_updates [simp]:
  "calm (set_name p x w) = calm w" "calm (set_inode i n w) = calm w" "calm (flush_directory d w) = calm w"
  "calm (w\<lparr>next_inode := k\<rparr>) = calm w" "calm (w\<lparr>clock_reads := c\<rparr>) = calm w" "calm (w\<lparr>own_locks := l\<rparr>) = calm w"
  by (simp_all add: calm_def)

text \<open>\<open>succeeds w m\<close>: from \<open>w\<close> the computation returns normally and the environment stays calm.\<close>

definition succeeds :: "world \<Rightarrow> (world, 'a) io \<Rightarrow> bool" where
  "succeeds w m \<longleftrightarrow> (\<exists>x v. m w = (Inr x, v) \<and> calm v)"

lemma succeeds_bind:
  assumes "succeeds w m" "\<And>x v. m w = (Inr x, v) \<Longrightarrow> calm v \<Longrightarrow> succeeds v (k x)"
  shows "succeeds w (bind_io m k)"
  using assms by (fastforce simp: succeeds_def bind_io_def)

lemma succeeds_ret: "calm w \<Longrightarrow> succeeds w (ret x)"
  by (simp add: succeeds_def ret_def)

lemma succeeds_or_throw: "m w = (Inr x, v) \<Longrightarrow> calm v \<Longrightarrow> succeeds w (or_throw m f)"
  by (simp add: succeeds_def or_throw_def)

lemma succeeds_inject: "calm w \<Longrightarrow> succeeds w (fail_if_injected point)"
  by (simp add: succeeds_def fail_if_injected_def calm_def)

lemma inject_calm: "calm w \<Longrightarrow> fail_if_injected point w = (Inr (), w)"
  by (simp add: fail_if_injected_def calm_def)

lemma read_loop_calm:
  "calm w \<Longrightarrow> ino_kind (inodes w fd) \<noteq> Dir \<Longrightarrow> length acc \<le> length (ino_data (inodes w fd)) \<Longrightarrow>
     read_loop fd p acc w = (Inr (acc @ drop (length acc) (ino_data (inodes w fd))), w)"
proof (induction fd p acc w rule: read_loop.induct)
  case (1 fd p acc w)
  let ?d = "ino_data (inodes w fd)"
  let ?s = "take 8192 (drop (length acc) ?d)"
  have r: "sys_read fd (length acc) 8192 w = (Inr ?s, w)"
    using 1(3,4) by (simp add: sys_read_def calm_syscall)
  show ?case
  proof (cases "?s = []")
    case True
    then have "drop (length acc) ?d = []" by simp
    moreover have "read_loop fd p acc w = (Inr acc, w)"
      by (subst read_loop.simps) (simp only: r True prod.case sum.case if_True simp_thms)
    ultimately show ?thesis by simp
  next
    case False
    have e: "read_loop fd p acc w = read_loop fd p (acc @ ?s) w"
      by (subst read_loop.simps) (simp only: r False prod.case sum.case if_False)
    have l: "length (acc @ ?s) \<le> length ?d" using 1(5) by simp
    have dt: "drop (length (take n xs)) xs = drop n xs" for n and xs :: string by (simp add: min_def)
    have "drop (length acc) ?d = ?s @ drop (length ?s) (drop (length acc) ?d)"
      unfolding dt by (rule append_take_drop_id [symmetric])
    also have "drop (length ?s) (drop (length acc) ?d) = drop (length (acc @ ?s)) ?d"
      unfolding drop_drop length_append by (simp only: add.commute)
    finally have "drop (length acc) ?d = ?s @ drop (length (acc @ ?s)) ?d" .
    then show ?thesis using 1(2) [OF r [symmetric] refl False 1(3,4) l] unfolding e
      by (metis append.assoc)
  qed
qed

lemma read_all_calm:
  "calm w \<Longrightarrow> ino_kind (inodes w fd) \<noteq> Dir \<Longrightarrow> read_all fd p w = (Inr (ino_data (inodes w fd)), w)"
  by (simp add: read_all_def read_loop_calm)

lemma read_all_succeeds: "calm w \<Longrightarrow> ino_kind (inodes w fd) \<noteq> Dir \<Longrightarrow> succeeds w (read_all fd p)"
  by (simp add: succeeds_def read_all_calm)

lemma write_all_succeeds: "calm w \<Longrightarrow> succeeds w (write_all fd bytes p)"
proof (cases "bytes = []")
  case True
  moreover assume "calm w"
  ultimately show ?thesis by (simp add: succeeds_def write_all.simps)
next
  case False
  assume c: "calm w"
  obtain v where v: "sys_write fd bytes w = (Inr (length bytes), v)" "calm v"
    using c by (simp add: sys_write_def calm_syscall Let_def)
  have "write_all fd bytes p w = write_all fd [] p v"
    using False v by (subst write_all.simps) simp
  also have "\<dots> = (Inr (), v)" by (subst write_all.simps) simp
  finally show ?thesis using v(2) by (simp add: succeeds_def)
qed

lemma fd_calls_succeed:
  assumes "calm w"
  shows "succeeds w (or_throw (sys_fchmod fd perm) f)" "succeeds w (or_throw (sys_fchown fd u g) f)"
    "succeeds w (or_throw (sys_fsync fd) f)" "succeeds w (or_throw (sys_fstat fd) f)"
  using assms by (simp_all add: succeeds_def or_throw_def sys_fchmod_def sys_fchown_def sys_fsync_def
      sys_fstat_def calm_syscall1 Let_def)

lemma fsync_directory_succeeds:
  assumes "calm w" "is_kind_dir w (if d = [] then ''.'' else d)"
  shows "succeeds w (fsync_directory d)"
proof -
  let ?p = "if d = [] then ''.'' else d"
  obtain n where n: "inode_at w ?p = Some n" "ino_kind n = Dir" using assms(2)
    by (auto simp: is_kind_dir_def split: option.splits)
  have o: "sys_open_directory ?p w = (Inr ?p, w)" using assms(1) n by (simp add: sys_open_directory_def calm_syscall1)
  show ?thesis unfolding fsync_directory_def Let_def
  proof (rule succeeds_bind)
    show "succeeds w (or_throw (sys_open_directory ?p) (errno_error ''cannot open directory'' ?p))"
      by (rule succeeds_or_throw [where m = "sys_open_directory ?p", OF o assms(1)])
    fix x v
    assume "or_throw (sys_open_directory ?p) (errno_error ''cannot open directory'' ?p) w = (Inr x, v)" and c: "calm v"
    show "succeeds v (bind_io (fail_if_injected Before_directory_fsync)
        (\<lambda>_. or_throw (sys_fsync_dir x) (errno_error ''cannot fsync directory'' ?p)))"
      using c by (simp add: succeeds_def bind_io_def inject_calm or_throw_def sys_fsync_dir_def calm_syscall1)
  qed
qed

lemma create_excl_succeeds:
  assumes "calm w" "lookup w p = None" "is_kind_dir w (dir_of p)"
  shows "succeeds w (or_throw (sys_create_excl p perm) f)"
  using assms by (simp add: succeeds_def or_throw_def sys_create_excl_def calm_syscall1 create_file_def Let_def)

lemma open_read_calm:
  assumes "calm w" "lookup w p = Some i" "ino_kind (inodes w i) = Regular"
  shows "sys_open_read p w = (Inr i, w)"
  using assms by (simp add: sys_open_read_def calm_syscall1)

lemma fill_copy_succeeds:
  assumes "calm w" "ino_kind (inodes w i) \<noteq> Dir"
  shows "succeeds w (fill_copy i fd src dst st)"
  unfolding fill_copy_def
  by (rule succeeds_bind [OF succeeds_inject [OF assms(1)]], simp add: inject_calm assms(1),
      rule succeeds_bind [OF read_all_succeeds], (use assms in simp_all)[2],
      rule succeeds_bind [OF write_all_succeeds], assumption,
      rule succeeds_bind [OF fd_calls_succeed(1)], assumption,
      rule succeeds_bind [OF fd_calls_succeed(2)], assumption,
      rule succeeds_bind [OF succeeds_inject], assumption, rule fd_calls_succeed(3))

lemma succeeds_unlinking: "succeeds w m \<Longrightarrow> succeeds w (unlinking_on_error p m)"
  by (auto simp: succeeds_def unlinking_on_error_def catch_io_def)

lemma copy_file_secure_succeeds:
  assumes "calm w" "world_ok w" "lookup w src = Some i" "ino_kind (inodes w i) = Regular" "lookup w dst = None"
    "is_kind_dir w (dir_of dst)"
  shows "succeeds w (copy_file_secure src dst st sd dd)"
  unfolding copy_file_secure_def
proof (rule succeeds_bind)
  show "succeeds w (or_throw (sys_open_read src) (errno_error (''cannot open '' @ sd) src))"
    by (rule succeeds_or_throw [where m = "sys_open_read src", OF open_read_calm [OF assms(1,3,4)] assms(1)])
next
  fix x v
  assume "or_throw (sys_open_read src) (errno_error (''cannot open '' @ sd) src) w = (Inr x, v)"
  then have x: "x = i" "v = w" by (simp_all add: or_throw_def open_read_calm [OF assms(1,3,4)])
  show "succeeds v (bind_io (or_throw (sys_create_excl dst (st_perm st)) (errno_error (''cannot create '' @ dd) dst))
      (\<lambda>fd. unlinking_on_error dst (fill_copy x fd src dst st)))"
    unfolding x
  proof (rule succeeds_bind [OF create_excl_succeeds [OF assms(1,5,6)]])
    fix fd u
    assume cr: "or_throw (sys_create_excl dst (st_perm st)) (errno_error (''cannot create '' @ dd) dst) w = (Inr fd, u)"
      and c: "calm u"
    have ce: "sys_create_excl dst (st_perm st) w = (Inr fd, u)"
      using cr by (auto simp: or_throw_def split: prod.splits sum.splits)
    have f: "frame (next_inode w) {dst} w w" using assms(2) by (intro frame_refl) simp_all
    have "inodes u i = inodes w i"
      using sys_create_excl_spec [OF ce f singletonI] frame_inode world_ok_lookup [OF assms(2,3)] by blast
    with assms(4) c show "succeeds u (unlinking_on_error dst (fill_copy i fd src dst st))"
      by (intro succeeds_unlinking fill_copy_succeeds) simp_all
  qed
qed


lemma rename_succeeds:
  assumes "calm w" "lookup w p = Some i" "ino_kind (inodes w i) = Regular" "\<not> is_kind_dir w q"
  shows "succeeds w (or_throw (sys_rename p q) f)"
proof -
  have "\<not> is_kind_dir w p" using assms(2,3) by (simp add: is_kind_dir_def inode_at_def)
  then show ?thesis using assms
    by (simp add: succeeds_def or_throw_def sys_rename_def calm_syscall1)
qed

lemma write_temporary_succeeds:
  assumes "calm w" "lookup w p = None" "is_kind_dir w (dir_of p)"
  shows "succeeds w (write_temporary p d mode uid gid)"
  unfolding write_temporary_def
  by (rule succeeds_bind [OF create_excl_succeeds [OF assms]],
      rule succeeds_bind [OF write_all_succeeds], assumption,
      rule succeeds_bind [OF fd_calls_succeed(1)], assumption,
      rule succeeds_bind [OF fd_calls_succeed(4)], assumption,
      rule succeeds_bind [where m = "if b then m else n" for b m n],
      simp add: fd_calls_succeed(2) succeeds_ret,
      rule fd_calls_succeed(3), assumption)

lemma unique_sibling_calm:
  "calm w \<Longrightarrow> unique_sibling_path t sfx w = (Inr x, v) \<Longrightarrow> calm v"
  by (auto simp: unique_sibling_path_def read_clock_def)

lemma succeeds_sibling: "calm w \<Longrightarrow> succeeds w (unique_sibling_path t sfx)"
  by (auto simp: succeeds_def unique_sibling_path_def read_clock_def)

lemma kind_dir_frame:
  assumes "frame (next_inode w) S w v" "world_ok w" "p \<notin> S"
  shows "is_kind_dir v p = is_kind_dir w p"
proof (cases "lookup w p")
  case (Some i)
  then have "inodes v i = inodes w i" using frame_inode [OF assms(1)] world_ok_lookup [OF assms(2)] by blast
  with Some frame_target [OF assms(1,3)] show ?thesis by (simp add: is_kind_dir_def inode_at_def)
next
  case None
  with frame_target [OF assms(1,3)] show ?thesis by (simp add: is_kind_dir_def inode_at_def)
qed

lemma or_throw_InrD: "or_throw m f w = (Inr x, v) \<Longrightarrow> m w = (Inr x, v)"
  by (auto simp: or_throw_def split: prod.splits sum.splits)

lemma verify_target_calm:
  assumes "calm w" "lookup w (plan_target plan) = Some j" "new_file (plan_generated plan) mode uid gid (inodes w j)"
  shows "verify_target plan w = (Inr (), w)"
proof -
  have n: "ino_kind (inodes w j) = Regular" "ino_data (inodes w j) = plan_generated plan"
    using assms(3) by (simp_all add: new_file_def holds_def)
  show ?thesis using n assms(1,2)
    by (simp add: verify_target_def bind_io_def or_throw_def open_read_calm read_all_calm ret_def)
qed

lemma install_generated_succeeds:
  assumes "calm w" "world_ok w" "lookup w p = None" "dir_of p = dir_of t" "p \<noteq> t" "is_kind_dir w (dir_of t)"
    "\<not> is_kind_dir w t" and t: "t = plan_target plan"
  shows "succeeds w (install_generated plan (dir_of t) p b mode uid gid)"
  unfolding install_generated_def
proof (rule succeeds_bind [OF write_temporary_succeeds])
  show "calm w" "lookup w p = None" "is_kind_dir w (dir_of p)" using assms by simp_all
next
  fix x v
  assume 1: "write_temporary p (plan_generated plan) mode uid gid w = (Inr x, v)" and c1: "calm v"
  note s1 = write_temporary_spec [OF 1 assms(2)]
  have f1: "frame (next_inode w) {p} w v" using s1 by blast
  obtain j where j: "lookup v p = Some j" "new_file (plan_generated plan) mode uid gid (inodes v j)"
    using s1 by (auto simp: swapped_def)
  have reg: "ino_kind (inodes v j) = Regular" using j(2) by (simp add: new_file_def holds_def)
  have d: "dir_of t \<noteq> p" "dir_of t \<noteq> t" using assms(3,6,7) by (auto simp: is_kind_dir_def inode_at_def)
  have k1: "is_kind_dir v (dir_of t)" "\<not> is_kind_dir v t"
    using kind_dir_frame [OF f1 assms(2)] assms(5-7) d by simp_all
  show "succeeds v (bind_io (or_throw (sys_rename p (plan_target plan))
       (errno_error ''cannot atomically replace target'' (plan_target plan))) (\<lambda>_.
     bind_io (fsync_directory (dir_of t)) (\<lambda>_. bind_io (verify_target plan) (\<lambda>_.
     ret \<lparr>ar_changed = True, ar_target = plan_target plan, ar_backup = b\<rparr>))))"
  proof (rule succeeds_bind [OF rename_succeeds [OF c1 j(1) reg]])
    show "\<not> is_kind_dir v (plan_target plan)" using k1 t by simp
  next
    fix x2 v2
    assume 2: "or_throw (sys_rename p (plan_target plan))
        (errno_error ''cannot atomically replace target'' (plan_target plan)) v = (Inr x2, v2)" and c2: "calm v2"
    have f2: "frame (next_inode v) {p, t} v v" using frame_wf [OF f1] by (intro frame_refl) simp_all
    note s2 = sys_rename_spec [OF or_throw_InrD [OF 2, folded t] f2 insertI1 insertI2 [OF singletonI] assms(5)]
    have e2: "inodes v2 = inodes v" "lookup v2 t = Some j" "frame (next_inode v) {p, t} v v2"
      using s2 j(1) by auto
    have k2: "is_kind_dir v2 (dir_of t)"
      using kind_dir_frame [OF e2(3) frame_wf [OF f1], of "dir_of t"] k1(1) d by simp
    show "succeeds v2 (bind_io (fsync_directory (dir_of t)) (\<lambda>_. bind_io (verify_target plan) (\<lambda>_.
       ret \<lparr>ar_changed = True, ar_target = plan_target plan, ar_backup = b\<rparr>)))"
    proof (rule succeeds_bind [OF fsync_directory_succeeds [OF c2]])
      show "is_kind_dir v2 (if dir_of t = [] then ''.'' else dir_of t)"
        using k2 by (simp add: dir_of_def split: if_splits)
    next
      fix x3 v3
      assume 3: "fsync_directory (dir_of t) v2 = (Inr x3, v3)" and c3: "calm v3"
      note s3 = fsync_directory_spec [OF 3 e2(3)]
      have v: "verify_target plan v3 = (Inr (), v3)"
        by (rule verify_target_calm [OF c3, where j = j]) (use s3 e2 j(2) t in simp_all)
      show "succeeds v3 (bind_io (verify_target plan) (\<lambda>_.
         ret \<lparr>ar_changed = True, ar_target = plan_target plan, ar_backup = b\<rparr>))"
        using c3 by (simp add: succeeds_def bind_io_def v ret_def)
    qed
  qed
qed

lemma make_backup_succeeds:
  assumes "calm w" "world_ok w" "lookup w t = Some i" "ino_kind (inodes w i) = Regular" "is_kind_dir w (dir_of t)"
    "\<And>p n. lookup w (sibling t ''.bak'' p n) = None"
  shows "succeeds w (make_backup t (dir_of t) st)"
  unfolding make_backup_def
proof (rule succeeds_bind [OF succeeds_sibling [OF assms(1)]])
  fix b v
  assume 1: "unique_sibling_path t ''.bak'' w = (Inr b, v)" and c1: "calm v"
  note s1 = unique_sibling_path_spec [OF 1]
  have q: "lookup v = lookup w" "inodes v = inodes w" "world_ok v"
    using s1 quiet_wf assms(2) by (auto simp: quiet_def)
  obtain p n where b: "b = sibling t ''.bak'' p n" using s1 by auto
  have k: "is_kind_dir v (dir_of t)" using assms(5) q by (simp add: is_kind_dir_def inode_at_def)
  have d: "dir_of t \<noteq> b" using assms(5,6) b by (auto simp: is_kind_dir_def inode_at_def)
  show "succeeds v (bind_io (copy_file_secure t b st ''source'' ''backup'') (\<lambda>_.
     bind_io (fsync_directory (dir_of t)) (\<lambda>_. ret b)))"
  proof (rule succeeds_bind [OF copy_file_secure_succeeds [OF c1 q(3)]])
    show "lookup v t = Some i" "ino_kind (inodes v i) = Regular" "lookup v b = None" "is_kind_dir v (dir_of b)"
      using assms q k b by simp_all
  next
    fix x v2
    assume 2: "copy_file_secure t b st ''source'' ''backup'' v = (Inr x, v2)" and c2: "calm v2"
    have f2: "frame (next_inode v) {b} v v2" using copy_file_secure_spec [OF 2 q(3)] by blast
    have k2: "is_kind_dir v2 (dir_of t)" using kind_dir_frame [OF f2 q(3), of "dir_of t"] k d by simp
    show "succeeds v2 (bind_io (fsync_directory (dir_of t)) (\<lambda>_. ret b))"
      by (rule succeeds_bind [OF fsync_directory_succeeds [OF c2]])
         (use k2 in \<open>simp_all add: succeeds_ret dir_of_def split: if_splits\<close>)
  qed
qed

lemma attempt_InrD: "attempt m w = (Inr r, v) \<Longrightarrow> m w = (r, v)"
  by (auto simp: attempt_def split: prod.splits)

lemma succeeds_attempt: "succeeds w m \<Longrightarrow> attempt m w = (Inr r, v) \<Longrightarrow> calm v \<and> (\<exists>x. r = Inr x \<and> m w = (Inr x, v))"
  by (auto simp: succeeds_def attempt_def)

definition room_for :: "path \<Rightarrow> world \<Rightarrow> bool" where
  "room_for t w \<longleftrightarrow> is_kind_dir w (dir_of t) \<and> (\<forall>s\<in>touched t. s \<noteq> t \<longrightarrow> lookup w s = None)"

lemma room_frame:
  assumes "room_for t w" "frame (next_inode w) S w v" "world_ok w" "S \<inter> insert (dir_of t) (touched t - {t}) = {}"
  shows "room_for t v"
proof -
  have "is_kind_dir v (dir_of t)" using kind_dir_frame [OF assms(2,3), of "dir_of t"] assms(1,4)
    by (auto simp: room_for_def)
  moreover have "lookup v s = None" if "s \<in> touched t" "s \<noteq> t" for s
    using frame_target [OF assms(2), of s] that assms(1,4) by (auto simp: room_for_def)
  ultimately show ?thesis by (simp add: room_for_def)
qed

lemma room_sibling:
  "room_for t w \<Longrightarrow> lookup w (sibling t ''.tmp'' p n) = None"
  "room_for t w \<Longrightarrow> lookup w (sibling t ''.bak'' p n) = None"
  by (auto simp: room_for_def)

lemma replace_target_succeeds:
  assumes "calm w" "world_ok w" "room_for t w" and t: "t = plan_target plan"
    and md: "case md of None \<Rightarrow> lookup w t = None
      | Some st \<Rightarrow> \<exists>i. lookup w t = Some i \<and> ino_kind (inodes w i) = Regular"
  shows "succeeds w (replace_target plan (dir_of t) md)"
proof -
  let ?k = "next_inode w"
  obtain x0 u0 where 0: "unique_sibling_path t ''.tmp'' w = (Inr x0, u0)" "calm u0"
    using succeeds_sibling [OF assms(1)] by (fastforce simp: succeeds_def)
  note s0 = unique_sibling_path_spec [OF 0(1)]
  have q0: "quiet w u0" using s0 by blast
  have w0: "world_ok u0" "lookup u0 = lookup w" "inodes u0 = inodes w" "next_inode u0 = next_inode w"
    using quiet_wf [OF q0 assms(2)] q0 by (simp_all add: quiet_def)
  obtain tp tn where x0: "x0 = sibling t ''.tmp'' tp tn" using s0 by auto
  have nd: "\<not> is_kind_dir u0 t" using md w0 by (auto simp: is_kind_dir_def inode_at_def split: option.splits)
  have room0: "room_for t u0" using assms(3) w0 by (simp add: room_for_def is_kind_dir_def inode_at_def)
  obtain r1 u1 where 1: "attempt (case md of Some st \<Rightarrow> make_backup t (dir_of t) st | None \<Rightarrow> ret []) u0 = (Inr r1, u1)"
    by (metis attempt_total)
  have saved: "\<exists>b. r1 = Inr b \<and> calm u1 \<and> world_ok u1 \<and> is_kind_dir u1 (dir_of t) \<and> \<not> is_kind_dir u1 t \<and> lookup u1 x0 = None"
  proof (cases md)
    case None
    with 1 have "r1 = Inr []" "u1 = u0" by (simp_all add: attempt_def ret_def)
    then show ?thesis using 0(2) w0(1) room0 nd room_sibling(1) [OF room0] x0 by (simp add: room_for_def)
  next
    case (Some st)
    obtain i where i: "lookup u0 t = Some i" "ino_kind (inodes u0 i) = Regular" using md Some w0 by auto
    have 1: "attempt (make_backup t (dir_of t) st) u0 = (Inr r1, u1)" using 1 Some by simp
    have "succeeds u0 (make_backup t (dir_of t) st)"
      by (rule make_backup_succeeds [OF 0(2) w0(1) i]) (use room0 room_sibling [OF room0] in \<open>simp_all add: room_for_def\<close>)
    from succeeds_attempt [OF this 1] obtain b where b: "r1 = Inr b" "make_backup t (dir_of t) st u0 = (Inr b, u1)" "calm u1"
      by blast
    from make_backup_spec [OF b(2) w0(1) i(1)] obtain bn p n where
      bn: "bn = sibling t ''.bak'' p n" and f: "frame (next_inode u0) {bn} u0 u1" by blast
    have d: "dir_of t \<noteq> bn" using room0 room_sibling(2) [OF room0] bn
      by (auto simp: room_for_def is_kind_dir_def inode_at_def)
    have tb: "t \<noteq> bn" unfolding bn by (rule sibling_neq [symmetric]) simp
    have xb: "x0 \<noteq> bn" using x0 bn by (simp add: sibling_neq_sibling)
    have "is_kind_dir u1 (dir_of t)" "\<not> is_kind_dir u1 t"
      using kind_dir_frame [OF f w0(1)] d tb room0 nd by (simp_all add: room_for_def)
    moreover have "lookup u1 x0 = None" using frame_target [OF f, of x0] xb room_sibling(1) [OF room0] x0 by simp
    ultimately show ?thesis using b f frame_wf by blast
  qed
  then obtain b where b: "r1 = Inr b" "calm u1" "world_ok u1" "is_kind_dir u1 (dir_of t)" "\<not> is_kind_dir u1 t"
    "lookup u1 x0 = None" by blast
  have dx: "dir_of x0 = dir_of t" "x0 \<noteq> t" by (simp_all add: x0)
  have inst: "succeeds u1 (bind_io (attempt (install_generated plan (dir_of t) x0 b mode uid gid)) (\<lambda>i. case i of
      Inl e \<Rightarrow> recover plan (dir_of t) x0 md b e | Inr result \<Rightarrow> ret result))" for mode uid gid
  proof -
    obtain x v where i: "install_generated plan (dir_of t) x0 b mode uid gid u1 = (Inr x, v)" "calm v"
      using install_generated_succeeds [OF b(2,3,6) dx b(4,5) t, where mode = mode and uid = uid and gid = gid and b = b]
      unfolding succeeds_def by blast
    then have "attempt (install_generated plan (dir_of t) x0 b mode uid gid) u1 = (Inr (Inr x), v)"
      by (simp add: attempt_def)
    with i(2) show ?thesis
      by (simp add: succeeds_def bind_io_Inr [where m = "attempt (install_generated plan (dir_of t) x0 b mode uid gid)"] ret_def)
  qed
  have g: "bind_io (gets f) k w = k (f w) w" for f and k :: "nat \<Rightarrow> (world, apply_result) io"
    by (simp add: bind_io_def gets_def)
  show ?thesis
    unfolding replace_target_def t [symmetric] succeeds_def g Let_def
      bind_io_Inr [where m = "unique_sibling_path t ''.tmp''", OF 0(1)]
      bind_io_Inr [where m = "attempt (case md of Some st \<Rightarrow> make_backup t (dir_of t) st | None \<Rightarrow> ret [])", OF 1 [unfolded b(1)]]
      sum.case
    by (rule inst [unfolded succeeds_def])
qed

lemma make_directories_present:
  "list_all (is_kind_dir w) ps \<Longrightarrow> make_directories ps w = (Inr (), w)"
proof (induction ps)
  case (Cons p ps)
  then obtain i where i: "lookup w p = Some i" "ino_kind (inodes w i) = Dir"
    by (auto simp: is_kind_dir_def inode_at_def split: option.splits)
  then have "resolve (Suc n) w p = Some i" for n by simp
  from this [of 39] show ?case using Cons i by simp
qed simp

lemma prepare_runtime_present:
  assumes "calm w" "list_all (is_kind_dir w) (ancestors (length rd) rd)"
  shows "prepare_runtime rd w = (Inr (), w)"
proof -
  have "rd \<in> set (ancestors n rd)" for n by (cases n) auto
  then obtain n where "inode_at w rd = Some n" "ino_kind n = Dir" using assms(2)
    by (auto simp: list_all_iff is_kind_dir_def split: option.splits)
  then show ?thesis using assms
    by (simp add: prepare_runtime_def bind_io_def or_throw_def create_directories_def calm_syscall1
        make_directories_present sys_lstat_def stat_of_def ret_def)
qed

text \<open>The plan describes what is installed.\<close>

definition plan_fits :: "change_plan \<Rightarrow> world \<Rightarrow> bool" where
  "plan_fits plan w \<longleftrightarrow>
     (case inode_at w (plan_target plan) of
        None \<Rightarrow> plan_kind plan = Create
      | Some n \<Rightarrow> plan_kind plan = Update \<and> ino_kind n = Regular \<and>
          normalize_newline (ino_data n) = plan_installed plan)"

definition lock_ready :: "path \<Rightarrow> world \<Rightarrow> bool" where
  "lock_ready p w \<longleftrightarrow> foreign_locks w = [] \<and> is_kind_dir w (dir_of p) \<and>
     (case inode_at w p of None \<Rightarrow> True | Some n \<Rightarrow> ino_kind n = Regular)"

lemma open_lock_calm:
  assumes "calm w" "world_ok w" "lock_ready p w"
  shows "\<exists>fd v. sys_open_create p perm w = (Inr fd, v) \<and> calm v \<and> frame (next_inode w) {p} w v \<and> foreign_locks v = []"
proof (cases "lookup w p")
  case None
  obtain v where v: "create_file p perm w = (Inr (next_inode w), v)" "calm v"
    using assms None by (simp add: create_file_def lock_ready_def Let_def)
  have f: "frame (next_inode w) {p} w w" using assms(2) by (intro frame_refl) simp_all
  have fv: "frame (next_inode w) {p} w v" using frame_create_file [OF f singletonI v(1)] by blast
  then have "foreign_locks v = []" using assms(3) by (simp add: frame_def lock_ready_def)
  with v fv None assms(1) show ?thesis by (simp add: sys_open_create_def calm_syscall1)
next
  case (Some i)
  with assms show ?thesis
    by (auto simp: sys_open_create_def calm_syscall1 lock_ready_def inode_at_def intro: frame_intros)
qed

lemma apply_inspected_succeeds:
  assumes "calm w" "world_ok w" "room_for (plan_target plan) w" "plan_fits plan w"
  shows "succeeds w (apply_inspected plan (dir_of (plan_target plan)) (map_option stat_of (inode_at w (plan_target plan))))"
proof (cases "lookup w (plan_target plan)")
  case None
  with assms(4) have "plan_kind plan = Create" by (simp add: plan_fits_def inode_at_def)
  with None replace_target_succeeds [OF assms(1-3) refl, of None] show ?thesis
    by (simp add: apply_inspected_def inode_at_def bind_io_def ret_def)
next
  case (Some i)
  with assms(4) have p: "plan_kind plan = Update" "ino_kind (inodes w i) = Regular"
    "normalize_newline (ino_data (inodes w i)) = plan_installed plan" by (simp_all add: plan_fits_def inode_at_def)
  have cu: "check_unchanged plan w = (Inr (), w)"
    using p Some assms(1) by (simp add: check_unchanged_def bind_io_def or_throw_def open_read_calm read_all_calm ret_def)
  have "succeeds w (replace_target plan (dir_of (plan_target plan)) (Some (stat_of (inodes w i))))"
    by (rule replace_target_succeeds [OF assms(1-3) refl]) (use Some p in simp)
  with cu Some p show ?thesis
    by (simp add: apply_inspected_def inode_at_def bind_io_Inr [where m = "check_unchanged plan", OF cu] succeeds_def)
qed

lemma inspect_target_calm:
  assumes "calm w" "plan_fits plan w"
  shows "inspect_target plan w = (Inr (map_option stat_of (inode_at w (plan_target plan))), w)"
  using assms
  by (cases "inode_at w (plan_target plan)")
     (auto simp: inspect_target_def plan_fits_def bind_io_def try_sys_def sys_lstat_def calm_syscall1 ret_def stat_of_def)

lemma apply_run_succeeds:
  assumes "world_ok w" and "calm w" and "has_changes plan"
    and "plan_target plan \<noteq> []" and "filename (plan_target plan) \<noteq> []" and "rd \<noteq> []"
    and "list_all (is_kind_dir w) (ancestors (length rd) rd)"
    and "lock_ready (path_append rd ''apply.lock'') w"
    and "dir_of (path_append rd ''apply.lock'') \<noteq> dir_of (plan_target plan)"
    and "room_for (plan_target plan) w" and "plan_fits plan w"
  shows "\<exists>x v. apply_plan rd plan w = (Inr x, v) \<and> calm v"
proof -
  let ?l = "path_append rd ''apply.lock''" and ?t = "plan_target plan"
  obtain fd u where o: "sys_open_create ?l 0x180 w = (Inr fd, u)" "calm u" "frame (next_inode w) {?l} w u" "foreign_locks u = []"
    using open_lock_calm [OF assms(2,1,8)] by blast
  let ?u = "u\<lparr>own_locks := fd # own_locks u\<rparr>"
  have lk: "take_lock ?l fd u = (Inr (), ?u)"
    using o(2,4) by (simp add: take_lock_def or_throw_def sys_flock_def calm_syscall1)
  have f: "frame (next_inode w) {?l} w ?u" using o(3) by (rule frame_env_updates)
  have "s \<noteq> ?l" if "s \<in> touched ?t" for s
  proof -
    have "dir_of s = dir_of ?t" using that by (auto simp: touched_def siblings_def)
    with assms(9) show ?thesis by auto
  qed
  moreover have dl: "dir_of ?t \<noteq> ?l"
    using assms(8,10) by (auto simp: lock_ready_def room_for_def is_kind_dir_def split: option.splits)
  ultimately have room: "room_for ?t ?u" by (intro room_frame [OF assms(10) f assms(1)]) auto
  have "?t \<noteq> ?l" using assms(9) by auto
  then have lt: "lookup ?u ?t = lookup w ?t" using frame_target [OF f, of ?t] by simp
  have at: "inode_at ?u ?t = inode_at w ?t"
  proof (cases "lookup w ?t")
    case (Some i)
    with lt frame_inode [OF f world_ok_lookup [OF assms(1) Some]] show ?thesis by (simp add: inode_at_def)
  qed (use lt in \<open>simp add: inode_at_def\<close>)
  have fits: "plan_fits plan ?u" using assms(11) at by (simp add: plan_fits_def)
  have c: "calm ?u" using o(2) by simp
  obtain x v where ai: "apply_inspected plan (dir_of ?t) (map_option stat_of (inode_at ?u ?t)) ?u = (Inr x, v)" "calm v"
    using apply_inspected_succeeds [OF c frame_wf [OF f] room fits] by (auto simp: succeeds_def)
  have pr: "prepare_runtime rd w = (Inr (), w)" by (rule prepare_runtime_present [OF assms(2,7)])
  have "apply_plan rd plan w = (Inr x, release_lock fd v)"
    using assms(3-6) ai(1) inspect_target_calm [OF c fits]
    by (simp add: apply_plan_def bind_io_Inr [where m = "prepare_runtime rd", OF pr]
        bind_io_Inr [where m = "or_throw (sys_open_create ?l 0x180) (errno_error ''cannot open lock'' ?l)", OF or_throw_Inr [where m = "sys_open_create ?l 0x180", OF o(1)]] finally_io_def
        bind_io_Inr [where m = "take_lock ?l fd", OF lk] bind_io_Inr [where m = "inspect_target plan"] Let_def)
  moreover have "calm (release_lock fd v)" using ai(2) by (simp add: release_lock_def)
  ultimately show ?thesis by blast
qed

text \<open>
  C15: applying succeeds when nothing stands in the way: with the directories in place, a free lock,
  no leftover sibling files, a plan that describes the installed file and no failing call, the
  service returns a result; it neither throws nor runs forever.
\<close>

theorem apply_succeeds:
  assumes "world_ok w" and "calm w" and "has_changes plan"
    and "plan_target plan \<noteq> []" and "filename (plan_target plan) \<noteq> []" and "rd \<noteq> []"
    and "list_all (is_kind_dir w) (ancestors (length rd) rd)"
    and "lock_ready (path_append rd ''apply.lock'') w"
    and "dir_of (path_append rd ''apply.lock'') \<noteq> dir_of (plan_target plan)"
    and "room_for (plan_target plan) w" and "plan_fits plan w"
  shows "\<exists>x v. apply_plan rd plan w = (Inr x, v) \<and> calm v"
  using assms by (rule apply_run_succeeds)

section \<open>Concrete runs\<close>

definition installed_files :: "(path \<times> inode) list" where
  "installed_files = [(''/'', plain_dir), (''/boot'', plain_dir), (''/run'', plain_dir),
     (''/run/limine-manager'', plain_dir), (''/boot/limine.conf'', plain_file ''old'')]"

definition sample_plan :: change_plan where
  "sample_plan = \<lparr>plan_kind = Update, plan_target = ''/boot/limine.conf'', plan_installed = [CHR ''o'', CHR ''l'', CHR ''d'', NL],
     plan_generated = ''new''\<rparr>"

definition sample_run :: "outcome list \<Rightarrow> apply_result result \<times> world" where
  "sample_run oc = apply_plan ''/run/limine-manager'' sample_plan (sample_host installed_files oc)"

lemma sample_plan_changes [simp]: "has_changes sample_plan"
  by code_simp

lemma sample_target_runtime [simp]: "plan_target sample_plan \<notin> runtime_names ''/run/limine-manager''"
proof -
  have "(plan_target sample_plan \<in> runtime_names ''/run/limine-manager'') = False"
    unfolding runtime_names_def by code_simp
  then show ?thesis by simp
qed

lemma sample_at: "inode_at (sample_host installed_files oc) ''/boot/limine.conf'' = Some (plain_file ''old'')"
  by (simp add: inode_at_def lookup_def sample_host_def installed_files_def)

lemma sample_fits: "plan_fits sample_plan (sample_host installed_files oc)"
proof -
  have "normalize_newline ''old'' = plan_installed sample_plan" by code_simp
  then show ?thesis using sample_at [of oc] by (simp add: plan_fits_def sample_plan_def plain_file_def)
qed

lemma sample_sibling: "lookup (sample_host installed_files oc) (sibling ''/boot/limine.conf'' (CHR ''.'' # sfx) p n) = None"
proof -
  have "parent_path ''/boot/limine.conf'' = ''/boot''" "filename ''/boot/limine.conf'' = ''limine.conf''" by code_simp+
  then have "sibling ''/boot/limine.conf'' (CHR ''.'' # sfx) p n = ''/boot/limine.conf.'' @ sfx @ ''.'' @ dec p @ ''.'' @ dec n"
    by (simp add: sibling_def path_append_def is_absolute_def)
  then show ?thesis by (simp add: lookup_def sample_host_def installed_files_def)
qed

lemma sample_room: "room_for ''/boot/limine.conf'' (sample_host installed_files oc)"
proof -
  have "dir_of ''/boot/limine.conf'' = ''/boot''" by code_simp
  then have "is_kind_dir (sample_host installed_files oc) (dir_of ''/boot/limine.conf'')"
    by (simp add: is_kind_dir_def inode_at_def lookup_def sample_host_def installed_files_def plain_dir_def)
  then show ?thesis using sample_sibling
    by (auto simp: room_for_def touched_def siblings_def)
qed

lemma sample_dirs:
  "list_all (is_kind_dir (sample_host installed_files oc)) (ancestors (length ''/run/limine-manager'') ''/run/limine-manager'')"
proof -
  have "ancestors (length ''/run/limine-manager'') ''/run/limine-manager'' = [''/'', ''/run'', ''/run/limine-manager'']"
    by code_simp
  then show ?thesis
    by (simp add: is_kind_dir_def inode_at_def lookup_def sample_host_def installed_files_def plain_dir_def)
qed

lemma sample_lock:
  "lock_ready (path_append ''/run/limine-manager'' ''apply.lock'') (sample_host installed_files oc)"
  "dir_of (path_append ''/run/limine-manager'' ''apply.lock'') \<noteq> dir_of ''/boot/limine.conf''"
proof -
  have p: "path_append ''/run/limine-manager'' ''apply.lock'' = ''/run/limine-manager/apply.lock''"
    "dir_of ''/run/limine-manager/apply.lock'' = ''/run/limine-manager''" "dir_of ''/boot/limine.conf'' = ''/boot''"
    by code_simp+
  show "lock_ready (path_append ''/run/limine-manager'' ''apply.lock'') (sample_host installed_files oc)"
    unfolding p lock_ready_def
    by (simp add: is_kind_dir_def inode_at_def lookup_def sample_host_def installed_files_def plain_dir_def)
  show "dir_of (path_append ''/run/limine-manager'' ''apply.lock'') \<noteq> dir_of ''/boot/limine.conf''"
    unfolding p by simp
qed

lemma sample_names: "''/boot/limine.conf'' \<noteq> []" "filename ''/boot/limine.conf'' \<noteq> []" "''/run/limine-manager'' \<noteq> []"
  by (simp, code_simp, simp)

lemma sample_target: "plan_target sample_plan = ''/boot/limine.conf''"
  by (simp add: sample_plan_def)

lemma sample_calm: "calm (sample_host installed_files [])"
  by (simp add: calm_def sample_host_def)


theorem apply_succeeds_witness: "\<exists>x v. sample_run [] = (Inr x, v) \<and> calm v"
  unfolding sample_run_def
  by (rule apply_succeeds [OF sample_host_ok sample_calm sample_plan_changes sample_names [folded sample_target]
        sample_dirs sample_lock [folded sample_target] sample_room [folded sample_target] sample_fits])

lemma sample_run_Inr: "\<exists>x v. sample_run [] = (Inr x, v)"
  using apply_run_succeeds [OF sample_host_ok sample_calm sample_plan_changes sample_names [folded sample_target]
        sample_dirs sample_lock [folded sample_target] sample_room [folded sample_target] sample_fits]
  unfolding sample_run_def by blast

theorem apply_success_witness:
  "\<exists>x v j b. sample_run [] = (Inr x, v) \<and> on_disk v ''/boot/limine.conf'' = [Some j] \<and>
     ino_data (inodes v j) = ''new'' \<and> lookup v (ar_backup x) = Some b \<and> ino_data (inodes v b) = ''old''"
proof -
  obtain x v where run: "sample_run [] = (Inr x, v)" using sample_run_Inr by blast
  note s = apply_success [OF sample_host_ok sample_target_runtime sample_plan_changes run [unfolded sample_run_def]]
  from s have "\<exists>j. on_disk v ''/boot/limine.conf'' = [Some j] \<and> ino_data (inodes v j) = ''new''"
    by (auto simp: sample_plan_def)
  moreover from s have "\<exists>b. lookup v (ar_backup x) = Some b \<and> old_copy (plain_file ''old'') (inodes v b)"
    by (auto simp: sample_target sample_at)
  ultimately show ?thesis using run by (auto dest!: old_copy_data simp: plain_file_def)
qed

text \<open>A power failure in the middle of the run.\<close>

theorem apply_crash_atomic_witness:
  "list_all (\<lambda>b. b = Some 4 \<or> (\<exists>j. b = Some j \<and> ino_synced (inodes (snd (sample_run (replicate 20 Ok @ [Crash]))) j)))
     (on_disk (snd (sample_run (replicate 20 Ok @ [Crash]))) ''/boot/limine.conf'')"
proof -
  let ?oc = "replicate 20 Ok @ [Crash]"
  have run: "apply_plan ''/run/limine-manager'' sample_plan (sample_host installed_files ?oc)
      = (fst (sample_run ?oc), snd (sample_run ?oc))" by (simp add: sample_run_def)
  have d: "set (on_disk (sample_host installed_files ?oc) ''/boot/limine.conf'') = {Some 4}"
    by (simp add: sample_host_def installed_files_def)
  from apply_crash_atomic [OF sample_host_ok sample_target_runtime run]
  show ?thesis unfolding sample_target d list_all_iff by blast
qed

text \<open>A machine that stops in the first call.\<close>

lemma first_call_fails: "\<exists>e v. sample_run [Crash] = (Inl e, v) \<and> \<not> rollback_failed e"
proof -
  have "fst (sample_run [Crash]) = Inl (Runtime_error (''cannot create runtime directory '' @ [SQUOTE] @ ''/run/limine-manager''
      @ [SQUOTE] @ '': Input/output error''))" by code_simp
  moreover have "sample_run [Crash] = (fst (sample_run [Crash]), snd (sample_run [Crash]))" by simp
  ultimately show ?thesis by (auto simp: rollback_failed_def)
qed

theorem apply_failure_restores_witness:
  "\<exists>e v m. sample_run [Crash] = (Inl e, v) \<and> inode_at v ''/boot/limine.conf'' = Some m \<and> ino_data m = ''old''"
proof -
  obtain e v where e: "sample_run [Crash] = (Inl e, v)" "\<not> rollback_failed e" using first_call_fails by blast
  from apply_failure_restores [OF sample_host_ok sample_target_runtime sample_at [folded sample_target]
      e(1) [unfolded sample_run_def] e(2)]
  show ?thesis using e(1) by (auto simp: sample_target plain_file_def dest!: old_copy_data)
qed

definition stale_plan :: change_plan where
  "stale_plan = sample_plan\<lparr>plan_installed := [NL]\<rparr>"

theorem apply_stale_plan_witness:
  "\<exists>e v. apply_plan ''/run/limine-manager'' stale_plan (sample_host installed_files []) = (Inl e, v) \<and>
     inode_at v ''/boot/limine.conf'' = Some (plain_file ''old'')"
proof -
  let ?w = "sample_host installed_files []"
  obtain r v where run: "apply_plan ''/run/limine-manager'' stale_plan ?w = (r, v)" by force
  have t: "plan_target stale_plan = ''/boot/limine.conf''" by (simp add: stale_plan_def sample_plan_def)
  have ch: "has_changes stale_plan" by code_simp
  have "normalize_newline ''old'' \<noteq> [NL]" by code_simp
  then have "\<not> (case inode_at ?w (plan_target stale_plan) of None \<Rightarrow> plan_kind stale_plan = Create
      | Some n \<Rightarrow> plan_kind stale_plan = Update \<and> ino_kind n = Regular \<and> normalize_newline (ino_data n) = plan_installed stale_plan)"
    by (simp add: t sample_at) (simp add: plain_file_def stale_plan_def)
  from apply_stale_plan [OF sample_host_ok _ ch this run] sample_target_runtime
  show ?thesis using run by (auto simp: t sample_target sample_at)
qed

end
