(* ===== verification/Real_File_System.thy ===== *)
theory Real_File_System
  imports Posix File_System
begin

text \<open>
\<open>infrastructure::RealFileSystem\<close> (src/infrastructure/filesystem.cpp) over the state of the host of
  theory Posix, and the proof that it keeps the laws of the \<open>FileSystem\<close> interface.
\<close>

section \<open>Following a path\<close>

text \<open>
  The name of the file a path leads to, all symbolic links on the way followed. The fuel bounds the
  path's components plus the links followed; \<open>resolved\<close> grants as many components as the path has
  characters and forty links, where the kernel gives up with \<open>ELOOP\<close> too. The components \<open>.\<close> and
  \<open>..\<close> are ordinary names here.
\<close>

fun walk :: "nat \<Rightarrow> world \<Rightarrow> path \<Rightarrow> path option" where
  "walk 0 w p = None"
| "walk (Suc n) w p =
     (let d = parent_path p in
      if filename p = [] \<and> d \<noteq> p then walk n w d
      else case (if d = [] \<or> d = p then Some p
                 else map_option (\<lambda>d'. path_append d' (filename p)) (walk n w d)) of
        None \<Rightarrow> None
      | Some q \<Rightarrow>
          (case inode_at w q of
             None \<Rightarrow> None
           | Some i \<Rightarrow> (case ino_kind i of
                 Symlink t \<Rightarrow> walk n w (path_append (parent_path q) t)
               | _ \<Rightarrow> Some q)))"

definition resolved :: "world \<Rightarrow> path \<Rightarrow> path option" where
  "resolved w p = walk (length p + 40) w p"

definition node :: "world \<Rightarrow> path \<Rightarrow> inode option" where
  "node w p = Option.bind (resolved w p) (inode_at w)"

section \<open>The interface\<close>

definition rfs_exists :: "world \<Rightarrow> path \<Rightarrow> bool" where
  "rfs_exists w p \<longleftrightarrow> node w p \<noteq> None"

definition rfs_is_regular_file :: "world \<Rightarrow> path \<Rightarrow> bool" where
  "rfs_is_regular_file w p \<longleftrightarrow> map_option ino_kind (node w p) = Some Regular"

definition rfs_is_directory :: "world \<Rightarrow> path \<Rightarrow> bool" where
  "rfs_is_directory w p \<longleftrightarrow> map_option ino_kind (node w p) = Some Dir"

text \<open>\<open>permitted\<close>: the files the process may open for reading.\<close>

definition rfs_readable :: "(path \<Rightarrow> bool) \<Rightarrow> world \<Rightarrow> path \<Rightarrow> bool" where
  "rfs_readable permitted w p \<longleftrightarrow> rfs_is_regular_file w p \<and> permitted p"

definition rfs_read_text :: "(path \<Rightarrow> bool) \<Rightarrow> world \<Rightarrow> path \<Rightarrow> string" where
  "rfs_read_text permitted w p =
     (case node w p of
        None \<Rightarrow> []
      | Some i \<Rightarrow> if permitted p \<and> ino_kind i \<noteq> Dir then ino_data i else [])"

definition rfs_list_directory :: "world \<Rightarrow> path \<Rightarrow> directory_entry list" where
  "rfs_list_directory w p =
     (case resolved w p of
        None \<Rightarrow> []
      | Some d \<Rightarrow>
          if map_option ino_kind (inode_at w d) \<noteq> Some Dir then []
          else map (\<lambda>(q, _). let e = path_append p (filename q) in
                 \<lparr>entry_path = e, regular_file = rfs_is_regular_file w e, is_dir = rfs_is_directory w e\<rparr>)
               (filter (\<lambda>(q, _). parent_path q = d \<and> q \<noteq> d) (names w)))"

text \<open>\<open>weakly_canonical\<close> of the standard library is the parameter \<open>canonical\<close>.\<close>

definition real_file_system :: "(path \<Rightarrow> bool) \<Rightarrow> (path \<Rightarrow> path) \<Rightarrow> world \<Rightarrow> file_system" where
  "real_file_system permitted canonical w =
     \<lparr>fs_exists = rfs_exists w, fs_is_regular_file = rfs_is_regular_file w,
      fs_is_directory = rfs_is_directory w, fs_readable = rfs_readable permitted w,
      fs_read_text = rfs_read_text permitted w, fs_list_directory = rfs_list_directory w,
      fs_canonical = canonical\<rparr>"

lemma real_file_system_simps [simp]:
  "fs_exists (real_file_system a c w) = rfs_exists w"
  "fs_is_regular_file (real_file_system a c w) = rfs_is_regular_file w"
  "fs_is_directory (real_file_system a c w) = rfs_is_directory w"
  "fs_readable (real_file_system a c w) = rfs_readable a w"
  "fs_read_text (real_file_system a c w) = rfs_read_text a w"
  "fs_list_directory (real_file_system a c w) = rfs_list_directory w"
  "fs_canonical (real_file_system a c w) = c"
  by (simp_all add: real_file_system_def)

lemma rfs_kinds:
  "rfs_is_regular_file w p \<Longrightarrow> rfs_exists w p" "rfs_is_directory w p \<Longrightarrow> rfs_exists w p"
  "\<not> (rfs_is_regular_file w p \<and> rfs_is_directory w p)"
  by (auto simp: rfs_is_regular_file_def rfs_is_directory_def rfs_exists_def)

lemma rfs_listed:
  "e \<in> set (rfs_list_directory w d) \<Longrightarrow>
     regular_file e = rfs_is_regular_file w (entry_path e) \<and> is_dir e = rfs_is_directory w (entry_path e)"
  by (auto simp: rfs_list_directory_def Let_def split: option.splits if_splits)

interpretation real: file_system_laws "real_file_system permitted canonical w"
  by unfold_locales (auto simp: rfs_readable_def rfs_kinds(3) dest: rfs_kinds(1,2) rfs_listed)

end
