(* ===== verification/Kernel_Discovery.thy ===== *)
theory Kernel_Discovery
  imports Real_File_System Sorting System_Model
begin

text \<open>
\<open>infrastructure::KernelDiscovery\<close> (src/infrastructure/kernel_discovery.cpp): which kernels can be
  booted from the boot partition, with their images, microcode and initial ramdisks.
\<close>

section \<open>Text helpers\<close>

definition first_line :: "string \<Rightarrow> string" where
  "first_line value =
     (case find_index (\<lambda>c. c = CR \<or> c = NL) value of None \<Rightarrow> value | Some e \<Rightarrow> take e value)"

fun title_chars :: "string \<Rightarrow> bool \<Rightarrow> string" where
  "title_chars [] upper = []"
| "title_chars (ch # rest) upper =
     (if ch = CHR ''-'' \<or> ch = CHR ''_'' then CHR '' '' # title_chars rest True
      else (if upper then toupper ch else ch) # title_chars rest False)"

definition title_for :: "string \<Rightarrow> string" where
  "title_for pkgbase =
     (if pkgbase = ''linux'' then ''Linux''
      else if pkgbase = ''linux-lts'' then ''Linux LTS''
      else if pkgbase = ''linux-zen'' then ''Linux Zen''
      else if pkgbase = ''linux-hardened'' then ''Linux Hardened''
      else ''Linux '' @
        title_chars (if starts_with pkgbase ''linux-'' then drop 6 pkgbase else pkgbase) True)"

section \<open>Walking the boot partition\<close>

function collect_files :: "file_system \<Rightarrow> nat \<Rightarrow> path \<Rightarrow> path list \<Rightarrow> path list" where
  "collect_files fs depth dir files =
     (if 8 < depth \<or> \<not> fs_is_directory fs dir then files
      else fold (\<lambda>entry acc.
             if regular_file entry then acc @ [entry_path entry]
             else if is_dir entry then collect_files fs (depth + 1) (entry_path entry) acc
             else acc) (fs_list_directory fs dir) files)"
  by pat_completeness auto
termination
  by (relation "measure (\<lambda>(fs, depth, dir, files). 9 - depth)") auto

declare collect_files.simps [simp del]

definition named_files :: "path list \<Rightarrow> string \<Rightarrow> path list" where
  "named_files files name = sort_by path_less (filter (\<lambda>p. filename p = name) files)"

definition find_uki :: "path list \<Rightarrow> string \<Rightarrow> path" where
  "find_uki files pkgbase =
     (case concat (map (\<lambda>name. filter (\<lambda>p. lower (extension p) = ''.efi'' \<and> filename p = name) files)
             [''arch-'' @ pkgbase @ ''.efi'', pkgbase @ ''.efi'', ''vmlinuz-'' @ pkgbase @ ''.efi'']) of
        [] \<Rightarrow> [] | p # _ \<Rightarrow> p)"

definition microcode_images :: "file_system \<Rightarrow> kernel_discovery_profile \<Rightarrow> path list \<Rightarrow> path list" where
  "microcode_images fs profile files =
     (let cpuinfo = fs_read_text fs (kd_cpuinfo profile);
          name = (if contains_sub cpuinfo ''GenuineIntel'' then ''intel-ucode.img''
                  else if contains_sub cpuinfo ''AuthenticAMD'' then ''amd-ucode.img'' else []) in
      if name = [] then [] else named_files files name)"

section \<open>Discovery\<close>

definition add_release :: "file_system \<Rightarrow> directory_entry \<Rightarrow> (string \<rightharpoonup> string) \<Rightarrow> (string \<rightharpoonup> string)" where
  "add_release fs entry releases =
     (if \<not> is_dir entry then releases
      else let pkgbase = first_line (fs_read_text fs (path_append (entry_path entry) ''pkgbase'')) in
           if pkgbase \<noteq> [] then releases(pkgbase \<mapsto> filename (entry_path entry)) else releases)"

definition module_releases :: "file_system \<Rightarrow> kernel_discovery_profile \<Rightarrow> (string \<rightharpoonup> string)" where
  "module_releases fs profile =
     (if fs_is_directory fs (kd_modules_root profile)
      then fold (add_release fs) (fs_list_directory fs (kd_modules_root profile)) Map.empty
      else Map.empty)"

definition kernel_image_name :: "path \<Rightarrow> bool" where
  "kernel_image_name p \<longleftrightarrow> starts_with (filename p) ''vmlinuz-'' \<and> length (filename p) \<noteq> 8"

definition kernel_at :: "(string \<rightharpoonup> string) \<Rightarrow> path list \<Rightarrow> path list \<Rightarrow> string \<Rightarrow> path \<Rightarrow> kernel_installation" where
  "kernel_at releases boot_files microcodes running_release p =
     (let pkgbase = drop 8 (filename p);
          rel = (case releases pkgbase of Some r \<Rightarrow> r | None \<Rightarrow> []);
          initramfs_matches = named_files boot_files (''initramfs-'' @ pkgbase @ ''.img'');
          uki = find_uki boot_files pkgbase;
          use_uki = (initramfs_matches = [] \<and> uki \<noteq> []) in
      \<lparr>package_base = pkgbase, release = rel, display_name = title_for pkgbase,
       image = (if use_uki then uki else p),
       initrds = (if use_uki then []
                  else microcodes @ (if initramfs_matches \<noteq> [] then [hd initramfs_matches] else [])),
       unified_kernel_image = use_uki,
       running = (rel \<noteq> [] \<and> rel = running_release)\<rparr>)"

text \<open>The comparison of the final sort. It is not irreflexive: \<open>linux\<close> precedes itself.\<close>

definition kernel_before :: "kernel_installation \<Rightarrow> kernel_installation \<Rightarrow> bool" where
  "kernel_before lhs rhs =
     (if running lhs \<noteq> running rhs then running lhs
      else if package_base lhs = ''linux'' \<or> package_base rhs = ''linux'' then package_base lhs = ''linux''
      else package_base lhs < package_base rhs)"

definition discover_kernels :: "file_system \<Rightarrow> kernel_discovery_profile \<Rightarrow> string \<Rightarrow> kernel_installation list" where
  "discover_kernels fs profile running_release =
     (let releases = module_releases fs profile;
          boot_files = collect_files fs 0 (kd_boot_mount profile) [];
          microcodes = microcode_images fs profile boot_files in
      sort_by kernel_before
        (map (kernel_at releases boot_files microcodes running_release)
           (filter kernel_image_name boot_files)))"

section \<open>What is found\<close>

lemma fold_subset:
  assumes "\<And>e acc. e \<in> set es \<Longrightarrow> set (f e acc) \<subseteq> set acc \<union> S"
  shows "set (fold f es acc) \<subseteq> set acc \<union> S"
  using assms
proof (induction es arbitrary: acc)
  case (Cons e es)
  have "set (fold f es (f e acc)) \<subseteq> set (f e acc) \<union> S" by (rule Cons.IH) (use Cons.prems in auto)
  with Cons.prems [of e acc] show ?case by auto
qed simp

lemma set_named_files: "set (named_files files n) = {p \<in> set files. filename p = n}"
  by (simp add: named_files_def)

lemma first_in: "(case l of [] \<Rightarrow> [] | p # _ \<Rightarrow> p) \<noteq> [] \<Longrightarrow> (case l of [] \<Rightarrow> [] | p # _ \<Rightarrow> p) \<in> set l"
  by (cases l) simp_all

lemma find_uki_in: "find_uki files b \<noteq> [] \<Longrightarrow> find_uki files b \<in> set files"
  unfolding find_uki_def by (drule first_in) auto

lemma microcode_images_in: "set (microcode_images fs profile files) \<subseteq> set files"
  by (auto simp: microcode_images_def set_named_files Let_def)

context file_system_laws begin

lemma collect_files_regular:
  "set (collect_files fs depth d files) \<subseteq> set files \<union> {p. fs_is_regular_file fs p}"
proof (induction fs\<equiv>fs depth d files rule: collect_files.induct)
  case (1 depth d files)
  show ?case
  proof (cases "8 < depth \<or> \<not> fs_is_directory fs d")
    case False
    have "set (fold (\<lambda>entry acc. if regular_file entry then acc @ [entry_path entry]
        else if is_dir entry then collect_files fs (depth + 1) (entry_path entry) acc else acc)
        (fs_list_directory fs d) files) \<subseteq> set files \<union> {p. fs_is_regular_file fs p}"
    proof (rule fold_subset)
      fix e acc assume e: "e \<in> set (fs_list_directory fs d)"
      show "set (if regular_file e then acc @ [entry_path e]
        else if is_dir e then collect_files fs (depth + 1) (entry_path e) acc else acc)
        \<subseteq> set acc \<union> {p. fs_is_regular_file fs p}"
        using 1 [OF False e, of acc] listed_regular [OF e] by auto
    qed
    with False show ?thesis by (subst collect_files.simps) simp
  qed (auto simp: collect_files.simps)
qed

text \<open>Every image and initial ramdisk offered is a regular file of the boot partition.\<close>

lemma discovered_files_regular:
  assumes "k \<in> set (discover_kernels fs profile rel)"
  shows "fs_is_regular_file fs (image k) \<and> (\<forall>i\<in>set (initrds k). fs_is_regular_file fs i)"
proof -
  let ?files = "collect_files fs 0 (kd_boot_mount profile) []"
  have reg: "\<And>p. p \<in> set ?files \<Longrightarrow> fs_is_regular_file fs p" using collect_files_regular by force
  obtain p where p: "p \<in> set ?files"
    "k = kernel_at (module_releases fs profile) ?files (microcode_images fs profile ?files) rel p"
    using assms by (auto simp: discover_kernels_def Let_def)
  have m: "\<And>i. i \<in> set (microcode_images fs profile ?files) \<Longrightarrow> i \<in> set ?files"
    using microcode_images_in by blast
  have n: "named_files ?files b \<noteq> [] \<Longrightarrow> hd (named_files ?files b) \<in> set ?files" for b
    using set_named_files [of ?files b] hd_in_set by blast
  have im: "image k \<in> set ?files" using p find_uki_in by (auto simp: kernel_at_def Let_def)
  have "i \<in> set ?files" if "i \<in> set (initrds k)" for i
    using that p(2) m n by (auto simp: kernel_at_def Let_def split: if_splits)
  with im reg show ?thesis by blast
qed

end

lemma discover_kernels_mset:
  "mset (discover_kernels fs profile rel) =
     (let files = collect_files fs 0 (kd_boot_mount profile) [] in
      image_mset (kernel_at (module_releases fs profile) files (microcode_images fs profile files) rel)
        (mset (filter kernel_image_name files)))"
  by (simp add: discover_kernels_def Let_def)

lemma kernel_at_simps [simp]:
  "package_base (kernel_at rs fs mc rel p) = drop 8 (filename p)"
  "running (kernel_at rs fs mc rel p) \<longleftrightarrow> rs (drop 8 (filename p)) = Some rel \<and> rel \<noteq> []"
  by (auto simp: kernel_at_def Let_def split: option.splits)

lemma running_coarsens: "coarsens (\<lambda>a b. running b \<longrightarrow> running a) kernel_before S"
  by (auto simp: coarsens_def kernel_before_def split: if_splits)

lemma discovered_order: "sorted_wrt (\<lambda>a b. running b \<longrightarrow> running a) (discover_kernels fs profile rel)"
  unfolding discover_kernels_def Let_def by (rule sorted_wrt_sort_by [OF running_coarsens])

lemma discovered_kernel_shape:
  assumes "k \<in> set (discover_kernels fs profile rel)"
  shows "package_base k \<noteq> [] \<and> display_name k = title_for (package_base k) \<and>
    (unified_kernel_image k \<longrightarrow> initrds k = []) \<and>
    (running k \<longleftrightarrow> rel \<noteq> [] \<and> release k = rel) \<and>
    (\<not> unified_kernel_image k \<longrightarrow> filename (image k) = ''vmlinuz-'' @ package_base k)"
proof -
  let ?files = "collect_files fs 0 (kd_boot_mount profile) []"
  obtain p where p: "kernel_image_name p"
    "k = kernel_at (module_releases fs profile) ?files (microcode_images fs profile ?files) rel p"
    using assms by (auto simp: discover_kernels_def Let_def)
  from p(1) obtain b where "filename p = ''vmlinuz-'' @ b" "b \<noteq> []"
    by (auto simp: kernel_image_name_def starts_with_iff)
  then show ?thesis unfolding p(2) by (auto simp: kernel_at_def Let_def)
qed

text \<open>
  C34: every kernel offered for booting is really there: its image and all its initial ramdisks are
  regular files of the host, its name is not empty, a unified image comes without ramdisks, a kernel
  counts as running exactly when its modules carry the release that runs, running kernels come first,
  and there is exactly one kernel for each file whose name begins with \<open>vmlinuz-\<close>.
\<close>

theorem discovered_kernels_bootable:
  "let fs = real_file_system permitted canonical w;
       files = collect_files fs 0 (kd_boot_mount profile) [];
       ks = discover_kernels fs profile rel in
   list_all (\<lambda>k. rfs_is_regular_file w (image k) \<and> list_all (rfs_is_regular_file w) (initrds k) \<and>
     package_base k \<noteq> [] \<and> \<not> (unified_kernel_image k \<and> initrds k \<noteq> []) \<and>
     (running k = (rel \<noteq> [] \<and> release k = rel))) ks \<and>
   sorted_wrt (\<lambda>a b. running b \<le> running a) ks \<and>
   image_mset package_base (mset ks) = image_mset (\<lambda>p. drop 8 (filename p)) (mset (filter kernel_image_name files))"
  using real.discovered_files_regular discovered_kernel_shape discovered_order [unfolded le_bool_def [symmetric]]
  by (auto simp: Let_def list_all_iff discover_kernels_mset multiset.map_comp comp_def)

end
