(* ===== verification/System_Detector.thy ===== *)
theory System_Detector
  imports Kernel_Discovery
begin

text \<open>
\<open>infrastructure::SystemDetector\<close> (src/infrastructure/system_detector.cpp): what the program finds
  out about the host by reading files and asking external tools. The tools are the parameter
  \<open>runner\<close>, the files the interface of theory File_System.
\<close>

section \<open>Text the tools print\<close>

definition unquote :: "string \<Rightarrow> string" where
  "unquote v = (if 2 \<le> length v \<and> hd v = CHR 0x22 \<and> last v = CHR 0x22 then substr v 1 (length v - 2) else v)"

definition os_pretty_name :: "file_system \<Rightarrow> string" where
  "os_pretty_name fs =
     (case find (\<lambda>line. starts_with line ''PRETTY_NAME='') (getlines (fs_read_text fs ''/etc/os-release'')) of
        Some line \<Rightarrow> unquote (drop 12 line) | None \<Rightarrow> ''Linux'')"

definition require_command :: "query_runner \<Rightarrow> string list \<Rightarrow> string \<Rightarrow> string result" where
  "require_command runner args label =
     bind_r (runner args) (\<lambda>res.
       if exit_code res \<noteq> 0 then Inl (Runtime_error (label @ '' failed: '' @ trim (proc_output res)))
       else Inr (trim (proc_output res)))"

definition optional_command :: "query_runner \<Rightarrow> string list \<Rightarrow> string result" where
  "optional_command runner args =
     bind_r (runner args) (\<lambda>res. Inr (if exit_code res = 0 then trim (proc_output res) else []))"

definition mount_field :: "query_runner \<Rightarrow> path \<Rightarrow> string \<Rightarrow> string result" where
  "mount_field runner target fld =
     require_command runner
       [''findmnt'', ''--noheadings'', ''--raw'', ''--target'', target, ''--output'', fld]
       (''findmnt '' @ target @ '' '' @ fld)"

definition option_value :: "string \<Rightarrow> string \<Rightarrow> string" where
  "option_value options key =
     (case find (\<lambda>item. starts_with item (key @ ''='')) (split_on (CHR '','') options) of
        Some item \<Rightarrow> drop (length key + 1) item | None \<Rightarrow> [])"

definition normalize_mount_source :: "string \<Rightarrow> string" where
  "normalize_mount_source source =
     (case find_char (CHR ''['') source of
        Some i \<Rightarrow> if ends_with source '']'' then take i source else source
      | None \<Rightarrow> source)"

section \<open>The device below an encrypted root\<close>

definition sysfs_backing_device :: "file_system \<Rightarrow> string \<Rightarrow> string" where
  "sysfs_backing_device fs mounted_root =
     (let mapper_device = filename (fs_canonical fs mounted_root);
          slaves = path_append (path_append ''/sys/class/block'' mapper_device) ''slaves'' in
      if mapper_device = [] then []
      else if \<not> fs_is_directory fs slaves then []
      else case fs_list_directory fs slaves of
        [e] \<Rightarrow> let device_name = filename (entry_path e) in
               if device_name = [] then [] else ''/dev/'' @ device_name
      | _ \<Rightarrow> [])"

definition cryptsetup_backing_device :: "query_runner \<Rightarrow> string \<Rightarrow> string result" where
  "cryptsetup_backing_device runner mapper =
     bind_r (optional_command runner [''cryptsetup'', ''status'', mapper]) (\<lambda>text.
       Inr (case find (\<lambda>line. starts_with line ''device:'') (map trim (getlines text)) of
              Some line \<Rightarrow> trim (drop 7 line) | None \<Rightarrow> []))"

definition uses_sd_encrypt :: "file_system \<Rightarrow> path \<Rightarrow> bool" where
  "uses_sd_encrypt fs config =
     (let text = fs_read_text fs config in
      case find_sub text ''HOOKS='' of
        None \<Rightarrow> False
      | Some hooks \<Rightarrow>
          contains_sub (takeWhile (\<lambda>c. c \<noteq> NL) (drop hooks text)) ''sd-encrypt'')"

section \<open>Limine's files\<close>

function collect_named_files :: "file_system \<Rightarrow> nat \<Rightarrow> path \<Rightarrow> string \<Rightarrow> path list \<Rightarrow> path list" where
  "collect_named_files fs depth dir name matches =
     (if 8 < depth \<or> \<not> fs_is_directory fs dir then matches
      else fold (\<lambda>entry acc.
             if regular_file entry \<and> filename (entry_path entry) = name then acc @ [entry_path entry]
             else if is_dir entry then collect_named_files fs (depth + 1) (entry_path entry) name acc
             else acc) (fs_list_directory fs dir) matches)"
  by pat_completeness auto
termination
  by (relation "measure (\<lambda>(fs, depth, dir, name, matches). 9 - depth)") auto

declare collect_named_files.simps [simp del]

text \<open>The comparison of \<open>discover_limine_config\<close>; the preferred path precedes itself.\<close>

definition config_before :: "path \<Rightarrow> path \<Rightarrow> path \<Rightarrow> bool" where
  "config_before boot_mount lhs rhs =
     (let preferred = path_append boot_mount ''EFI/BOOT/limine.conf'' in
      if path_eq lhs preferred \<or> path_eq rhs preferred then path_eq lhs preferred else lhs < rhs)"

definition discover_limine_config :: "file_system \<Rightarrow> path \<Rightarrow> path \<Rightarrow> path" where
  "discover_limine_config fs configured boot_mount =
     (if fs_is_regular_file fs configured then configured
      else case sort_by (config_before boot_mount)
                  (collect_named_files fs 0 boot_mount ''limine.conf'' []) of
        [] \<Rightarrow> configured | p # _ \<Rightarrow> p)"

definition discover_limine_efi :: "file_system \<Rightarrow> path \<Rightarrow> path \<Rightarrow> path" where
  "discover_limine_efi fs boot_mount configured =
     (if configured \<noteq> [] \<and> fs_is_regular_file fs configured then configured
      else case find (fs_is_regular_file fs)
                  [path_append boot_mount ''EFI/BOOT/BOOTX64.EFI'',
                   path_append boot_mount ''EFI/limine/limine_x64.efi'',
                   path_append boot_mount ''limine_x64.efi''] of
        Some p \<Rightarrow> p | None \<Rightarrow> [])"

section \<open>Secure Boot\<close>

definition blake2b :: "query_runner \<Rightarrow> path \<Rightarrow> string result" where
  "blake2b runner p =
     bind_r (runner [''b2sum'', p]) (\<lambda>res.
       if exit_code res \<noteq> 0 then Inr []
       else let digest = takeWhile (\<lambda>c. \<not> is_ws c) (proc_output res) in
         Inr (if length digest = 128 then digest else []))"

text \<open>One line of \<open>sbctl status\<close>.\<close>

definition status_line :: "string \<Rightarrow> secure_boot_info \<Rightarrow> secure_boot_info" where
  "status_line line info =
     (if contains_sub line ''Secure Boot:'' then info\<lparr>sb_enabled := contains_sub line ''Enabled''\<rparr>
      else if contains_sub line ''Setup Mode:'' then info\<lparr>setup_mode := contains_sub line ''Enabled''\<rparr>
      else info)"

definition default_secure_boot :: secure_boot_info where
  "default_secure_boot =
     \<lparr>sb_enabled = False, setup_mode = False, sbctl_available = False, limine_available = False,
      sbattach_available = False, efi_signature = Unavailable, efi_signature_detail = [],
      efi_executable = [], resource_hashes = []\<rparr>"

definition hash_resource :: "query_runner \<Rightarrow> path \<Rightarrow> (path \<times> string) list \<Rightarrow> (path \<times> string) list result" where
  "hash_resource runner p hashes = bind_r (blake2b runner p) (\<lambda>h. Inr ((p, h) # hashes))"

definition hash_kernel ::
  "query_runner \<Rightarrow> kernel_installation \<Rightarrow> (path \<times> string) list \<Rightarrow> (path \<times> string) list result" where
  "hash_kernel runner k hashes =
     bind_r (if \<not> unified_kernel_image k then hash_resource runner (image k) hashes else Inr hashes)
       (fold_r (hash_resource runner) (initrds k))"

definition signature_of :: "process_result \<Rightarrow> signature_state" where
  "signature_of verify =
     (if exit_code verify = 0 then Verified
      else if contains_sub (proc_output verify) ''permission denied'' \<or>
              contains_sub (proc_output verify) ''requires root'' then Unavailable
      else Unsigned_file)"

definition detect_secure_boot ::
  "query_runner \<Rightarrow> file_system \<Rightarrow> system_profile \<Rightarrow> kernel_installation list \<Rightarrow> secure_boot_info result" where
  "detect_secure_boot runner fs profile ks =
     bind_r (runner [''sbctl'', ''status'']) (\<lambda>status.
     let have_sbctl = (exit_code status = 0);
         info = default_secure_boot\<lparr>sbctl_available := have_sbctl\<rparr>;
         info = (if have_sbctl then fold status_line (getlines (proc_output status)) info else info) in
     bind_r (runner [''limine'', ''--version'']) (\<lambda>limine.
     bind_r (runner [''sbattach'', ''--help'']) (\<lambda>sbattach.
     let efi = discover_limine_efi fs (sp_boot_mount profile) (sp_limine_efi_executable profile);
         info = info\<lparr>limine_available := exit_code limine = 0, sbattach_available := exit_code sbattach = 0,
                     efi_executable := efi\<rparr> in
     bind_r (if efi \<noteq> [] \<and> have_sbctl
             then bind_r (runner [''sbctl'', ''verify'', efi]) (\<lambda>verify.
               Inr (info\<lparr>efi_signature_detail := proc_output verify, efi_signature := signature_of verify\<rparr>))
             else Inr info) (\<lambda>info.
     if sb_enabled info
     then bind_r (fold_r (hash_kernel runner) ks []) (\<lambda>hashes. Inr (info\<lparr>resource_hashes := hashes\<rparr>))
     else Inr info))))"

section \<open>The kernel command line\<close>

definition generate_cmdline :: "system_info \<Rightarrow> bool \<Rightarrow> string result" where
  "generate_cmdline info sd_encrypt =
     bind_r
       (if root_encrypted info then
          if luks_uuid info = [] then
            Inl (Runtime_error (''Unable to determine the LUKS UUID for encrypted root '' @ root_source info))
          else Inr ((if sd_encrypt then ''rd.luks.name='' @ luks_uuid info @ ''='' @ root_mapper_name info
                     else ''cryptdevice=UUID='' @ luks_uuid info @ '':'' @ root_mapper_name info) @
                    '' root=/dev/mapper/'' @ root_mapper_name info)
        else if root_uuid info = [] then
          Inl (Runtime_error (''Unable to determine the filesystem UUID for root '' @ root_source info))
        else Inr (''root=UUID='' @ root_uuid info))
       (\<lambda>text. Inr (text @ (if root_subvolume info \<noteq> [] then '' rootflags=subvol='' @ root_subvolume info else []) @ '' rw''))"

definition blkid_args :: "string \<Rightarrow> string \<Rightarrow> string list" where
  "blkid_args tag device = [''blkid'', ''--match-tag'', tag, ''--output'', ''value'', device]"

text \<open>The part of \<open>detect\<close> that looks for the device below an encrypted root.\<close>

definition backing_device :: "query_runner \<Rightarrow> file_system \<Rightarrow> string \<Rightarrow> string \<Rightarrow> string result" where
  "backing_device runner fs mounted_root mapper =
     (let parent = sysfs_backing_device fs mounted_root in
      bind_r (if parent = [] then cryptsetup_backing_device runner mapper else Inr parent) (\<lambda>parent.
      if parent = [] then
        bind_r (optional_command runner
            [''lsblk'', ''--noheadings'', ''--raw'', ''--output'', ''PKNAME'', mounted_root]) (\<lambda>parent.
          Inr (if parent \<noteq> [] \<and> \<not> starts_with parent ''/dev/'' then ''/dev/'' @ parent else parent))
      else Inr parent))"

definition detect_root :: "query_runner \<Rightarrow> file_system \<Rightarrow> system_info \<Rightarrow> system_info result" where
  "detect_root runner fs info =
     (let mounted_root = normalize_mount_source (root_source info) in
      bind_r (optional_command runner
          [''lsblk'', ''--noheadings'', ''--raw'', ''--output'', ''TYPE'', mounted_root]) (\<lambda>block_type.
      if (if block_type = [] then starts_with mounted_root ''/dev/mapper/'' else block_type = ''crypt'') then
        let mapper = filename mounted_root in
        bind_r (optional_command runner (blkid_args ''UUID'' mounted_root)) (\<lambda>uuid.
        bind_r (backing_device runner fs mounted_root mapper) (\<lambda>parent.
        let info = info\<lparr>root_encrypted := True, root_mapper_name := mapper, root_uuid := uuid,
                        encrypted_backing_device := parent\<rparr> in
        if parent = [] then Inr info
        else
          bind_r (optional_command runner (blkid_args ''UUID'' parent)) (\<lambda>luks.
          bind_r (optional_command runner (blkid_args ''PARTUUID'' parent)) (\<lambda>partuuid.
          Inr (info\<lparr>luks_uuid := luks, encrypted_backing_partuuid := partuuid\<rparr>)))))
      else
        bind_r (optional_command runner (blkid_args ''UUID'' mounted_root)) (\<lambda>uuid.
        Inr (info\<lparr>root_encrypted := False, root_uuid := uuid\<rparr>))))"

definition detect_cmdline :: "file_system \<Rightarrow> system_profile \<Rightarrow> system_info \<Rightarrow> system_info result" where
  "detect_cmdline fs profile info =
     (let configured = trim (fs_read_text fs (si_kernel_cmdline_file info)) in
      bind_r (if configured = []
              then bind_r (generate_cmdline info (uses_sd_encrypt fs (sp_mkinitcpio_config profile))) (\<lambda>text. Inr (text, True))
              else Inr (configured, False)) (\<lambda>(text, generated).
      bind_r (parse text) (\<lambda>cmdline.
      Inr (info\<lparr>kernel_cmdline_text := text, kernel_cmdline_generated := generated, kernel_cmdline := cmdline\<rparr>))))"

definition empty_system_info :: system_info where
  "empty_system_info =
     \<lparr>os_name = [], running_kernel_release = [], si_boot_mount = [], boot_target = [], boot_source = [],
      boot_fstype = [], si_limine_config = [], si_kernel_cmdline_file = [], kernel_cmdline_text = [],
      kernel_cmdline = \<lparr>arguments = []\<rparr>, kernels = [], root_source = [], root_fstype = [],
      root_subvolume = [], root_uuid = [], root_encrypted = False, root_mapper_name = [],
      encrypted_backing_device = [], encrypted_backing_partuuid = [], luks_uuid = [],
      kernel_cmdline_generated = False, secure_boot = default_secure_boot\<rparr>"

definition strip_leading_slash :: "string \<Rightarrow> string" where
  "strip_leading_slash s = (if s \<noteq> [] \<and> hd s = SLASH then tl s else s)"

definition detect :: "query_runner \<Rightarrow> file_system \<Rightarrow> system_profile \<Rightarrow> system_info result" where
  "detect runner fs profile =
     bind_r (require_command runner [''uname'', ''-r''] ''uname'') (\<lambda>rel.
     bind_r (mount_field runner (sp_boot_mount profile) ''TARGET'') (\<lambda>target.
     bind_r (mount_field runner (sp_boot_mount profile) ''SOURCE'') (\<lambda>source.
     bind_r (mount_field runner (sp_boot_mount profile) ''FSTYPE'') (\<lambda>fstype.
     let found = discover_kernels fs
           \<lparr>kd_boot_mount = sp_boot_mount profile, kd_modules_root = sp_modules_root profile,
            kd_cpuinfo = sp_cpuinfo profile\<rparr> rel in
     bind_r (detect_secure_boot runner fs profile found) (\<lambda>sb.
     bind_r (mount_field runner ''/'' ''SOURCE'') (\<lambda>rsource.
     bind_r (mount_field runner ''/'' ''FSTYPE'') (\<lambda>rfstype.
     bind_r (mount_field runner ''/'' ''OPTIONS'') (\<lambda>options.
     bind_r (detect_root runner fs
       (empty_system_info
         \<lparr>os_name := os_pretty_name fs, running_kernel_release := rel, si_boot_mount := sp_boot_mount profile,
          boot_target := target, boot_source := source, boot_fstype := fstype,
          si_limine_config := discover_limine_config fs (sp_limine_config profile) (sp_boot_mount profile),
          si_kernel_cmdline_file := sp_kernel_cmdline_file profile, kernels := found, secure_boot := sb,
          root_source := rsource, root_fstype := rfstype,
          root_subvolume := strip_leading_slash (option_value options ''subvol'')\<rparr>))
       (detect_cmdline fs profile)))))))))"


section \<open>What detection yields\<close>

definition plain_word :: "string \<Rightarrow> bool" where
  "plain_word s \<longleftrightarrow> list_all (\<lambda>c. \<not> needs_quote c \<and> c \<noteq> SQUOTE \<and> \<not> isspace c) s"

definition generated_arguments :: "system_info \<Rightarrow> bool \<Rightarrow> string list" where
  "generated_arguments info sd_encrypt =
     (if root_encrypted info then
        [if sd_encrypt then ''rd.luks.name='' @ luks_uuid info @ ''='' @ root_mapper_name info
         else ''cryptdevice=UUID='' @ luks_uuid info @ '':'' @ root_mapper_name info,
         ''root=/dev/mapper/'' @ root_mapper_name info]
      else [''root=UUID='' @ root_uuid info]) @
     (if root_subvolume info \<noteq> [] then [''rootflags=subvol='' @ root_subvolume info] else []) @ [''rw'']"

lemma plain_word_append [simp]: "plain_word (a @ b) \<longleftrightarrow> plain_word a \<and> plain_word b"
  by (simp add: plain_word_def)

lemma quote_plain: "plain_word a \<Longrightarrow> quote_argument a = a"
  by (simp add: plain_word_def list_all_iff quote_argument_def find_index_None_iff)

lemma plain_parse_safe: "plain_word a \<Longrightarrow> a \<noteq> [] \<Longrightarrow> parse_safe a"
  by (auto simp: plain_word_def list_all_iff parse_safe_def)

lemma render_plain:
  "list_all plain_word (a # as) \<Longrightarrow> a \<noteq> [] \<Longrightarrow>
     cmdline_render \<lparr>arguments = a # as\<rparr> = a @ concat (map (\<lambda>b. '' '' @ b) as)"
proof -
  assume a: "list_all plain_word (a # as)" "a \<noteq> []"
  then have "map (\<lambda>b. '' '' @ quote_argument b) as = map (\<lambda>b. '' '' @ b) as"
    by (auto simp: quote_plain list_all_iff)
  moreover have "cmdline_render \<lparr>arguments = a # as\<rparr> = a @ concat (map (\<lambda>b. '' '' @ quote_argument b) as)"
    using a by (simp add: cmdline_render_def render_step_def render_from quote_plain)
  ultimately show ?thesis by (simp only:)
qed

lemma plain_word_simps [simp]:
  "plain_word []" "plain_word (c # s) \<longleftrightarrow> \<not> needs_quote c \<and> c \<noteq> SQUOTE \<and> \<not> isspace c \<and> plain_word s"
  by (auto simp: plain_word_def)

lemmas plain_chars = needs_quote_def isspace_def is_ws_def

text \<open>
  C35: a generated command line means what it says: for identifiers free of blanks and quotes, the
  parser reads from it exactly the mapping of the encrypted device (in the form of the initramfs
  hook in use), the root device, the root subvolume if there is one, and \<open>rw\<close>.
\<close>

theorem generated_cmdline_parses:
  assumes "generate_cmdline info sd_encrypt = Inr text"
    and "list_all plain_word [luks_uuid info, root_mapper_name info, root_uuid info, root_subvolume info]"
  shows "parse text = Inr \<lparr>arguments = generated_arguments info sd_encrypt\<rparr>"
proof -
  let ?args = "generated_arguments info sd_encrypt"
  have p: "list_all plain_word ?args" "[] \<notin> set ?args"
    using assms(2) by (simp_all add: generated_arguments_def plain_chars)
  obtain a as where a: "?args = a # as" by (cases ?args) (auto simp: generated_arguments_def)
  have "text = a @ concat (map (\<lambda>b. '' '' @ b) as)"
    using assms(1) a by (auto simp: generate_cmdline_def generated_arguments_def result_simps split: if_splits)
  also have "\<dots> = cmdline_render \<lparr>arguments = ?args\<rparr>"
    using p a by (subst a, subst render_plain) auto
  finally show ?thesis
    using parse_rendered [of "\<lparr>arguments = ?args\<rparr>"] p
    by (auto simp: list_all_iff intro: plain_parse_safe)
qed

theorem generated_cmdline_parses_witness:
  "parse ''cryptdevice=UUID=12-ab:cryptroot root=/dev/mapper/cryptroot rootflags=subvol=@ rw'' =
     Inr \<lparr>arguments = [''cryptdevice=UUID=12-ab:cryptroot'', ''root=/dev/mapper/cryptroot'', ''rootflags=subvol=@'', ''rw'']\<rparr>"
proof -
  let ?i = "empty_system_info\<lparr>root_encrypted := True, luks_uuid := ''12-ab'', root_mapper_name := ''cryptroot'',
    root_subvolume := ''@''\<rparr>"
  have g: "generate_cmdline ?i False =
      Inr ''cryptdevice=UUID=12-ab:cryptroot root=/dev/mapper/cryptroot rootflags=subvol=@ rw''"
    by (simp add: generate_cmdline_def empty_system_info_def)
  have p: "list_all plain_word [luks_uuid ?i, root_mapper_name ?i, root_uuid ?i, root_subvolume ?i]"
    by (simp add: empty_system_info_def plain_chars)
  from generated_cmdline_parses [OF g p] show ?thesis
    by (simp add: generated_arguments_def empty_system_info_def)
qed

lemma detect_cmdline_spec:
  assumes "detect_cmdline fs profile info = Inr info'"
  shows "\<exists>text gen cmdline. info' = info\<lparr>kernel_cmdline_text := text, kernel_cmdline_generated := gen, kernel_cmdline := cmdline\<rparr> \<and>
    text \<noteq> [] \<and> parse text = Inr cmdline \<and>
    (if trim (fs_read_text fs (si_kernel_cmdline_file info)) = []
     then gen \<and> generate_cmdline info (uses_sd_encrypt fs (sp_mkinitcpio_config profile)) = Inr text
     else \<not> gen \<and> text = trim (fs_read_text fs (si_kernel_cmdline_file info)))"
proof -
  have "generate_cmdline i b = Inr [] \<Longrightarrow> False" for i b
    by (auto simp: generate_cmdline_def result_simps split: if_splits)
  then have ne: "generate_cmdline i b = Inr t \<Longrightarrow> t \<noteq> []" for i b t by blast
  show ?thesis
  proof (cases "trim (fs_read_text fs (si_kernel_cmdline_file info)) = []")
    case True
    then show ?thesis using assms ne by (auto simp: detect_cmdline_def Let_def result_simps)
  next
    case False
    then show ?thesis using assms by (auto simp: detect_cmdline_def Let_def result_simps)
  qed
qed

text \<open>All results of a computation satisfy a predicate.\<close>

definition yields :: "('a \<Rightarrow> bool) \<Rightarrow> 'a result \<Rightarrow> bool" where
  "yields P r \<longleftrightarrow> (\<forall>x. r = Inr x \<longrightarrow> P x)"

lemma yields_rules:
  "P x \<Longrightarrow> yields P (Inr x)" "yields P (Inl e)"
  "(\<And>x. r = Inr x \<Longrightarrow> yields P (k x)) \<Longrightarrow> yields P (bind_r r k)"
  "yields P s \<Longrightarrow> yields P s' \<Longrightarrow> yields P (if b then s else s')"
  by (auto simp: yields_def result_simps)

lemma detect_root_keeps:
  assumes "detect_root runner fs info = Inr info'"
  shows "kernels info' = kernels info \<and> si_boot_mount info' = si_boot_mount info \<and>
     si_limine_config info' = si_limine_config info \<and> secure_boot info' = secure_boot info \<and>
     si_kernel_cmdline_file info' = si_kernel_cmdline_file info \<and> running_kernel_release info' = running_kernel_release info"
proof -
  let ?P = "\<lambda>info'. kernels info' = kernels info \<and> si_boot_mount info' = si_boot_mount info \<and>
     si_limine_config info' = si_limine_config info \<and> secure_boot info' = secure_boot info \<and>
     si_kernel_cmdline_file info' = si_kernel_cmdline_file info \<and> running_kernel_release info' = running_kernel_release info"
  have "yields ?P (detect_root runner fs info)"
    unfolding detect_root_def Let_def by (intro yields_rules) simp_all
  with assms show ?thesis by (simp add: yields_def)
qed

text \<open>
  a detection that succeeds is coherent: the kernels are those discovery finds for the running
  release, the configuration file is the one \<open>discover_limine_config\<close> chooses, and the command line
  is never empty and is the parse of the text kept beside it, which is the configured file's content
  unless that is blank, and the generated one otherwise, as the flag says.
\<close>

lemma detect_coherent:
  assumes "detect runner fs profile = Inr info"
  shows "si_boot_mount info = sp_boot_mount profile \<and>
    kernels info = discover_kernels fs
      \<lparr>kd_boot_mount = sp_boot_mount profile, kd_modules_root = sp_modules_root profile, kd_cpuinfo = sp_cpuinfo profile\<rparr>
      (running_kernel_release info) \<and>
    si_limine_config info = discover_limine_config fs (sp_limine_config profile) (sp_boot_mount profile) \<and>
    kernel_cmdline_text info \<noteq> [] \<and> parse (kernel_cmdline_text info) = Inr (kernel_cmdline info) \<and>
    kernel_cmdline_generated info = (trim (fs_read_text fs (sp_kernel_cmdline_file profile)) = []) \<and>
    (kernel_cmdline_generated info \<or> kernel_cmdline_text info = trim (fs_read_text fs (sp_kernel_cmdline_file profile)))"
proof -
  obtain rest mid where mid: "detect_root runner fs rest = Inr mid" "detect_cmdline fs profile mid = Inr info"
    and r: "si_boot_mount rest = sp_boot_mount profile"
      "si_limine_config rest = discover_limine_config fs (sp_limine_config profile) (sp_boot_mount profile)"
      "si_kernel_cmdline_file rest = sp_kernel_cmdline_file profile"
      "kernels rest = discover_kernels fs \<lparr>kd_boot_mount = sp_boot_mount profile, kd_modules_root = sp_modules_root profile,
         kd_cpuinfo = sp_cpuinfo profile\<rparr> (running_kernel_release rest)"
    using assms unfolding detect_def Let_def bind_r_eq_Inr
    by (elim exE conjE) (rule that, assumption, assumption, simp_all)
  from detect_cmdline_spec [OF mid(2)] obtain t gen cmdline where
    i: "info = mid\<lparr>kernel_cmdline_text := t, kernel_cmdline_generated := gen, kernel_cmdline := cmdline\<rparr>"
    "t \<noteq> []" "parse t = Inr cmdline"
    "if trim (fs_read_text fs (si_kernel_cmdline_file mid)) = [] then gen
     else \<not> gen \<and> t = trim (fs_read_text fs (si_kernel_cmdline_file mid))"
    by (auto split: if_splits)
  from detect_root_keeps [OF mid(1)] i r show ?thesis by (auto split: if_splits)
qed

definition bare_file_system :: file_system where
  "bare_file_system =
     \<lparr>fs_exists = (\<lambda>_. False), fs_is_regular_file = (\<lambda>_. False), fs_is_directory = (\<lambda>_. False),
      fs_readable = (\<lambda>_. False), fs_read_text = (\<lambda>_. []), fs_list_directory = (\<lambda>_. []), fs_canonical = (\<lambda>p. p)\<rparr>"

lemma detect_coherent_witness:
  "\<exists>info. detect (\<lambda>_. Inr \<lparr>exit_code = 0, proc_output = ''x''\<rparr>) bare_file_system default_system_profile = Inr info \<and>
     kernel_cmdline_generated info \<and> parse (kernel_cmdline_text info) = Inr (kernel_cmdline info)"
proof -
  let ?d = "detect (\<lambda>_. Inr \<lparr>exit_code = 0, proc_output = ''x''\<rparr>) bare_file_system default_system_profile"
  have "(case ?d of Inl _ \<Rightarrow> False | Inr i \<Rightarrow> True) = True" by code_simp
  then obtain info where d: "?d = Inr info" by (auto split: sum.splits)
  from detect_coherent [OF d] d show ?thesis by (auto simp: bare_file_system_def)
qed

lemma collect_named_found:
  "set (collect_named_files (real_file_system a c w) depth d name ms) \<subseteq>
     set ms \<union> {p. rfs_is_regular_file w p \<and> filename p = name}"
proof (induction "real_file_system a c w" depth d name ms rule: collect_named_files.induct)
  case (1 depth d name ms)
  let ?fs = "real_file_system a c w"
  show ?case
  proof (cases "8 < depth \<or> \<not> fs_is_directory ?fs d")
    case False
    have "set (fold (\<lambda>entry acc. if regular_file entry \<and> filename (entry_path entry) = name then acc @ [entry_path entry]
        else if is_dir entry then collect_named_files ?fs (depth + 1) (entry_path entry) name acc else acc)
        (fs_list_directory ?fs d) ms) \<subseteq> set ms \<union> {p. rfs_is_regular_file w p \<and> filename p = name}"
    proof (rule fold_subset)
      fix e acc assume e: "e \<in> set (fs_list_directory ?fs d)"
      show "set (if regular_file e \<and> filename (entry_path e) = name then acc @ [entry_path e]
        else if is_dir e then collect_named_files ?fs (depth + 1) (entry_path e) name acc else acc)
        \<subseteq> set acc \<union> {p. rfs_is_regular_file w p \<and> filename p = name}"
        using 1 [OF False e, of acc] real.listed_regular [OF e] by auto
    qed
    with False show ?thesis by (subst collect_named_files.simps) simp
  qed (auto simp: collect_named_files.simps)
qed

text \<open>
  C36: the Limine configuration that is managed is the configured file when that exists, otherwise a
  file of that name somewhere on the boot partition, and among those the fallback loader's
  \<open>EFI/BOOT/limine.conf\<close> first; only when there is none is a missing path returned.
\<close>

theorem limine_config_choice:
  "let p = discover_limine_config (real_file_system a c w) configured boot_mount;
       candidates = collect_named_files (real_file_system a c w) 0 boot_mount ''limine.conf'' [];
       preferred = path_append boot_mount ''EFI/BOOT/limine.conf'' in
   if rfs_is_regular_file w configured \<or> candidates = [] then p = configured
   else rfs_is_regular_file w p \<and> filename p = ''limine.conf'' \<and> p \<in> set candidates \<and>
     (list_ex (\<lambda>q. path_eq q preferred) candidates \<le> path_eq p preferred)"
proof -
  let ?c = "collect_named_files (real_file_system a c w) 0 boot_mount ''limine.conf'' []"
  let ?pref = "path_append boot_mount ''EFI/BOOT/limine.conf''"
  show ?thesis
  proof (cases "rfs_is_regular_file w configured \<or> ?c = []")
    case False
    then obtain p ps where s: "sort_by (config_before boot_mount) ?c = p # ps"
      by (cases "sort_by (config_before boot_mount) ?c") auto
    have d: "discover_limine_config (real_file_system a c w) configured boot_mount = p"
      using False s by (simp add: discover_limine_config_def)
    have mem: "set (p # ps) = set ?c" using set_sort_by [of "config_before boot_mount" ?c] s by simp
    have "coarsens (\<lambda>x y. path_eq y ?pref \<longrightarrow> path_eq x ?pref) (config_before boot_mount) (set ?c)"
      by (auto simp: coarsens_def config_before_def Let_def)
    from sorted_wrt_sort_by [OF this] have o: "\<forall>y\<in>set ps. path_eq y ?pref \<longrightarrow> path_eq p ?pref" by (simp add: s)
    have "p \<in> {p. rfs_is_regular_file w p \<and> filename p = ''limine.conf''}"
      using collect_named_found [of a c w 0 boot_mount "''limine.conf''" "[]"] mem by auto
    moreover have "path_eq p ?pref" if "q \<in> set ?c" "path_eq q ?pref" for q
      using mem o that by auto
    moreover have "p \<in> set ?c" using mem by auto
    ultimately show ?thesis using False unfolding Let_def d by (auto simp: list_ex_iff)
  qed (auto simp: Let_def discover_limine_config_def)
qed

lemma discovered_config:
  "discover_limine_config (real_file_system a k w) configured boot_mount = configured \<or>
   filename (discover_limine_config (real_file_system a k w) configured boot_mount) = ''limine.conf''"
proof -
  let ?c = "collect_named_files (real_file_system a k w) 0 boot_mount ''limine.conf'' []"
  have "filename p = ''limine.conf''" if "p \<in> set (sort_by (config_before boot_mount) ?c)" for p
    using that collect_named_found [of a k w 0 boot_mount "''limine.conf''" "[]"] by auto
  then show ?thesis
    by (cases "sort_by (config_before boot_mount) ?c") (simp_all add: discover_limine_config_def)
qed

lemma detected_config:
  assumes "detect runner fs profile = Inr info"
  shows "si_limine_config info = discover_limine_config fs (sp_limine_config profile) (sp_boot_mount profile)"
proof -
  obtain rest mid where mid: "detect_root runner fs rest = Inr mid" "detect_cmdline fs profile mid = Inr info"
    and r: "si_limine_config rest = discover_limine_config fs (sp_limine_config profile) (sp_boot_mount profile)"
    using assms unfolding detect_def Let_def bind_r_eq_Inr
    by (elim exE conjE) (rule that, assumption, assumption, simp_all)
  from detect_cmdline_spec [OF mid(2)] have "si_limine_config info = si_limine_config mid" by auto
  with detect_root_keeps [OF mid(1)] r show ?thesis by simp
qed

end
