(* ===== verification/Preview.thy ===== *)
theory Preview
  imports System_Detector Snapshot_Selector Menu Theme Snapper_Client
begin

text \<open>
The application services that put the menu together: \<open>DiscoveryService\<close>
  (src/application/discovery_service.cpp) and \<open>PreviewService\<close> (src/application/preview_service.cpp).
\<close>

section \<open>Discovery\<close>

definition discover :: "query_runner \<Rightarrow> file_system \<Rightarrow> app_config \<Rightarrow> system_model result" where
  "discover runner fs config =
     bind_r (list_snapshots runner (snapper_config config)) (\<lambda>avail.
     let chosen = select_menu_snapshots avail config in
     bind_r (detect runner fs (system config)) (\<lambda>sys.
     bind_r (get_config runner (snapper_config config)) (\<lambda>sc.
     Inr \<lparr>model_system = sys, model_snapper = sc,
          model_snapshots = \<lparr>available = avail, selected = chosen, maximum = max_snapshots config\<rparr>\<rparr>)))"

section \<open>Paths and texts of the menu\<close>

text \<open>\<open>std::filesystem::relative\<close>; \<open>canon\<close> stands for \<open>weakly_canonical\<close>, \<open>None\<close> for its error.\<close>

definition relative_to :: "(path \<Rightarrow> path option) \<Rightarrow> path \<Rightarrow> path \<Rightarrow> path option" where
  "relative_to canon p base =
     (case (canon p, canon base) of (Some q, Some b) \<Rightarrow> Some (lexically_relative q b) | _ \<Rightarrow> None)"

definition limine_path :: "(path \<Rightarrow> path option) \<Rightarrow> path \<Rightarrow> path \<Rightarrow> system_info \<Rightarrow> bool \<Rightarrow> string" where
  "limine_path canon boot_mount p sys hash_res =
     (let rel = (case relative_to canon p boot_mount of
            None \<Rightarrow> filename p
          | Some r \<Rightarrow> if r = [] \<or> starts_with r ''..'' then filename p else r);
          location = ''boot():/'' @ rel in
      if hash_res \<and> sb_enabled (secure_boot sys) then
        (case find_hash (resource_hashes (secure_boot sys)) p of
           Some h \<Rightarrow> if h \<noteq> [] then location @ ''#'' @ h else location
         | None \<Rightarrow> location)
      else location)"

definition snapshot_rootflags :: "string \<Rightarrow> ulong \<Rightarrow> string" where
  "snapshot_rootflags subvolume n = ''subvol='' @ subvolume @ ''/'' @ dec (unat n) @ ''/snapshot''"

definition snapshot_cmdline :: "kernel_command_line \<Rightarrow> string \<Rightarrow> ulong \<Rightarrow> string" where
  "snapshot_cmdline cmdline subvolume n =
     cmdline_render (cmdline_set cmdline ''rootflags'' (snapshot_rootflags subvolume n))"

definition display_date :: "string \<Rightarrow> string" where
  "display_date d = (if 16 \<le> length d then substr d 0 16 else d)"

definition modules_for :: "(path \<Rightarrow> path option) \<Rightarrow> kernel_installation \<Rightarrow> system_info \<Rightarrow> string list" where
  "modules_for canon k sys = map (\<lambda>i. limine_path canon (si_boot_mount sys) i sys True) (initrds k)"

definition kernel_comment :: "kernel_installation \<Rightarrow> string" where
  "kernel_comment k =
     (if release k \<noteq> [] then ''Kernel '' @ release k
      else ''Kernel release unavailable ('' @ package_base k @ '')'')"

section \<open>Choosing and ordering the kernels\<close>

text \<open>The rank of a name is its first place in the configured order.\<close>

definition rank_of :: "string list \<Rightarrow> string \<Rightarrow> nat option" where
  "rank_of order name = find_index (\<lambda>x. x = name) order"

definition entry_before :: "string list \<Rightarrow> kernel_installation \<Rightarrow> kernel_installation \<Rightarrow> bool" where
  "entry_before order lhs rhs =
     (case (rank_of order (package_base lhs), rank_of order (package_base rhs)) of
        (Some l, Some r) \<Rightarrow> l < r
      | (Some _, None) \<Rightarrow> True
      | (None, Some _) \<Rightarrow> False
      | (None, None) \<Rightarrow>
          if running lhs \<noteq> running rhs then running lhs else package_base lhs < package_base rhs)"

definition wanted :: "app_config \<Rightarrow> kernel_installation \<Rightarrow> bool" where
  "wanted config k \<longleftrightarrow>
     (include_kernels config = [] \<or> package_base k \<in> set (include_kernels config)) \<and>
     package_base k \<notin> set (exclude_kernels config)"

definition select_kernels :: "kernel_installation list \<Rightarrow> app_config \<Rightarrow> kernel_installation list" where
  "select_kernels ks config = sort_by (entry_before (kernel_order config)) (filter (wanted config) ks)"

section \<open>The menu\<close>

definition boot_entry ::
  "(path \<Rightarrow> path option) \<Rightarrow> system_info \<Rightarrow> kernel_installation \<Rightarrow> string \<Rightarrow> string \<Rightarrow> menu_node" where
  "boot_entry canon sys k comment cmdline =
     linux_entry (display_name k) comment
       \<lparr>protocol = (if unified_kernel_image k then ''efi'' else ''linux''),
        kernel_path = limine_path canon (si_boot_mount sys) (image k) sys (\<not> unified_kernel_image k),
        module_paths = modules_for canon k sys, boot_cmdline = cmdline\<rparr>"

definition add_children :: "menu_node list \<Rightarrow> menu_node \<Rightarrow> menu_node result" where
  "add_children cs n = fold_r (\<lambda>c n. add_child n c) cs n"

text \<open>The em dash of the sources in UTF-8.\<close>

definition em_dash :: string where
  "em_dash = [CHR 0xE2, CHR 0x80, CHR 0x94]"

definition snapshot_description :: "snapshot_info \<Rightarrow> string" where
  "snapshot_description s =
     (if description s = [] then ''Snapper snapshot #'' @ dec (unat (number s)) else description s)"

definition snapshot_node ::
  "(path \<Rightarrow> path option) \<Rightarrow> system_info \<Rightarrow> app_config \<Rightarrow> kernel_installation list \<Rightarrow> snapshot_info \<Rightarrow> menu_node result" where
  "snapshot_node canon sys config ks s =
     add_children
       (map (\<lambda>k. boot_entry canon sys k (snapshot_description s @ '' '' @ em_dash @ '' '' @ kernel_comment k)
                (snapshot_cmdline (kernel_cmdline sys) (snapshots_subvolume config) (number s))) ks)
       (directory (display_date (date s)) False)"

definition menu_options :: "app_config \<Rightarrow> (string \<times> string) list" where
  "menu_options config =
     (case find_theme (theme_name config) of Some t \<Rightarrow> preset_options t | None \<Rightarrow> []) @ limine_options config"

definition build_menu ::
  "(path \<Rightarrow> path option) \<Rightarrow> system_info \<Rightarrow> snapshot_info list \<Rightarrow> app_config \<Rightarrow> menu_document result" where
  "build_menu canon sys snapshots config =
     (let ks = select_kernels (kernels sys) config in
      bind_r (add_children
          (map (\<lambda>k. boot_entry canon sys k (kernel_comment k) (cmdline_render (kernel_cmdline sys))) ks)
          (directory (root_menu_title config) (root_menu_expanded config))) (\<lambda>root.
      bind_r (fold_r (\<lambda>s dir. bind_r (snapshot_node canon sys config ks s) (add_child dir))
          (select_menu_snapshots snapshots config)
          (directory (snapshots_menu_title config) (snapshots_menu_expanded config))) (\<lambda>snapshot_dir.
      bind_r (add_child root snapshot_dir) (\<lambda>root.
      Inr \<lparr>global_options = menu_options config, doc_roots = [root]\<rparr>))))"


section \<open>The order of the entries\<close>

lemma rank_None: "rank_of order n = None \<longleftrightarrow> n \<notin> set order"
  by (auto simp: rank_of_def find_index_None_iff)

interpretation entry_order: strict_weak_order UNIV "entry_before order"
proof
  show "\<not> entry_before order x x" for x
    by (simp add: entry_before_def split: option.split)
  show "entry_before order x y \<Longrightarrow> entry_before order y z \<Longrightarrow> entry_before order x z" for x y z
    by (auto simp: entry_before_def split: option.splits if_splits)
  show "entry_before order x z \<Longrightarrow> entry_before order x y \<or> entry_before order y z" for x y z
    by (auto simp: entry_before_def split: option.splits if_splits)
qed


section \<open>The shape of the menu\<close>

lemma add_children_directory:
  "mn_kind n = Directory \<Longrightarrow>
     add_children cs n = Inr (MenuNode Directory (mn_title n) (mn_comment n) (mn_expanded n) (mn_boot n) (mn_children n @ cs))"
proof (induction cs arbitrary: n)
  case Nil
  then show ?case by (cases n) (simp add: add_children_def)
next
  case (Cons c cs)
  then obtain t co e b ch where n: "n = MenuNode Directory t co e b ch" by (cases n) auto
  show ?case using Cons.IH [of "MenuNode Directory t co e b (ch @ [c])"]
    by (simp add: n add_children_def)
qed

definition snapshot_entry ::
  "(path \<Rightarrow> path option) \<Rightarrow> system_info \<Rightarrow> app_config \<Rightarrow> snapshot_info \<Rightarrow> kernel_installation \<Rightarrow> menu_node" where
  "snapshot_entry canon sys config s k =
     boot_entry canon sys k (snapshot_description s @ '' '' @ em_dash @ '' '' @ kernel_comment k)
       (snapshot_cmdline (kernel_cmdline sys) (snapshots_subvolume config) (number s))"

definition snapshot_folder ::
  "(path \<Rightarrow> path option) \<Rightarrow> system_info \<Rightarrow> app_config \<Rightarrow> snapshot_info \<Rightarrow> menu_node" where
  "snapshot_folder canon sys config s =
     MenuNode Directory (display_date (date s)) None False None
       (map (snapshot_entry canon sys config s) (select_kernels (kernels sys) config))"

lemma snapshot_node_eq:
  "snapshot_node canon sys config (select_kernels (kernels sys) config) s = Inr (snapshot_folder canon sys config s)"
  by (simp add: snapshot_node_def add_children_directory directory_def snapshot_folder_def snapshot_entry_def [abs_def])

definition menu_of ::
  "(path \<Rightarrow> path option) \<Rightarrow> system_info \<Rightarrow> snapshot_info list \<Rightarrow> app_config \<Rightarrow> menu_document" where
  "menu_of canon sys snapshots config =
     \<lparr>global_options = menu_options config,
      doc_roots = [MenuNode Directory (root_menu_title config) None (root_menu_expanded config) None
        (map (\<lambda>k. boot_entry canon sys k (kernel_comment k) (cmdline_render (kernel_cmdline sys)))
           (select_kernels (kernels sys) config) @
         [MenuNode Directory (snapshots_menu_title config) None (snapshots_menu_expanded config) None
            (map (snapshot_folder canon sys config) (select_menu_snapshots snapshots config))])]\<rparr>"

lemma fold_folders:
  "fold_r (\<lambda>s dir. bind_r (snapshot_node canon sys config (select_kernels (kernels sys) config) s) (add_child dir)) ss
     (MenuNode Directory t co e b ch) =
   Inr (MenuNode Directory t co e b (ch @ map (snapshot_folder canon sys config) ss))"
  by (induction ss arbitrary: ch) (simp_all add: snapshot_node_eq)

lemma build_menu_eq: "build_menu canon sys snapshots config = Inr (menu_of canon sys snapshots config)"
  by (simp add: build_menu_def Let_def add_children_directory directory_def fold_folders menu_of_def)

lemma bootable_entry [simp]: "bootable (boot_entry canon sys k c l)"
  by (simp add: boot_entry_def linux_entry_def)

text \<open>
  C38: building the menu and rendering it never throws: whatever was discovered, the document is one
  folder with an entry for each selected kernel followed by the folder of the selected snapshots,
  each holding an entry for each selected kernel, and the renderer turns it into text.
\<close>

theorem build_menu_renders:
  "\<exists>text. bind_r (build_menu canon sys snapshots config) render_limine = Inr text \<and>
     build_menu canon sys snapshots config = Inr (menu_of canon sys snapshots config)"
proof -
  have "list_all bootable (doc_roots (menu_of canon sys snapshots config))"
    by (auto simp: menu_of_def list_all_iff snapshot_folder_def snapshot_entry_def)
  then have "\<exists>text. render_nodes (doc_roots (menu_of canon sys snapshots config)) 1 = Inr text"
    using render_node_defined(2) [of 1] by (simp add: list_all_iff)
  then show ?thesis by (auto simp: build_menu_eq render_limine_def)
qed

text \<open>
  C39: the command line of a snapshot's entry, read by the same parser, mounts the snapshot's own
  subvolume as root and keeps every other setting of the running system.
\<close>

theorem snapshot_entry_boots_snapshot:
  assumes "list_all parse_safe (arguments cmdline)"
    and "parse_safe (''rootflags='' @ snapshot_rootflags subvolume n)"
  shows "\<exists>k. parse (snapshot_cmdline cmdline subvolume n) = Inr k \<and>
    cmdline_value k ''rootflags'' = Some (''subvol='' @ subvolume @ ''/'' @ dec (unat n) @ ''/snapshot'') \<and>
    (\<forall>key. CHR ''='' \<notin> set key \<and> key \<noteq> ''rootflags'' \<longrightarrow> cmdline_value k key = cmdline_value cmdline key)"
proof -
  let ?k = "cmdline_set cmdline ''rootflags'' (snapshot_rootflags subvolume n)"
  have eq: "CHR ''='' \<notin> set ''rootflags''" by simp
  have "set (replace_first key a args) \<subseteq> insert a (set args)" for key a args
    by (induction args) auto
  then have "\<forall>a\<in>set (arguments ?k). parse_safe a"
    using assms unfolding cmdline_set_args [OF eq] list_all_iff by auto blast
  then have "parse (snapshot_cmdline cmdline subvolume n) = Inr ?k"
    unfolding snapshot_cmdline_def by (rule parse_rendered)
  moreover have "cmdline_value ?k ''rootflags'' = Some (snapshot_rootflags subvolume n)"
    unfolding cmdline_value_def cmdline_set_args [OF eq] by (rule value_in_replace_first [OF eq])
  moreover have "cmdline_value ?k key = cmdline_value cmdline key" if "CHR ''='' \<notin> set key" "key \<noteq> ''rootflags''" for key
    unfolding cmdline_value_def cmdline_set_args [OF eq] by (rule value_in_replace_first_other [OF eq that])
  ultimately show ?thesis by (auto simp: snapshot_rootflags_def)
qed

theorem snapshot_entry_boots_snapshot_witness:
  "\<exists>k. parse (snapshot_cmdline \<lparr>arguments = [''root=UUID=ab'', ''rootflags=subvol=@'', ''rw'']\<rparr> ''@snapshots'' 7) = Inr k \<and>
     cmdline_value k ''rootflags'' = Some ''subvol=@snapshots/7/snapshot''"
proof -
  have a: "list_all parse_safe [''root=UUID=ab'', ''rootflags=subvol=@'', ''rw'']"
    by (simp add: parse_safe_def needs_quote_def isspace_def is_ws_def)
  have d: "dec 7 = ''7''" by code_simp
  have "parse_safe (''rootflags='' @ snapshot_rootflags ''@snapshots'' 7)"
    by (simp add: snapshot_rootflags_def d parse_safe_def needs_quote_def isspace_def is_ws_def)
  from snapshot_entry_boots_snapshot [OF _ this, of "\<lparr>arguments = [''root=UUID=ab'', ''rootflags=subvol=@'', ''rw'']\<rparr>"] a d
  show ?thesis by auto
qed

end
