(* ===== verification/Secure_Boot.thy ===== *)
theory Secure_Boot
  imports Apply_Guarantees System_Model
begin

text \<open>
Changing the configuration under Secure Boot: the transaction on the EFI image
  (src/infrastructure/efi_image_transaction.cpp), the tools that re-enrol and sign it
  (src/infrastructure/secure_boot_tools.cpp), the transaction on both files
  (src/application/secure_boot_transaction.cpp) and the service
  (src/application/secure_boot_apply_service.cpp). The external tools are the parameter \<open>tool\<close>.
\<close>

section \<open>The transaction on the EFI image\<close>

record efi_transaction =
  et_image :: path
  et_backup :: path
  et_active :: bool

definition backup_name :: "path result \<Rightarrow> path \<Rightarrow> (world, path) io" where
  "backup_name temp_directory img =
     bind_io (\<lambda>w. case read_clock w of (t, v) \<Rightarrow> (Inr t, v)) (\<lambda>t.
     bind_io (lift_r temp_directory) (\<lambda>dir.
     bind_io (gets pid) (\<lambda>process.
     ret (path_append dir
       (''limine-manager-'' @ filename img @ ''.'' @ dec process @ ''.'' @ dec t @ ''.bak'')))))"

definition inspect_image :: "path \<Rightarrow> (world, stat) io" where
  "inspect_image img =
     bind_io (or_throw (sys_lstat img) (errno_error ''cannot inspect EFI image'' img)) (\<lambda>metadata.
     if unsafe_kind metadata then throw (Runtime_error (''unsafe EFI image: '' @ img)) else ret metadata)"

text \<open>The constructor.\<close>

definition efi_begin :: "path result \<Rightarrow> path \<Rightarrow> (world, efi_transaction) io" where
  "efi_begin temp_directory img =
     bind_io (backup_name temp_directory img) (\<lambda>backup.
     bind_io (inspect_image img) (\<lambda>metadata.
     bind_io (unlinking_on_error backup (
         bind_io (copy_file_secure img backup metadata ''EFI image'' ''EFI image backup'') (\<lambda>_.
         fsync_directory (parent_path backup)))) (\<lambda>_.
     ret \<lparr>et_image = img, et_backup = backup, et_active = True\<rparr>)))"

text \<open>A method returns the object's new state; one that throws leaves the object as it was.\<close>

definition efi_commit :: "efi_transaction \<Rightarrow> (world, efi_transaction) io" where
  "efi_commit t =
     (if \<not> et_active t then ret t
      else bind_io (remove_regular_file_secure (et_backup t) ''EFI image backup'') (\<lambda>_.
           ret (t\<lparr>et_active := False\<rparr>)))"

definition efi_rollback :: "efi_transaction \<Rightarrow> (world, efi_transaction) io" where
  "efi_rollback t =
     (if \<not> et_active t then ret t
      else bind_io (atomic_restore_file (et_backup t) (et_image t) ''EFI image backup''
                      ''EFI image rollback target'' ''.rollback'') (\<lambda>_.
           bind_io (remove_regular_file_secure (et_backup t) ''EFI image backup'') (\<lambda>_.
           ret (t\<lparr>et_active := False\<rparr>))))"

text \<open>The destructor; its error goes to the reporter only.\<close>

definition efi_destroy :: "efi_transaction \<Rightarrow> (world, unit) io" where
  "efi_destroy t = bind_io (attempt (efi_rollback t)) (\<lambda>_. ret ())"

section \<open>The tools\<close>

text \<open>Running an external program: it may change the state of the host.\<close>

type_synonym tool = "string list \<Rightarrow> (world, process_result) io"

definition require_success :: "process_result \<Rightarrow> string \<Rightarrow> (world, unit) io" where
  "require_success res operation =
     (if exit_code res \<noteq> 0 then throw (Runtime_error (operation @ '': '' @ trim (proc_output res))) else ret ())"

definition digest :: "tool \<Rightarrow> path \<Rightarrow> (world, string) io" where
  "digest tool p =
     bind_io (tool [''b2sum'', p]) (\<lambda>res.
     bind_io (require_success res (''b2sum failed for '' @ p)) (\<lambda>_.
     let value = takeWhile (\<lambda>c. c \<noteq> CHR '' '' \<and> c \<noteq> TAB) (proc_output res) in
     if length value \<noteq> 128 then throw (Runtime_error (''invalid BLAKE2b digest for '' @ p)) else ret value))"

record secure_boot_update_result =
  signature_removed :: bool
  configuration_enrolled :: bool
  image_signed :: bool
  signature_verified :: bool

definition update_limine_image :: "tool \<Rightarrow> path \<Rightarrow> string \<Rightarrow> (world, secure_boot_update_result) io" where
  "update_limine_image tool efi value =
     bind_io (tool [''sbattach'', ''--remove'', efi]) (\<lambda>res.
     bind_io (require_success res ''sbattach signature removal failed'') (\<lambda>_.
     bind_io (tool [''limine'', ''enroll-config'', efi, value]) (\<lambda>res.
     bind_io (require_success res ''limine enroll-config failed'') (\<lambda>_.
     bind_io (tool [''sbctl'', ''sign'', ''-s'', efi]) (\<lambda>res.
     bind_io (require_success res ''sbctl sign failed'') (\<lambda>_.
     bind_io (tool [''sbctl'', ''verify'', efi]) (\<lambda>res.
     bind_io (require_success res ''sbctl verify failed'') (\<lambda>_.
     ret \<lparr>signature_removed = True, configuration_enrolled = True, image_signed = True,
          signature_verified = True\<rparr>))))))))"

section \<open>The transaction on both files\<close>

record secure_boot_transaction =
  st_efi :: efi_transaction
  st_apply :: "apply_result option"
  st_config_pending :: bool
  st_efi_pending :: bool
  st_committed :: bool

definition sb_begin :: "path result \<Rightarrow> path \<Rightarrow> (world, secure_boot_transaction) io" where
  "sb_begin temp_directory img =
     bind_io (efi_begin temp_directory img) (\<lambda>t.
     ret \<lparr>st_efi = t, st_apply = None, st_config_pending = False, st_efi_pending = True, st_committed = False\<rparr>)"

definition rollback_pending :: "secure_boot_transaction \<Rightarrow> bool" where
  "rollback_pending t \<longleftrightarrow> st_config_pending t \<or> st_efi_pending t"

definition record_apply :: "apply_result \<Rightarrow> secure_boot_transaction \<Rightarrow> secure_boot_transaction result" where
  "record_apply res t =
     (if st_committed t \<or> \<not> st_efi_pending t then
        Inl (Logic_error ''cannot record apply result on inactive Secure Boot transaction'')
      else if st_apply t \<noteq> None then
        Inl (Logic_error ''apply result already recorded for Secure Boot transaction'')
      else Inr (t\<lparr>st_config_pending := ar_changed res, st_apply := Some res\<rparr>))"

definition sb_commit :: "secure_boot_transaction \<Rightarrow> (world, secure_boot_transaction) io" where
  "sb_commit t =
     (if st_committed t then ret t
      else if \<not> rollback_pending t then
        throw (Logic_error ''cannot commit a rolled back Secure Boot transaction'')
      else bind_io (efi_commit (st_efi t)) (\<lambda>e.
        ret (t\<lparr>st_efi := e, st_efi_pending := False, st_config_pending := False, st_committed := True\<rparr>)))"

definition rollback_config :: "secure_boot_transaction \<Rightarrow> (world, secure_boot_transaction) io" where
  "rollback_config t =
     (if \<not> st_config_pending t then ret t
      else case st_apply t of
        None \<Rightarrow> throw (Logic_error ''configuration rollback state is inconsistent'')
      | Some res \<Rightarrow>
          if \<not> ar_changed res then throw (Logic_error ''configuration rollback state is inconsistent'')
          else bind_io (if ar_backup res \<noteq> []
               then atomic_restore_file (ar_backup res) (ar_target res) ''configuration backup''
                      ''configuration rollback target'' ''.rollback''
               else remove_regular_file_secure (ar_target res) ''newly created configuration'') (\<lambda>_.
             ret (t\<lparr>st_config_pending := False\<rparr>)))"

text \<open>
  \<open>rollback\<close> collects the messages of both parts. It may fail with part of the work done, so the
  model returns its outcome and the object's state after it.
\<close>

definition sb_rollback :: "secure_boot_transaction \<Rightarrow> (world, unit result \<times> secure_boot_transaction) io" where
  "sb_rollback t =
     (if st_committed t \<or> \<not> rollback_pending t then ret (Inr (), t)
      else
        bind_io (attempt (rollback_config t)) (\<lambda>c.
        let (errors, t) = (case c of Inl e \<Rightarrow> (what e, t) | Inr t' \<Rightarrow> ([], t')) in
        bind_io (if st_efi_pending t then attempt (efi_rollback (st_efi t)) else ret (Inr (st_efi t))) (\<lambda>i.
        let (errors, t) = (case i of
              Inl e \<Rightarrow> ((if errors \<noteq> [] then errors @ ''; '' else []) @ what e, t)
            | Inr e \<Rightarrow> (errors, t\<lparr>st_efi := e, st_efi_pending := False\<rparr>)) in
        ret (if errors \<noteq> [] then Inl (Runtime_error (''Secure Boot rollback failed: '' @ errors)) else Inr (), t))))"

definition sb_destroy :: "secure_boot_transaction \<Rightarrow> (world, unit) io" where
  "sb_destroy t =
     bind_io (if st_committed t \<or> \<not> rollback_pending t then ret (Inr (), t) else sb_rollback t) (\<lambda>(_, t).
     efi_destroy (st_efi t))"

section \<open>The service\<close>

datatype sb_failure_point = After_config_apply | After_digest | After_efi_update | Before_commit

text \<open>Each test hook is passed at most once in a call, so its reset is not visible.\<close>

definition maybe_fail :: "sb_failure_point option \<Rightarrow> sb_failure_point \<Rightarrow> (world, unit) io" where
  "maybe_fail armed point =
     (if armed = Some point then throw (Runtime_error ''injected Secure Boot apply failure'') else ret ())"

definition enroll_and_commit ::
  "tool \<Rightarrow> sb_failure_point option \<Rightarrow> path \<Rightarrow> secure_boot_transaction \<Rightarrow> (world, secure_boot_transaction) io" where
  "enroll_and_commit tool armed target t =
     bind_io (maybe_fail armed After_config_apply) (\<lambda>_.
     bind_io (digest tool target) (\<lambda>value.
     bind_io (maybe_fail armed After_digest) (\<lambda>_.
     bind_io (update_limine_image tool (et_image (st_efi t)) value) (\<lambda>_.
     bind_io (maybe_fail armed After_efi_update) (\<lambda>_.
     bind_io (maybe_fail armed Before_commit) (\<lambda>_.
     sb_commit t))))))"

text \<open>The handler, with the destructor that runs while the exception leaves the function.\<close>

definition sb_abort :: "secure_boot_transaction \<Rightarrow> exn \<Rightarrow> (world, 'a) io" where
  "sb_abort t e =
     bind_io (sb_rollback t) (\<lambda>(outcome, t).
     bind_io (sb_destroy t) (\<lambda>_.
     case outcome of
       Inr _ \<Rightarrow> throw e
     | Inl e' \<Rightarrow> throw (Runtime_error (what e @ ''; automatic rollback also failed: '' @ what e'))))"

definition sb_apply ::
  "path result \<Rightarrow> tool \<Rightarrow> sb_failure_point option \<Rightarrow> change_plan \<Rightarrow> system_info \<Rightarrow> app_config \<Rightarrow> (world, apply_result) io" where
  "sb_apply temp_directory tool armed plan sys config =
     (let rd = automation_runtime_directory config; efi = efi_executable (secure_boot sys) in
      if \<not> has_changes plan then ret \<lparr>ar_changed = False, ar_target = plan_target plan, ar_backup = []\<rparr>
      else if \<not> sb_enabled (secure_boot sys) \<or> \<not> secure_boot_protect_config config then apply_plan rd plan
      else if efi = [] then
        throw (Runtime_error ''Secure Boot is enabled but the active Limine EFI executable is unknown'')
      else
        bind_io (sb_begin temp_directory efi) (\<lambda>t.
        bind_io (attempt (apply_plan rd plan)) (\<lambda>applied.
        case bind_r applied (\<lambda>res. bind_r (record_apply res t) (\<lambda>t'. Inr (res, t'))) of
          Inl e \<Rightarrow> sb_abort t e
        | Inr (res, t) \<Rightarrow>
            bind_io (attempt (enroll_and_commit tool armed (plan_target plan) t)) (\<lambda>finished.
            case finished of
              Inl e \<Rightarrow> sb_abort t e
            | Inr t \<Rightarrow> bind_io (sb_destroy t) (\<lambda>_. ret res)))))"

end
