(* ===== verification/Secure_Boot_Specs.thy ===== *)
theory Secure_Boot_Specs
  imports Secure_Boot Apply_Liveness System_Detector
begin

text \<open>
What the Secure Boot transaction guarantees: when the service throws, both the configuration and
  the EFI image have the content they had, unless the exception says that a rollback failed.
\<close>

section \<open>Exceptions always carry a message\<close>

definition speaks :: "(world, 'a) io \<Rightarrow> bool" where
  "speaks m \<longleftrightarrow> (\<forall>w e v. m w = (Inl e, v) \<longrightarrow> what e \<noteq> [])"

named_theorems speaks_rules

lemma speaks_ret [speaks_rules]: "speaks (ret x)"
  by (simp add: speaks_def ret_def)

lemma speaks_throw [speaks_rules]: "what e \<noteq> [] \<Longrightarrow> speaks (throw e)"
  by (simp add: speaks_def throw_def)

lemma speaks_bind [speaks_rules]: "speaks m \<Longrightarrow> (\<And>x. speaks (k x)) \<Longrightarrow> speaks (bind_io m k)"
  by (fastforce simp: speaks_def bind_io_def split: prod.splits sum.splits)

lemma speaks_or_throw [speaks_rules]: "(\<And>e. what (f e) \<noteq> []) \<Longrightarrow> speaks (or_throw m f)"
  by (auto simp: speaks_def or_throw_def split: prod.splits sum.splits)

lemma speaks_total [speaks_rules]: "speaks (try_sys m)" "speaks (ignore_sys m')" "speaks (fail_if_injected p)"
  by (auto simp: speaks_def try_sys_def ignore_sys_def fail_if_injected_def split: prod.splits)

lemma speaks_if [speaks_rules]: "speaks m \<Longrightarrow> speaks n \<Longrightarrow> speaks (if b then m else n)"
  by simp

lemma speaks_sum [speaks_rules]: "(\<And>e. speaks (f e)) \<Longrightarrow> (\<And>x. speaks (g x)) \<Longrightarrow> speaks (case s of Inl e \<Rightarrow> f e | Inr x \<Rightarrow> g x)"
  by (cases s) simp_all

lemma speaks_unlinking [speaks_rules]: "speaks m \<Longrightarrow> speaks (unlinking_on_error p m)"
  by (fastforce simp: speaks_def unlinking_on_error_def catch_io_def bind_io_def ignore_sys_def throw_def split: prod.splits sum.splits)

lemma errno_error_speaks [simp]: "what (errno_error s p e) \<noteq> []"
  by (simp add: errno_error_def)

lemma speaks_read_all [speaks_rules]: "speaks (read_all fd p)"
proof -
  have "what e \<noteq> []" if "read_loop fd p acc w = (Inl e, v)" for acc w e v
    using that
  proof (induction fd p acc w rule: read_loop.induct)
    case (1 fd p acc w)
    obtain r u where ru: "sys_read fd (length acc) 8192 w = (r, u)" by force
    show ?case
    proof (cases r)
      case (Inl e')
      with 1(3) ru 1(1) [OF ru [symmetric] Inl] show ?thesis
        by (cases "e' = EINTR") (auto simp: read_loop.simps [of fd p acc w])
    next
      case (Inr s)
      with 1(3) ru 1(2) [OF ru [symmetric] Inr] show ?thesis
        by (cases "s = []") (auto simp: read_loop.simps [of fd p acc w])
    qed
  qed
  then show ?thesis by (auto simp: speaks_def read_all_def)
qed

lemma speaks_write_all [speaks_rules]: "speaks (write_all fd d p)"
proof -
  have "what e \<noteq> []" if "write_all fd d p w = (Inl e, v)" for w e v
    using that
  proof (induction fd d p w rule: write_all.induct)
    case (1 fd d p w)
    obtain r u where ru: "sys_write fd d w = (r, u)" by force
    show ?case
    proof (cases "d = []")
      case True
      with 1(3) show ?thesis by (simp add: write_all.simps)
    next
      case False
      show ?thesis
      proof (cases r)
        case (Inl e')
        with 1(3) ru False 1(1) [OF False ru [symmetric] Inl] show ?thesis
          by (cases "e' = EINTR") (auto simp: write_all.simps [of fd d p w])
      next
        case (Inr n)
        with 1(3) ru False 1(2) [OF False ru [symmetric] Inr] show ?thesis
          by (auto simp: write_all.simps [of fd d p w])
      qed
    qed
  qed
  then show ?thesis by (auto simp: speaks_def)
qed

lemma speaks_sibling [speaks_rules]: "speaks (unique_sibling_path t sfx)"
  by (auto simp: speaks_def unique_sibling_path_def read_clock_def)

lemma speaks_fsync_directory [speaks_rules]: "speaks (fsync_directory d)"
  unfolding fsync_directory_def Let_def by (intro speaks_rules) simp_all

lemma speaks_copy [speaks_rules]: "speaks (copy_file_secure a b st c d)"
  unfolding copy_file_secure_def fill_copy_def by (intro speaks_rules) simp_all

lemma speaks_restore [speaks_rules]: "speaks (atomic_restore_file a b c d sfx)"
  unfolding atomic_restore_file_def atomic_replace_def by (intro speaks_rules) simp_all

lemma speaks_remove [speaks_rules]: "speaks (remove_regular_file_secure p d)"
  unfolding remove_regular_file_secure_def by (intro speaks_rules) simp_all

lemma speaks_efi_rollback [speaks_rules]: "speaks (efi_rollback t)"
  unfolding efi_rollback_def by (intro speaks_rules)

lemma speaksD: "speaks m \<Longrightarrow> m w = (Inl e, v) \<Longrightarrow> what e \<noteq> []"
  by (auto simp: speaks_def)

section \<open>What the parts leave alone\<close>

lemma inode_at_frame:
  assumes "frame (next_inode w) S w v" "world_ok w" "p \<notin> S"
  shows "inode_at v p = inode_at w p"
proof (cases "lookup w p")
  case (Some i)
  with frame_target [OF assms(1,3)] frame_inode [OF assms(1) world_ok_lookup [OF assms(2) Some]]
  show ?thesis by (simp add: inode_at_def)
qed (use frame_target [OF assms(1,3)] in \<open>simp add: inode_at_def\<close>)

lemma restore_effect:
  assumes "atomic_restore_file src t sd td sfx w = (r, v)" "world_ok w" "SLASH \<notin> set sfx"
  shows "world_ok v \<and> (\<forall>p. p \<notin> insert t (siblings t sfx) \<longrightarrow> inode_at v p = inode_at w p) \<and>
    (r = Inr () \<longrightarrow> (\<exists>n m. inode_at w src = Some n \<and> inode_at v t = Some m \<and> restored n m))"
proof (cases "lookup w src")
  case None
  obtain r1 u1 where 1: "sys_lstat src w = (r1, u1)" by force
  note s1 = sys_lstat_spec [OF 1]
  have "r1 \<noteq> Inr st" for st using s1 None by auto
  then have "v = u1" "r \<noteq> Inr ()" using assms(1) 1
    by (cases r1; auto simp: atomic_restore_file_def bind_io_def or_throw_def)+
  then show ?thesis using s1 quiet_wf [OF _ assms(2)] inode_at_quiet by blast
next
  case (Some i)
  from atomic_restore_file_spec [OF assms(1-3) Some] obtain p where p: "p \<in> siblings t sfx"
    "failed_swap w p t (restored (inodes w i)) v"
    "r = Inr () \<longrightarrow> in_place w p t (restored (inodes w i)) v" by blast
  have f: "frame (next_inode w) {p, t} w v" using p(2) by (simp add: failed_swap_def)
  have "inode_at v q = inode_at w q" if "q \<notin> insert t (siblings t sfx)" for q
    using inode_at_frame [OF f assms(2), of q] that p(1) by auto
  moreover have "\<exists>n m. inode_at w src = Some n \<and> inode_at v t = Some m \<and> restored n m" if "r = Inr ()"
    using p(3) that Some by (auto simp: in_place_def swapped_def inode_at_def)
  ultimately show ?thesis using frame_wf [OF f] by blast
qed

lemma remove_effect:
  assumes "remove_regular_file_secure t d w = (r, v)" "world_ok w"
  shows "world_ok v \<and> (\<forall>p. p \<noteq> t \<longrightarrow> inode_at v p = inode_at w p) \<and>
    (inode_at v t = inode_at w t \<or> inode_at v t = None) \<and> (r = Inr () \<longrightarrow> inode_at v t = None)"
proof -
  have f: "frame (next_inode w) {t} w w" using assms(2) by (intro frame_refl) simp_all
  note s = remove_regular_file_secure_spec [OF assms(1) f singletonI]
  have a: "lookup v t = lookup w t \<or> lookup v t = None" "inodes v = inodes w" "r = Inr () \<longrightarrow> lookup v t = None"
      "frame (next_inode w) {t} w v" using s by simp_all
  have b: "inode_at v p = inode_at w p" if "p \<noteq> t" for p using inode_at_frame [OF a(4) assms(2), of p] that by simp
  from a(1) show ?thesis
  proof
    assume "lookup v t = lookup w t"
    then show ?thesis using a(2,3) b frame_wf [OF a(4)] by (simp add: inode_at_def)
  next
    assume "lookup v t = None"
    then show ?thesis using b frame_wf [OF a(4)] by (simp add: inode_at_def)
  qed
qed

definition backup_names :: "path result \<Rightarrow> path \<Rightarrow> path set" where
  "backup_names temp_directory img =
     {path_append dir (''limine-manager-'' @ filename img @ ''.'' @ dec p @ ''.'' @ dec t @ ''.bak'') |dir p t.
        temp_directory = Inr dir}"

text \<open>
  What the external tools are trusted with: \<open>sbattach\<close>, \<open>limine enroll-config\<close> and \<open>sbctl\<close> may
  rewrite or replace the image they are given; every other file keeps its content.
\<close>

definition tools_touch_only :: "tool \<Rightarrow> path \<Rightarrow> bool" where
  "tools_touch_only tool img \<longleftrightarrow>
     (\<forall>args w r v. world_ok w \<longrightarrow> tool args w = (r, v) \<longrightarrow>
        world_ok v \<and> (\<forall>p. p \<noteq> img \<longrightarrow> inode_at v p = inode_at w p))"

lemma frame_copy_unlink:
  assumes "frame k {p} w0 w" shows "frame k {p} w0 (snd (sys_unlink p w))"
  using unlink_frame [OF assms singletonI] .

lemma efi_begin_effect:
  assumes "efi_begin temp_directory img w = (r, v)" "world_ok w"
  shows "world_ok v \<and> (\<forall>p. p \<notin> backup_names temp_directory img \<longrightarrow> inode_at v p = inode_at w p) \<and>
    (\<forall>t. r = Inr t \<longrightarrow> et_image t = img \<and> et_active t \<and> et_backup t \<in> backup_names temp_directory img \<and>
       (\<exists>n m. inode_at w img = Some n \<and> inode_at v (et_backup t) = Some m \<and> ino_data m = ino_data n))"
proof -
  obtain r0 u0 where 0: "backup_name temp_directory img w = (r0, u0)" by force
  have q0: "quiet w u0" and b0: "\<And>b. r0 = Inr b \<Longrightarrow> b \<in> backup_names temp_directory img"
    using 0 by (cases temp_directory;
      auto simp: backup_name_def bind_io_def read_clock_def lift_r_def gets_def ret_def backup_names_def)+
  obtain r1 u1 where 1: "inspect_image img u0 = (r1, u1)" by force
  have q1: "quiet w u1"
  proof -
    obtain r1' u1' where l: "sys_lstat img u0 = (r1', u1')" by force
    then have "quiet w u1'" using sys_lstat_spec [OF l] quiet_trans [OF q0] by blast
    then show ?thesis using 1 l
      by (cases r1') (auto simp: inspect_image_def bind_io_def or_throw_def throw_def ret_def split: if_splits)
  qed
  have quiet_case: ?thesis if "quiet w v" "\<And>t. r \<noteq> Inr t"
    using that quiet_wf [OF that(1) assms(2)] inode_at_quiet [OF that(1)] by simp
  show ?thesis
  proof (cases "\<exists>b st. r0 = Inr b \<and> r1 = Inr st")
    case False
    then have "quiet w v \<and> (\<forall>t. r \<noteq> Inr t)" using assms(1) 0 1 q0 q1
      by (cases r0; cases r1; auto simp: efi_begin_def bind_io_def)
    then show ?thesis using quiet_case by blast
  next
    case True
    then obtain b st where bs: "r0 = Inr b" "r1 = Inr st" by blast
    let ?k = "next_inode u1"
    have w1: "world_ok u1" using quiet_wf [OF q1 assms(2)] .
    obtain r2 u2 where 2: "copy_file_secure img b st ''EFI image'' ''EFI image backup'' u1 = (r2, u2)" by force
    note s2 = copy_file_secure_spec [OF 2 w1]
    have f2: "frame ?k {b} u1 u2" using s2 by blast
    obtain r3 u3 where 3: "fsync_directory (parent_path b) u2 = (r3, u3)" by force
    note s3 = fsync_directory_spec [OF 3 f2]
    have f3: "frame ?k {b} u1 u3" using s3 by blast
    have fv: "frame ?k {b} u1 v"
      using assms(1) 0 1 2 3 bs f2 f3 frame_copy_unlink [OF f2] frame_copy_unlink [OF f3]
      by (cases r2; cases r3) (auto simp: efi_begin_def bind_io_def unlinking_on_error_def catch_io_def
          ignore_sys_def throw_def ret_def)
    have res: "v = u3 \<and> t = \<lparr>et_image = img, et_backup = b, et_active = True\<rparr> \<and> r2 = Inr ()" if "r = Inr t" for t
      using assms(1) 0 1 2 3 bs that
      by (cases r2; cases r3) (auto simp: efi_begin_def bind_io_def unlinking_on_error_def catch_io_def
          ignore_sys_def throw_def ret_def)
    have same: "inode_at v p = inode_at w p" if "p \<noteq> b" for p
      using inode_at_frame [OF fv w1, of p] that inode_at_quiet [OF q1, of p] by simp
    have copy: "\<exists>n m. inode_at w img = Some n \<and> inode_at v b = Some m \<and> ino_data m = ino_data n" if "r = Inr t" for t
    proof -
      from s2 res [OF that] obtain i j where "lookup u1 img = Some i" "lookup u2 b = Some j"
        "copied (ino_data (inodes u1 i)) st (inodes u2 j)" by blast
      moreover have "lookup u3 = lookup u2" "inodes u3 = inodes u2" using s3 by blast+
      ultimately have "inode_at u1 img = Some (inodes u1 i)" "inode_at v b = Some (inodes u2 j)"
          "ino_data (inodes u2 j) = ino_data (inodes u1 i)"
        using res [OF that] by (simp_all add: inode_at_def copied_def holds_def)
      then show ?thesis using inode_at_quiet [OF q1, of img] by auto
    qed
    have bn: "b \<in> backup_names temp_directory img" using b0 bs by blast
    have fin: "et_image t = img \<and> et_active t \<and> et_backup t = b" if "r = Inr t" for t
      using res [OF that] by simp
    show ?thesis
    proof (intro conjI allI impI)
      show "world_ok v" by (rule frame_wf [OF fv])
      show "inode_at v p = inode_at w p" if p: "p \<notin> backup_names temp_directory img" for p
        by (rule same) (use bn p in metis)
      fix t assume t: "r = Inr t"
      show "et_image t = img" "et_active t" using fin [OF t] by blast+
      have e: "et_backup t = b" using fin [OF t] by blast
      show "et_backup t \<in> backup_names temp_directory img" unfolding e by (rule bn)
      show "\<exists>n m. inode_at w img = Some n \<and> inode_at v (et_backup t) = Some m \<and> ino_data m = ino_data n"
        unfolding e by (rule copy [OF t])
    qed
  qed
qed

lemma apply_effect:
  assumes "apply_plan rd plan w = (r, v)" "world_ok w" "plan_target plan \<notin> runtime_names rd" "has_changes plan"
    "inode_at w (plan_target plan) = Some n"
  shows "world_ok v \<and> (\<forall>p. p \<notin> apply_names rd (plan_target plan) \<longrightarrow> inode_at v p = inode_at w p) \<and>
    (\<forall>e. r = Inl e \<and> \<not> rollback_failed e \<longrightarrow>
       (\<exists>m. inode_at v (plan_target plan) = Some m \<and> ino_data m = ino_data n)) \<and>
    (\<forall>x. r = Inr x \<longrightarrow> ar_changed x \<and> ar_target x = plan_target plan \<and> ar_backup x \<in> siblings (plan_target plan) ''.bak'' \<and>
       (\<exists>m. inode_at v (ar_backup x) = Some m \<and> ino_data m = ino_data n))"
proof (cases rule: apply_cases [OF assms(1,2,4,3)])
  case (1 e)
  have "inode_at v p = inode_at w p" if "p \<notin> runtime_names rd" for p by (rule inode_at_frame [OF 1(2) assms(2) that])
  with 1 frame_wf [OF 1(2)] assms(3,5) show ?thesis by (auto simp: apply_names_def)
next
  case (2 u i)
  have "inode_at v p = inode_at w p" if "p \<notin> apply_names rd (plan_target plan)" for p
    by (rule inode_at_frame [OF 2(7) assms(2) that])
  moreover have n: "inodes w i = n" using assms(5) 2(2) by (simp add: inode_at_def)
  moreover have "inodes v i = n" using frame_inode [OF 2(7) world_ok_lookup [OF assms(2) 2(2)]] n by simp
  ultimately show ?thesis using 2(8) frame_wf [OF 2(7)]
    by (auto simp: replacement_def Let_def swapped_def inode_at_def old_copy_def copied_def holds_def)
next
  case (3 u)
  with assms(5) show ?thesis by (simp add: inode_at_def)
qed

text \<open>The state kept while the image is rewritten.\<close>

definition kept :: "path \<Rightarrow> path \<Rightarrow> world \<Rightarrow> world \<Rightarrow> bool" where
  "kept img backup w v \<longleftrightarrow> world_ok v \<and> (\<forall>p. p \<noteq> img \<and> p \<noteq> backup \<longrightarrow> inode_at v p = inode_at w p) \<and>
     (inode_at v backup = inode_at w backup \<or> inode_at v backup = None)"

lemma keepsI: "(\<And>w r v. I w \<Longrightarrow> m w = (r, v) \<Longrightarrow> I v) \<Longrightarrow> keeps I m"
  by (simp add: keeps_def) (metis prod.collapse)

lemma keeps_tool:
  assumes "tools_touch_only tool img" "img \<noteq> backup" shows "keeps (kept img backup w) (tool args)"
proof (rule keepsI)
  fix u r v assume k: "kept img backup w u" and run: "tool args u = (r, v)"
  from assms(1) k run have "world_ok v" "\<And>p. p \<noteq> img \<Longrightarrow> inode_at v p = inode_at u p"
    unfolding tools_touch_only_def kept_def by blast+
  with k assms(2) show "kept img backup w v" by (simp add: kept_def)
qed

lemma keeps_remove: "keeps (kept img backup w) (remove_regular_file_secure backup d)"
proof (rule keepsI)
  fix u r v assume k: "kept img backup w u" and run: "remove_regular_file_secure backup d u = (r, v)"
  from k have "world_ok u" by (simp add: kept_def)
  from remove_effect [OF run this] k show "kept img backup w v" by (auto simp: kept_def)
qed

lemma enroll_effect:
  assumes "enroll_and_commit tool armed target t w = (r, v)" "world_ok w"
    "tools_touch_only tool (et_image (st_efi t))" "et_image (st_efi t) \<noteq> et_backup (st_efi t)"
  shows "kept (et_image (st_efi t)) (et_backup (st_efi t)) w v"
proof -
  have "keeps (kept (et_image (st_efi t)) (et_backup (st_efi t)) w) (enroll_and_commit tool armed target t)"
    unfolding enroll_and_commit_def digest_def update_limine_image_def sb_commit_def efi_commit_def
      maybe_fail_def require_success_def Let_def
    by (intro keeps_rules keeps_tool [OF assms(3,4)] keeps_remove)
  moreover have "kept (et_image (st_efi t)) (et_backup (st_efi t)) w w" using assms(2) by (simp add: kept_def)
  ultimately show ?thesis using assms(1) by (auto dest: keepsD)
qed


lemma sb_rollback_efi:
  assumes "et_active e" "attempt (efi_rollback e) w = (r, v)" "world_ok w" "et_backup e \<noteq> et_image e"
    "et_backup e \<notin> siblings (et_image e) ''.rollback''"
  shows "\<exists>o'. r = Inr o' \<and> world_ok v \<and>
    (\<forall>p. p \<noteq> et_backup e \<and> p \<notin> insert (et_image e) (siblings (et_image e) ''.rollback'') \<longrightarrow> inode_at v p = inode_at w p) \<and>
    (\<forall>e'. o' = Inl e' \<longrightarrow> what e' \<noteq> []) \<and>
    (\<forall>t. o' = Inr t \<longrightarrow> t = e\<lparr>et_active := False\<rparr> \<and>
       (\<exists>n m. inode_at w (et_backup e) = Some n \<and> inode_at v (et_image e) = Some m \<and> ino_data m = ino_data n))"
proof -
  obtain o' where o: "r = Inr o'" "efi_rollback e w = (o', v)" using assms(2) by (auto simp: attempt_def split: prod.splits)
  obtain r1 u1 where 1: "atomic_restore_file (et_backup e) (et_image e) ''EFI image backup'' ''EFI image rollback target'' ''.rollback'' w = (r1, u1)"
    by force
  have sl: "SLASH \<notin> set ''.rollback''" by simp
  have e1: "world_ok u1" "\<And>p. p \<notin> insert (et_image e) (siblings (et_image e) ''.rollback'') \<Longrightarrow> inode_at u1 p = inode_at w p"
    "r1 = Inr () \<Longrightarrow> \<exists>n m. inode_at w (et_backup e) = Some n \<and> inode_at u1 (et_image e) = Some m \<and> restored n m"
    using restore_effect [OF 1 assms(3) sl] by (blast, blast, simp)
  have sp: "\<And>e'. o' = Inl e' \<Longrightarrow> what e' \<noteq> []" using speaksD [OF speaks_efi_rollback] o(2) by blast
  show ?thesis
  proof (cases r1)
    case (Inl x)
    with o(2) 1 assms(1) have "v = u1" "o' = Inl x" by (auto simp: efi_rollback_def bind_io_def)
    with e1 o(1) sp show ?thesis by auto
  next
    case (Inr x)
    obtain r2 u2 where 2: "remove_regular_file_secure (et_backup e) ''EFI image backup'' u1 = (r2, u2)" by force
    have e2: "world_ok u2" "\<And>p. p \<noteq> et_backup e \<Longrightarrow> inode_at u2 p = inode_at u1 p"
      using remove_effect [OF 2 e1(1)] by blast+
    have v: "v = u2" "\<And>t. o' = Inr t \<Longrightarrow> t = e\<lparr>et_active := False\<rparr>"
      using o(2) 1 2 Inr assms(1) by (cases r2; auto simp: efi_rollback_def bind_io_def ret_def)+
    have "\<exists>n m. inode_at w (et_backup e) = Some n \<and> inode_at u2 (et_image e) = Some m \<and> ino_data m = ino_data n"
      using e1(3) Inr e2(2) [of "et_image e"] assms(4) by (auto simp: restored_def copied_def holds_def)
    with e1(2) e2 v o(1) sp show ?thesis by auto
  qed
qed

lemma rollback_config_effect:
  assumes "attempt (rollback_config t) w = (r, v)" "world_ok w" "st_apply t = Some x" "st_config_pending t" "ar_changed x"
    "ar_backup x \<noteq> []"
  shows "\<exists>o'. r = Inr o' \<and> world_ok v \<and>
    (\<forall>p. p \<notin> insert (ar_target x) (siblings (ar_target x) ''.rollback'') \<longrightarrow> inode_at v p = inode_at w p) \<and>
    (\<forall>e'. o' = Inl e' \<longrightarrow> what e' \<noteq> []) \<and>
    (\<forall>t'. o' = Inr t' \<longrightarrow> t' = t\<lparr>st_config_pending := False\<rparr> \<and>
       (\<exists>n m. inode_at w (ar_backup x) = Some n \<and> inode_at v (ar_target x) = Some m \<and> ino_data m = ino_data n))"
proof -
  obtain o' where o: "r = Inr o'" "rollback_config t w = (o', v)" using assms(1) by (auto simp: attempt_def split: prod.splits)
  obtain r1 u1 where 1: "atomic_restore_file (ar_backup x) (ar_target x) ''configuration backup'' ''configuration rollback target'' ''.rollback'' w = (r1, u1)"
    by force
  have sl: "SLASH \<notin> set ''.rollback''" by simp
  have e1: "world_ok u1" "\<And>p. p \<notin> insert (ar_target x) (siblings (ar_target x) ''.rollback'') \<Longrightarrow> inode_at u1 p = inode_at w p"
    "r1 = Inr () \<Longrightarrow> \<exists>n m. inode_at w (ar_backup x) = Some n \<and> inode_at u1 (ar_target x) = Some m \<and> restored n m"
    using restore_effect [OF 1 assms(2) sl] by (blast, blast, simp)
  have v: "v = u1" "\<And>t'. o' = Inr t' \<Longrightarrow> r1 = Inr () \<and> t' = t\<lparr>st_config_pending := False\<rparr>" "\<And>e. o' = Inl e \<Longrightarrow> r1 = Inl e"
    using o(2) 1 assms(3-6) by (cases r1; auto simp: rollback_config_def bind_io_def ret_def)+
  have "what e \<noteq> []" if "o' = Inl e" for e using v(3) [OF that] 1 speaksD [OF speaks_restore] by blast
  moreover have "\<exists>n m. inode_at w (ar_backup x) = Some n \<and> inode_at v (ar_target x) = Some m \<and> ino_data m = ino_data n"
    if "o' = Inr t'" for t'
    using v(1) v(2) [OF that] e1(3) by (auto simp: restored_def copied_def holds_def)
  ultimately show ?thesis using o(1) e1(1,2) v(1,2) by auto
qed


definition sb_rollback_failed :: "exn \<Rightarrow> bool" where
  "sb_rollback_failed e \<longleftrightarrow> (\<exists>a b. e = Runtime_error (a @ ''; automatic rollback also failed: '' @ b))"

lemma sb_rollback_total: "\<exists>out t' u. sb_rollback t w = (Inr (out, t'), u)"
proof -
  obtain c u where c: "attempt (rollback_config t) w = (Inr c, u)" by (metis attempt_total)
  obtain errors t1 where t1: "(case c of Inl e \<Rightarrow> (what e, t) | Inr t' \<Rightarrow> ([], t')) = (errors, t1)" by force
  obtain i u2 where "(if st_efi_pending t1 then attempt (efi_rollback (st_efi t1)) else ret (Inr (st_efi t1))) u = (Inr i, u2)"
    by (cases "st_efi_pending t1") (use attempt_total in \<open>force simp: ret_def\<close>)+
  then show ?thesis using c t1
    by (cases i) (simp_all add: sb_rollback_def bind_io_def ret_def)
qed

lemma sb_destroy_total: "\<exists>u. sb_destroy t w = (Inr (), u)"
proof -
  have e: "\<exists>u. efi_destroy e w = (Inr (), u)" for e w
    using attempt_total [of "efi_rollback e" w] by (auto simp: efi_destroy_def bind_io_def ret_def)
  obtain out t' u where "(if st_committed t \<or> \<not> rollback_pending t then ret (Inr (), t) else sb_rollback t) w = (Inr (out, t'), u)"
    using sb_rollback_total [of t w] by (cases "st_committed t \<or> \<not> rollback_pending t") (auto simp: ret_def)
  then show ?thesis using e by (simp add: sb_destroy_def bind_io_def)
qed

text \<open>A rollback that reports success restored everything that was pending.\<close>

lemma sb_rollback_ok:
  assumes "sb_rollback t w = (Inr (Inr (), t'), v)" "\<not> st_committed t" "st_efi_pending t"
  shows "\<exists>t1 u. attempt (rollback_config t) w = (Inr t1, u) \<and>
    (\<forall>e. t1 = Inl e \<longrightarrow> what e = []) \<and>
    (let t1 = (case t1 of Inl e \<Rightarrow> t | Inr t2 \<Rightarrow> t2) in st_efi_pending t1 \<longrightarrow>
     (\<exists>i. attempt (efi_rollback (st_efi t1)) u = (Inr i, v) \<and> (\<forall>e. i = Inl e \<longrightarrow> what e = []) \<and>
       (\<forall>e. i = Inr e \<longrightarrow> t' = t1\<lparr>st_efi := e, st_efi_pending := False\<rparr>)))"
proof -
  obtain c u where c: "attempt (rollback_config t) w = (Inr c, u)" by (metis attempt_total)
  obtain t1 errors where t1: "(case c of Inl e \<Rightarrow> (what e, t) | Inr t' \<Rightarrow> ([], t')) = (errors, t1)" by force
  then have t1': "t1 = (case c of Inl e \<Rightarrow> t | Inr t2 \<Rightarrow> t2)" "errors = (case c of Inl e \<Rightarrow> what e | Inr _ \<Rightarrow> [])"
    by (cases c; simp)+
  have run: "bind_io (if st_efi_pending t1 then attempt (efi_rollback (st_efi t1)) else ret (Inr (st_efi t1))) (\<lambda>i.
        let (errors, t) = (case i of
              Inl e \<Rightarrow> ((if errors \<noteq> [] then errors @ ''; '' else []) @ what e, t1)
            | Inr e \<Rightarrow> (errors, t1\<lparr>st_efi := e, st_efi_pending := False\<rparr>)) in
        ret (if errors \<noteq> [] then Inl (Runtime_error (''Secure Boot rollback failed: '' @ errors)) else Inr (), t)) u
      = (Inr (Inr (), t'), v)"
    using assms c t1 by (simp add: sb_rollback_def rollback_pending_def bind_io_def)
  show ?thesis
  proof (cases "st_efi_pending t1")
    case True
    obtain i u2 where i: "attempt (efi_rollback (st_efi t1)) u = (Inr i, u2)" by (metis attempt_total)
    from run True i have "u2 = v" "errors = []" "\<forall>e. i = Inl e \<longrightarrow> what e = []"
        "\<forall>e. i = Inr e \<longrightarrow> t' = t1\<lparr>st_efi := e, st_efi_pending := False\<rparr>"
      by (cases i; auto simp: bind_io_def ret_def split: if_splits)+
    then show ?thesis using c i t1' True by (cases c) auto
  next
    case False
    from run False have "errors = []" by (auto simp: bind_io_def ret_def split: if_splits)
    then show ?thesis using c t1' False by (cases c) auto
  qed
qed

lemma sb_abort_effect:
  assumes run: "sb_abort t e w = (r, v)" and w: "world_ok w" and st: "\<not> st_committed t" "st_efi_pending t"
    and efi: "st_efi t = \<lparr>et_image = img, et_backup = b, et_active = True\<rparr>"
    and names: "b \<noteq> img" "b \<notin> siblings img ''.rollback''"
    and config: "st_config_pending t \<Longrightarrow> st_apply t = Some x \<and> ar_changed x \<and> ar_backup x \<noteq> [] \<and>
        ({b, img} \<union> siblings img ''.rollback'') \<inter> insert (ar_target x) (siblings (ar_target x) ''.rollback'') = {}"
    and r: "r = Inl e'" "\<not> sb_rollback_failed e'"
  shows "e' = e \<and> (\<exists>n m. inode_at w b = Some n \<and> inode_at v img = Some m \<and> ino_data m = ino_data n) \<and>
    (if st_config_pending t
     then \<exists>n m. inode_at w (ar_backup x) = Some n \<and> inode_at v (ar_target x) = Some m \<and> ino_data m = ino_data n
     else \<forall>p. p \<notin> {b, img} \<union> siblings img ''.rollback'' \<longrightarrow> inode_at v p = inode_at w p)"
proof -
  obtain out t' u where rb: "sb_rollback t w = (Inr (out, t'), u)" using sb_rollback_total by blast
  have out: "out = Inr ()"
  proof (cases out)
    case (Inl e2)
    obtain u' where "sb_destroy t' u = (Inr (), u')" using sb_destroy_total by blast
    with Inl have "sb_rollback_failed e'" using run rb r(1)
      by (auto simp: sb_abort_def bind_io_def throw_def sb_rollback_failed_def)
    with r(2) show ?thesis by simp
  qed simp
  from sb_rollback_ok [OF rb [unfolded out] st] obtain t1 u1 where
    1: "attempt (rollback_config t) w = (Inr t1, u1)" "\<And>e. t1 = Inl e \<Longrightarrow> what e = []"
    "let t1 = (case t1 of Inl e \<Rightarrow> t | Inr t2 \<Rightarrow> t2) in st_efi_pending t1 \<longrightarrow>
     (\<exists>i. attempt (efi_rollback (st_efi t1)) u1 = (Inr i, u) \<and> (\<forall>e. i = Inl e \<longrightarrow> what e = []) \<and>
       (\<forall>e. i = Inr e \<longrightarrow> t' = t1\<lparr>st_efi := e, st_efi_pending := False\<rparr>))" by blast
  have cfg: "world_ok u1 \<and> t1 = Inr (t\<lparr>st_config_pending := False\<rparr>) \<and>
     (if st_config_pending t
      then (\<forall>p. p \<notin> insert (ar_target x) (siblings (ar_target x) ''.rollback'') \<longrightarrow> inode_at u1 p = inode_at w p) \<and>
        (\<exists>n m. inode_at w (ar_backup x) = Some n \<and> inode_at u1 (ar_target x) = Some m \<and> ino_data m = ino_data n)
      else u1 = w)"
  proof (cases "st_config_pending t")
    case True
    have h: "st_apply t = Some x" "ar_changed x" "ar_backup x \<noteq> []" using config [OF True] by simp_all
    from rollback_config_effect [OF 1(1) w h(1) True h(2,3)] obtain o' where o: "(Inr t1 :: exn + (exn + secure_boot_transaction)) = Inr o'" "world_ok u1"
      "\<forall>p. p \<notin> insert (ar_target x) (siblings (ar_target x) ''.rollback'') \<longrightarrow> inode_at u1 p = inode_at w p"
      "\<forall>e'. o' = Inl e' \<longrightarrow> what e' \<noteq> []"
      "\<forall>t'. o' = Inr t' \<longrightarrow> t' = t\<lparr>st_config_pending := False\<rparr> \<and>
       (\<exists>n m. inode_at w (ar_backup x) = Some n \<and> inode_at u1 (ar_target x) = Some m \<and> ino_data m = ino_data n)" by blast
    then show ?thesis using 1(2) True by (cases t1) auto
  next
    case False
    then have eq: "t\<lparr>st_config_pending := False\<rparr> = t" by (cases t) simp
    show ?thesis unfolding eq using False 1(1) w by (auto simp: rollback_config_def attempt_def ret_def)
  qed
  let ?e = "\<lparr>et_image = img, et_backup = b, et_active = True\<rparr>"
  from 1(3) cfg st efi obtain i where i: "attempt (efi_rollback ?e) u1 = (Inr i, u)" "\<And>e. i = Inl e \<Longrightarrow> what e = []"
    "\<And>e. i = Inr e \<Longrightarrow> t' = t\<lparr>st_config_pending := False, st_efi := e, st_efi_pending := False\<rparr>"
    by (auto simp: Let_def)
  from sb_rollback_efi [OF _ i(1)] cfg names obtain o' where o: "i = o'"
    "\<forall>p. p \<noteq> b \<and> p \<notin> insert img (siblings img ''.rollback'') \<longrightarrow> inode_at u p = inode_at u1 p"
    "\<forall>e'. o' = Inl e' \<longrightarrow> what e' \<noteq> []"
    "\<forall>t. o' = Inr t \<longrightarrow> t = ?e\<lparr>et_active := False\<rparr> \<and>
       (\<exists>n m. inode_at u1 b = Some n \<and> inode_at u img = Some m \<and> ino_data m = ino_data n)" by auto
  obtain e2 where e2: "i = Inr e2" using i(2) o(1,3) by (cases i) auto
  have e2': "e2 = ?e\<lparr>et_active := False\<rparr>" using o(1,4) e2 by blast
  have t': "st_committed t' = False" "\<not> rollback_pending t'" "\<not> et_active (st_efi t')"
    using i(3) [OF e2] e2' st by (simp_all add: rollback_pending_def)
  have "sb_destroy t' u = (Inr (), u)"
    using t' by (simp add: sb_destroy_def bind_io_def ret_def efi_destroy_def efi_rollback_def attempt_def)
  then have v: "v = u" "e' = e" using run rb out r(1) by (simp_all add: sb_abort_def bind_io_def throw_def)
  have img: "\<exists>n m. inode_at u1 b = Some n \<and> inode_at v img = Some m \<and> ino_data m = ino_data n" using o(1,4) e2 v by auto
  show ?thesis
  proof (cases "st_config_pending t")
    case True
    note c = config [OF True]
    have b1: "inode_at u1 b = inode_at w b" using cfg True c by auto
    have t2: "inode_at v (ar_target x) = inode_at u1 (ar_target x)" using o(2) c v by auto
    show ?thesis using img cfg True v unfolding b1 t2 by simp
  next
    case False
    then have "u1 = w" using cfg by simp
    with False img o(2) v show ?thesis by auto
  qed
qed



text \<open>The ways in which the service can throw once it has decided to protect the image.\<close>

definition fresh_transaction :: "path \<Rightarrow> path \<Rightarrow> secure_boot_transaction" where
  "fresh_transaction img b =
     \<lparr>st_efi = \<lparr>et_image = img, et_backup = b, et_active = True\<rparr>, st_apply = None, st_config_pending = False,
      st_efi_pending = True, st_committed = False\<rparr>"

lemma sb_begin_effect:
  assumes "sb_begin temp img w = (r, v)" "world_ok w"
  shows "world_ok v \<and> (\<forall>p. p \<notin> backup_names temp img \<longrightarrow> inode_at v p = inode_at w p) \<and>
    (\<forall>t. r = Inr t \<longrightarrow> (\<exists>b\<in>backup_names temp img. t = fresh_transaction img b \<and>
       (\<exists>n m. inode_at w img = Some n \<and> inode_at v b = Some m \<and> ino_data m = ino_data n)))"
proof -
  obtain r0 u where 0: "efi_begin temp img w = (r0, u)" by force
  note e = efi_begin_effect [OF 0 assms(2)]
  have v: "v = u" using assms(1) 0 by (cases r0) (auto simp: sb_begin_def bind_io_def ret_def)
  show ?thesis
  proof (cases r0)
    case (Inl x)
    with assms(1) 0 have "r = Inl x" by (simp add: sb_begin_def bind_io_def)
    with e v show ?thesis by simp
  next
    case (Inr t0)
    with assms(1) 0 have "r = Inr (fresh_transaction (et_image t0) (et_backup t0)\<lparr>st_efi := t0\<rparr>)"
      by (simp add: sb_begin_def bind_io_def ret_def fresh_transaction_def)
    moreover have "t0 = \<lparr>et_image = img, et_backup = et_backup t0, et_active = True\<rparr>" using e Inr by (cases t0) simp
    ultimately have r: "r = Inr (fresh_transaction img (et_backup t0))"
      by (metis (no_types, lifting) efi_transaction.select_convs(1) fresh_transaction_def
          secure_boot_transaction.update_convs(1))
    show ?thesis unfolding v using e Inr r by blast
  qed
qed

lemma sb_apply_throws:
  assumes "sb_apply temp tool armed plan sys config w = (Inl e, v)"
    and "sb_enabled (secure_boot sys)" "secure_boot_protect_config config"
  obtains (refused) "v = w"
    | (not_begun) "sb_begin temp (efi_executable (secure_boot sys)) w = (Inl e, v)"
    | (not_applied) t u0 x u1 where "sb_begin temp (efi_executable (secure_boot sys)) w = (Inr t, u0)" "has_changes plan"
        "apply_plan (automation_runtime_directory config) plan u0 = (Inl x, u1)" "(sb_abort t x :: (world, apply_result) io) u1 = (Inl e, v)"
    | (not_recorded) t u0 res x where "sb_begin temp (efi_executable (secure_boot sys)) w = (Inr t, u0)"
        "record_apply res t = Inl x"
    | (not_enrolled) t u0 res u1 t1 x u2 where "sb_begin temp (efi_executable (secure_boot sys)) w = (Inr t, u0)" "has_changes plan"
        "apply_plan (automation_runtime_directory config) plan u0 = (Inr res, u1)" "record_apply res t = Inr t1"
        "enroll_and_commit tool armed (plan_target plan) t1 u1 = (Inl x, u2)" "(sb_abort t1 x :: (world, apply_result) io) u2 = (Inl e, v)"
proof -
  let ?i = "efi_executable (secure_boot sys)" and ?rd = "automation_runtime_directory config"
  show ?thesis
  proof (cases "has_changes plan \<and> ?i \<noteq> []")
    case False
    with assms have "v = w" by (auto simp: sb_apply_def Let_def throw_def ret_def split: if_splits)
    then show ?thesis by (rule refused)
  next
    case True
    obtain r0 u0 where 0: "sb_begin temp ?i w = (r0, u0)" by force
    show ?thesis
    proof (cases r0)
      case (Inl x)
      with assms True 0 show ?thesis by (intro not_begun) (simp add: sb_apply_def Let_def bind_io_def)
    next
      case t: (Inr t)
      obtain r1 u1 where 1: "apply_plan ?rd plan u0 = (r1, u1)" by force
      then have a1: "attempt (apply_plan ?rd plan) u0 = (Inr r1, u1)" by (simp add: attempt_def)
      show ?thesis
      proof (cases r1)
        case (Inl x)
        with assms True 0 t a1 have "(sb_abort t x :: (world, apply_result) io) u1 = (Inl e, v)" by (simp add: sb_apply_def Let_def bind_io_def)
        with not_applied 0 t 1 Inl True show ?thesis by blast
      next
        case res: (Inr res)
        show ?thesis
        proof (cases "record_apply res t")
          case (Inl x)
          with not_recorded 0 t show ?thesis by blast
        next
          case t1: (Inr t1)
          obtain r2 u2 where 2: "enroll_and_commit tool armed (plan_target plan) t1 u1 = (r2, u2)" by force
          then have a2: "attempt (enroll_and_commit tool armed (plan_target plan) t1) u1 = (Inr r2, u2)"
            by (simp add: attempt_def)
          show ?thesis
          proof (cases r2)
            case (Inl x)
            with assms True 0 t a1 res t1 a2 have "(sb_abort t1 x :: (world, apply_result) io) u2 = (Inl e, v)"
              by (simp add: sb_apply_def Let_def bind_io_def)
            with not_enrolled 0 t 1 res t1 2 True Inl show ?thesis by blast
          next
            case (Inr t2)
            obtain u3 where "sb_destroy t2 u2 = (Inr (), u3)" using sb_destroy_total by blast
            with assms True 0 t a1 res t1 a2 Inr show ?thesis by (simp add: sb_apply_def Let_def bind_io_def ret_def)
          qed
        qed
      qed
    qed
  qed
qed


text \<open>Undoing after the configuration could not be applied.\<close>

lemma unapplied_restored:
  assumes "apply_plan rd plan u0 = (Inl x, u1)" "(sb_abort (fresh_transaction img b) x :: (world, apply_result) io) u1 = (Inl e, v)"
    "world_ok u0" "has_changes plan" "plan_target plan \<notin> runtime_names rd" "inode_at u0 (plan_target plan) = Some n"
    and names: "b \<notin> touched img" "b \<notin> apply_names rd (plan_target plan)" "touched img \<inter> apply_names rd (plan_target plan) = {}"
    and b: "inode_at u0 b = Some mb"
    and told: "\<not> rollback_failed e" "\<not> sb_rollback_failed e"
  shows "\<exists>n' m'. inode_at v (plan_target plan) = Some n' \<and> ino_data n' = ino_data n \<and>
    inode_at v img = Some m' \<and> ino_data m' = ino_data mb"
proof -
  note e1 = apply_effect [OF assms(1,3,5,4,6)]
  have sib: "siblings img ''.rollback'' \<subseteq> touched img" by (simp add: siblings_subset_touched)
  have nm: "b \<noteq> img" "b \<notin> siblings img ''.rollback''" using names(1) sib by (blast intro: sibling_in_touched)+
  have w1: "world_ok u1" using e1 by blast
  have "inode_at u1 b = Some mb" using e1 names(2) b by auto
  moreover have "e = x \<and> (\<exists>n m. inode_at u1 b = Some n \<and> inode_at v img = Some m \<and> ino_data m = ino_data n) \<and>
     (if st_config_pending (fresh_transaction img b) then undefined
      else \<forall>p. p \<notin> {b, img} \<union> siblings img ''.rollback'' \<longrightarrow> inode_at v p = inode_at u1 p)"
    using sb_abort_effect [OF assms(2) w1 _ _ _ nm _ refl told(2)] by (simp add: fresh_transaction_def)
  moreover have "plan_target plan \<in> apply_names rd (plan_target plan)" "img \<in> touched img" by (simp_all add: apply_names_def)
  then have "plan_target plan \<notin> {b, img} \<union> siblings img ''.rollback''" using names sib by blast
  moreover have "e = x \<Longrightarrow> \<exists>n'. inode_at u1 (plan_target plan) = Some n' \<and> ino_data n' = ino_data n" using e1 told(1) by blast
  ultimately show ?thesis by (auto simp: fresh_transaction_def)
qed

text \<open>Undoing after the configuration was replaced.\<close>

lemma unenrolled_restored:
  assumes "apply_plan rd plan u0 = (Inr res, u1)" "record_apply res (fresh_transaction img b) = Inr t1"
    "enroll_and_commit tool armed (plan_target plan) t1 u1 = (r, u2)" "(sb_abort t1 x :: (world, apply_result) io) u2 = (Inl e, v)"
    "world_ok u0" "has_changes plan" "plan_target plan \<notin> runtime_names rd" "inode_at u0 (plan_target plan) = Some n"
    and names: "b \<notin> touched img" "b \<notin> apply_names rd (plan_target plan)" "touched img \<inter> apply_names rd (plan_target plan) = {}"
    and b: "inode_at u0 b = Some mb" and tools: "tools_touch_only tool img"
    and told: "\<not> sb_rollback_failed e"
  shows "\<exists>n' m'. inode_at v (plan_target plan) = Some n' \<and> ino_data n' = ino_data n \<and>
    inode_at v img = Some m' \<and> ino_data m' = ino_data mb"
proof -
  let ?t = "plan_target plan"
  note e1 = apply_effect [OF assms(1,5,7,6,8)]
  have res: "ar_changed res" "ar_target res = ?t" "ar_backup res \<in> siblings ?t ''.bak''"
    "\<exists>k. inode_at u1 (ar_backup res) = Some k \<and> ino_data k = ino_data n" using e1 by blast+
  have sib: "insert img (siblings img ''.rollback'') \<subseteq> touched img"
      "insert ?t (siblings ?t ''.rollback'') \<subseteq> apply_names rd ?t" "siblings ?t ''.bak'' \<subseteq> apply_names rd ?t"
    by (auto simp: touched_def apply_names_def)
  have nm: "b \<noteq> img" "b \<notin> siblings img ''.rollback''" using names(1) sib(1) by blast+
  have w1: "world_ok u1" and b1: "inode_at u1 b = Some mb" using e1 names(2) b by auto
  have t1: "t1 = fresh_transaction img b\<lparr>st_config_pending := True, st_apply := Some res\<rparr>"
    using assms(2) res(1) by (simp add: record_apply_def fresh_transaction_def)
  have k2: "kept img b u1 u2" using enroll_effect [OF assms(3) w1] tools nm(1) by (simp add: t1 fresh_transaction_def)
  obtain p k where "ar_backup res = sibling ?t ''.bak'' p k" using res(3) by (auto simp: siblings_def)
  then have nb: "ar_backup res \<noteq> []" by simp
  have dis: "({b, img} \<union> siblings img ''.rollback'') \<inter> insert ?t (siblings ?t ''.rollback'') = {}"
    using names sib by blast
  have cfg: "st_config_pending t1 \<Longrightarrow> st_apply t1 = Some res \<and> ar_changed res \<and> ar_backup res \<noteq> [] \<and>
     ({b, img} \<union> siblings img ''.rollback'') \<inter> insert (ar_target res) (siblings (ar_target res) ''.rollback'') = {}"
    using dis nb res(1,2) by (simp add: t1)
  have st: "\<not> st_committed t1" "st_efi_pending t1" "st_efi t1 = \<lparr>et_image = img, et_backup = b, et_active = True\<rparr>"
    "st_config_pending t1" by (simp_all add: t1 fresh_transaction_def)
  have w2: "world_ok u2" using k2 by (simp add: kept_def)
  from sb_abort_effect [OF assms(4) w2 st(1-3) nm cfg refl told] st(4) res(2) have a:
    "\<exists>n m. inode_at u2 b = Some n \<and> inode_at v img = Some m \<and> ino_data m = ino_data n"
    "\<exists>n m. inode_at u2 (ar_backup res) = Some n \<and> inode_at v ?t = Some m \<and> ino_data m = ino_data n" by simp_all
  have "ar_backup res \<noteq> img" "ar_backup res \<noteq> b" using res(3) sib names(2,3) by blast+
  then have "inode_at u2 (ar_backup res) = inode_at u1 (ar_backup res)" using k2 by (simp add: kept_def)
  moreover have "inode_at u2 b = Some mb \<or> inode_at u2 b = None" using k2 b1 by (simp add: kept_def)
  ultimately show ?thesis using a res(4) by auto
qed


section \<open>A concrete run\<close>

definition efi_files :: "(path \<times> inode) list" where
  "efi_files = (''/efi/BOOTX64.EFI'', plain_file ''MZ'') # installed_files"

definition signed_system :: system_info where
  "signed_system = empty_system_info\<lparr>secure_boot := default_secure_boot\<lparr>sb_enabled := True, efi_executable := ''/efi/BOOTX64.EFI''\<rparr>\<rparr>"

definition silent_tool :: tool where
  "silent_tool = (\<lambda>args w. (Inr \<lparr>exit_code = 0, proc_output = []\<rparr>, w))"

lemma dir_of_runtime: "p \<in> runtime_names ''/run/limine-manager'' \<Longrightarrow> dir_of p \<in> {''/'', ''/run'', ''/run/limine-manager''}"
proof -
  assume p: "p \<in> runtime_names ''/run/limine-manager''"
  have an: "ancestors (length ''/run/limine-manager'') ''/run/limine-manager'' = [''/'', ''/run'', ''/run/limine-manager'']"
    and pa: "path_append ''/run/limine-manager'' ''apply.lock'' = ''/run/limine-manager/apply.lock''" by code_simp+
  have d: "dir_of ''/'' = ''/''" "dir_of ''/run'' = ''/''" "dir_of ''/run/limine-manager'' = ''/run''"
    "dir_of ''/run/limine-manager/apply.lock'' = ''/run/limine-manager''" by code_simp+
  from p consider "p = ''/run/limine-manager/apply.lock''" | "p = ''/''" | "p = ''/run''" | "p = ''/run/limine-manager''"
    unfolding runtime_names_def an pa by auto
  then show ?thesis by cases (simp_all only: d insert_iff simp_thms)
qed

lemma rollback_failure_text: "sb_rollback_failed (Runtime_error m) \<Longrightarrow> CHR '';'' \<in> set m"
  by (auto simp: sb_rollback_failed_def)

lemma dir_of_touched: "p \<in> touched t \<Longrightarrow> dir_of p = dir_of t"
  by (auto simp: touched_def siblings_def)

lemma dir_of_backup: "p \<in> backup_names (Inr ''/tmp'') img \<Longrightarrow> dir_of p = ''/tmp''"
proof -
  assume "p \<in> backup_names (Inr ''/tmp'') img"
  then obtain a b where p: "p = path_append ''/tmp'' (''limine-manager-'' @ filename img @ ''.'' @ dec a @ ''.'' @ dec b @ ''.bak'')"
    by (auto simp: backup_names_def)
  let ?f = "''limine-manager-'' @ filename img @ ''.'' @ dec a @ ''.'' @ dec b @ ''.bak''"
  have f: "SLASH \<notin> set ?f" "?f \<noteq> []" by simp_all
  have d: "parent_path ''/tmp/x'' = ''/tmp''" by code_simp
  have "parent_path (path_append ''/tmp'' ?f) = ''/tmp''" using parent_path_append [OF f, of "''/tmp/x''"] unfolding d .
  then show ?thesis unfolding p dir_of_def by simp
qed


end
