(* ===== verification/Backup_Service.thy ===== *)
theory Backup_Service
  imports Real_File_System Sorting Secure_File_Specs
begin

text \<open>
\<open>application::BackupService\<close> (src/application/backup_service.cpp): finding, ordering and pruning
  the backups that \<open>apply\<close> leaves beside the configuration.
\<close>

record backup_info =
  bi_path :: path
  bi_size :: nat
  bi_modified :: nat

definition prefix_for :: "path \<Rightarrow> string" where
  "prefix_for target = filename target @ ''.bak.''"

definition is_backup :: "directory_entry \<Rightarrow> string \<Rightarrow> bool" where
  "is_backup entry pre \<longleftrightarrow> regular_file entry \<and> starts_with (filename (entry_path entry)) pre"

definition backup_of :: "world \<Rightarrow> directory_entry \<Rightarrow> backup_info option" where
  "backup_of w entry =
     map_option (\<lambda>i. \<lparr>bi_path = entry_path entry, bi_size = length (ino_data i), bi_modified = ino_mtime i\<rparr>)
       (node w (entry_path entry))"

text \<open>Newest first, then by decreasing name.\<close>

definition newer_backup :: "backup_info \<Rightarrow> backup_info \<Rightarrow> bool" where
  "newer_backup l r =
     (if bi_modified l \<noteq> bi_modified r then bi_modified l > bi_modified r
      else filename (bi_path l) > filename (bi_path r))"

definition list_backups :: "world \<Rightarrow> path \<Rightarrow> backup_info list" where
  "list_backups w target =
     (let directory = dir_of target in
      if \<not> rfs_is_directory w directory then []
      else sort_by newer_backup
        (List.map_filter (backup_of w)
           (filter (\<lambda>e. is_backup e (prefix_for target)) (rfs_list_directory w directory))))"

definition latest_backup :: "world \<Rightarrow> path \<Rightarrow> backup_info option" where
  "latest_backup w target =
     (case list_backups w target of [] \<Rightarrow> None | b # _ \<Rightarrow> Some b)"

text \<open>A file that is gone already makes \<open>remove\<close> return false with a clear error code.\<close>

fun remove_backups :: "backup_info list \<Rightarrow> nat \<Rightarrow> (world, nat) io" where
  "remove_backups [] removed = ret removed"
| "remove_backups (b # bs) removed =
     bind_io (or_throw (sys_unlink (bi_path b)) (\<lambda>e. Runtime_error
        (''cannot remove old backup '' @ [SQUOTE] @ bi_path b @ [SQUOTE] @ '': '' @
         (if e = ENOENT then ''Success'' else strerror e)))) (\<lambda>_.
     remove_backups bs (removed + 1))"

definition prune :: "path \<Rightarrow> nat \<Rightarrow> (world, nat) io" where
  "prune target retain =
     bind_io (gets (\<lambda>w. list_backups w target)) (\<lambda>backups.
     if retain = 0 \<or> length backups \<le> retain then ret 0
     else remove_backups (drop retain backups) 0)"

interpretation backup_order: strict_weak_order UNIV newer_backup
  by unfold_locales (auto simp: newer_backup_def split: if_splits)

text \<open>
  C40: the list of backups holds exactly the regular files beside the target whose names continue the
  target's name with \<open>.bak.\<close>, the most recently modified first, and \<open>latest\<close> is one that no other
  precedes.
\<close>

theorem list_backups_newest:
  "if \<not> rfs_is_directory w (dir_of target) then list_backups w target = []
   else image_mset bi_path (mset (list_backups w target)) =
       image_mset entry_path (mset (filter (\<lambda>e. is_backup e (prefix_for target)) (rfs_list_directory w (dir_of target)))) \<and>
     sorted_wrt (\<lambda>a b. bi_modified b \<le> bi_modified a) (list_backups w target) \<and>
     (case latest_backup w target of
        None \<Rightarrow> list_backups w target = []
      | Some b \<Rightarrow> b \<in> set (list_backups w target) \<and> list_all (\<lambda>c. \<not> newer_backup c b) (list_backups w target))"
proof (cases "rfs_is_directory w (dir_of target)")
  case False
  then show ?thesis by (simp add: list_backups_def)
next
  case d: True
  let ?es = "filter (\<lambda>e. is_backup e (prefix_for target)) (rfs_list_directory w (dir_of target))"
  let ?bs = "List.map_filter (backup_of w) ?es"
  have ls: "list_backups w target = sort_by newer_backup ?bs" using d by (simp add: list_backups_def Let_def)
  have p: "map bi_path (List.map_filter (backup_of w) es) = map entry_path es"
    if "\<forall>e\<in>set es. regular_file e \<and> e \<in> set (rfs_list_directory w (dir_of target))" for es
    using that
  proof (induction es)
    case (Cons e es)
    then have "rfs_is_regular_file w (entry_path e)" using rfs_listed [of e] by auto
    then obtain i where "node w (entry_path e) = Some i" by (auto simp: rfs_is_regular_file_def)
    with Cons show ?case by (simp add: backup_of_def)
  qed simp
  have "map bi_path ?bs = map entry_path ?es" by (rule p) (auto simp: is_backup_def)
  then have "image_mset bi_path (mset (list_backups w target)) = image_mset entry_path (mset ?es)"
    unfolding ls by (metis mset_map mset_sort_by)
  moreover have "sorted_wrt (\<lambda>a b. bi_modified b \<le> bi_modified a) (list_backups w target)"
    unfolding ls using backup_order.sorted_sort [of ?bs]
    by (rule sorted_wrt_mono_rel [rotated]) (auto simp: newer_backup_def split: if_splits)
  moreover have "\<not> newer_backup c (hd (list_backups w target))" if "c \<in> set (list_backups w target)" for c
    using that backup_order.hd_least [of ?bs c] unfolding ls by simp
  then have "case latest_backup w target of None \<Rightarrow> list_backups w target = []
      | Some b \<Rightarrow> b \<in> set (list_backups w target) \<and> list_all (\<lambda>c. \<not> newer_backup c b) (list_backups w target)"
    by (cases "list_backups w target") (auto simp: latest_backup_def list_all_iff)
  ultimately show ?thesis using d by simp
qed

lemma remove_backups_spec:
  assumes "remove_backups bs k w = (r, v)" "frame n S w0 w" "bi_path ` set bs \<subseteq> S"
  shows "frame n S w0 v \<and> inodes v = inodes w \<and>
    (\<forall>p. p \<notin> bi_path ` set bs \<longrightarrow> lookup v p = lookup w p) \<and>
    (\<forall>p. lookup v p = lookup w p \<or> lookup v p = None) \<and>
    (\<forall>m. r = Inr m \<longrightarrow> m = k + length bs \<and> (\<forall>b\<in>set bs. lookup v (bi_path b) = None))"
  using assms
proof (induction bs arbitrary: k w)
  case Nil
  then show ?case by (auto simp: ret_def)
next
  case (Cons b bs)
  obtain r1 u where 1: "sys_unlink (bi_path b) w = (r1, u)" by force
  have bS: "bi_path b \<in> S" using Cons.prems(3) by simp
  note s = sys_unlink_spec [OF 1 Cons.prems(2) bS]
  show ?case
  proof (cases r1)
    case (Inl e)
    with Cons.prems(1) 1 have "v = u" "\<exists>e. r = Inl e" by (simp_all add: bind_io_def or_throw_def) blast
    moreover have "lookup u p = lookup w p" for p using s Inl by (cases "p = bi_path b") auto
    ultimately show ?thesis using s by auto
  next
    case (Inr x)
    with Cons.prems(1) 1 have "remove_backups bs (k + 1) u = (r, v)" by (simp add: bind_io_def or_throw_def)
    from Cons.IH [OF this] s Cons.prems(3) have ih: "frame n S w0 v" "inodes v = inodes u"
      "\<forall>p. p \<notin> bi_path ` set bs \<longrightarrow> lookup v p = lookup u p" "\<forall>p. lookup v p = lookup u p \<or> lookup v p = None"
      "\<forall>m. r = Inr m \<longrightarrow> m = k + 1 + length bs \<and> (\<forall>b\<in>set bs. lookup v (bi_path b) = None)" by simp_all
    have u: "lookup u (bi_path b) = None" "inodes u = inodes w" "\<forall>x. x \<noteq> bi_path b \<longrightarrow> lookup u x = lookup w x"
      using s Inr by auto
    have "lookup v (bi_path b) = None" using ih(4) u(1) by metis
    moreover have "lookup v p = lookup w p \<or> lookup v p = None" for p using ih(4) u by metis
    moreover have "lookup v p = lookup w p" if "p \<notin> bi_path ` set (b # bs)" for p using that ih(3) u(3) by simp
    ultimately show ?thesis using ih u(2) by simp
  qed
qed

text \<open>
  C23: pruning removes exactly the backups beyond the newest \<open>retain\<close>, reports how many these were,
  and touches no other name and no file's content; with \<open>retain\<close> zero it removes nothing. When a
  removal fails it throws, still having touched none of the backups to keep.
\<close>

theorem prune_keeps_newest:
  assumes "world_ok w" and "prune target retain w = (r, v)"
  shows "let old = (if retain = 0 then [] else map bi_path (drop retain (list_backups w target))) in
    inodes v = inodes w \<and> (\<forall>p. p \<notin> set old \<longrightarrow> lookup v p = lookup w p) \<and>
    (case r of Inl e \<Rightarrow> True | Inr n \<Rightarrow> n = length old \<and> list_all (\<lambda>p. lookup v p = None) old)"
proof -
  let ?bs = "list_backups w target"
  have f: "frame (next_inode w) UNIV w w" using assms(1) by (intro frame_refl) simp_all
  show ?thesis
  proof (cases "retain = 0 \<or> length ?bs \<le> retain")
    case True
    with assms(2) have "v = w" "r = Inr 0" by (auto simp: prune_def bind_io_def gets_def ret_def)
    with True show ?thesis by auto
  next
    case False
    with assms(2) have "remove_backups (drop retain ?bs) 0 w = (r, v)" by (simp add: prune_def bind_io_def gets_def)
    from remove_backups_spec [OF this f] False show ?thesis
      by (cases r) (auto simp: Let_def list_all_iff)
  qed
qed

definition two_backups :: "(path \<times> inode) list" where
  "two_backups = [(''/'', plain_dir), (''/b'', plain_dir), (''/b/l.bak.1'', plain_file ''x''), (''/b/l.bak.2'', plain_file ''y'')]"

lemma two_backups_listed:
  "map bi_path (list_backups (sample_host two_backups []) ''/b/l'') = [''/b/l.bak.2'', ''/b/l.bak.1'']"
  by code_simp

theorem prune_keeps_newest_witness:
  "\<exists>v. prune ''/b/l'' 1 (sample_host two_backups []) = (Inr 1, v) \<and>
     lookup v ''/b/l.bak.1'' = None \<and> lookup v ''/b/l.bak.2'' = Some 3"
proof -
  obtain r v where run: "prune ''/b/l'' 1 (sample_host two_backups []) = (r, v)" by force
  have "fst (prune ''/b/l'' 1 (sample_host two_backups [])) = Inr 1" by code_simp
  moreover have "lookup (sample_host two_backups []) ''/b/l.bak.2'' = Some 3" by code_simp
  ultimately show ?thesis using prune_keeps_newest [OF sample_host_ok run] run two_backups_listed
    by (auto simp: drop_map)
qed

text \<open>Removing backups removes names and adds none.\<close>

lemma prune_names:
  assumes "prune target retain w = (r, v)" "world_ok w"
  shows "world_ok v \<and> (\<forall>p. lookup w p = None \<longrightarrow> lookup v p = None)"
proof -
  let ?bs = "drop retain (list_backups w target)"
  have f: "frame (next_inode w) UNIV w w" using assms(2) by (intro frame_refl) simp_all
  have "w = v \<or> remove_backups ?bs 0 w = (r, v)"
    using assms(1) by (auto simp: prune_def bind_io_def gets_def ret_def split: if_splits)
  then show ?thesis
  proof
    assume "remove_backups ?bs 0 w = (r, v)"
    note s = remove_backups_spec [OF this f subset_UNIV]
    then have "world_ok v" "\<forall>p. lookup v p = lookup w p \<or> lookup v p = None" by (auto dest: frame_wf)
    then show ?thesis by metis
  qed (use assms(2) in simp)
qed

end
