(* ===== verification/Btrfs_Client.thy ===== *)
theory Btrfs_Client
  imports Report System_Model Posix Apply_Service Snapper_Client
begin

text \<open>
The Btrfs client of the rollback (src/infrastructure/btrfs_client.cpp,
  include/limine_manager/infrastructure/btrfs_client.hpp).

  \<open>BtrfsClient\<close> is a record of operations over a state that the caller chooses; \<open>posix_btrfs_client\<close>
  is \<open>PosixBtrfsClient\<close>, built over the process runner and the two operations of \<open>std::filesystem\<close> it
  calls. The listing parser is shown to read back what the \<open>btrfs\<close> tool prints.
\<close>

section \<open>The client\<close>

record btrfs_subvolume =
  sv_id :: ulong
  sv_path :: string

record 's btrfs_client =
  bc_list :: "path \<Rightarrow> ('s, btrfs_subvolume list) io"
  bc_mount :: "string \<Rightarrow> path \<Rightarrow> ('s, unit) io"
  bc_unmount :: "path \<Rightarrow> ('s, unit) io"
  bc_snapshot :: "path \<Rightarrow> path \<Rightarrow> ('s, unit) io"
  bc_move :: "path \<Rightarrow> path \<Rightarrow> ('s, unit) io"
  bc_sync :: "path \<Rightarrow> ('s, unit) io"

definition normalize_btrfs_source :: "string \<Rightarrow> string" where
  "normalize_btrfs_source source =
     (case find_char (CHR ''['') source of
        Some i \<Rightarrow> if ends_with source '']'' then take i source else source
      | None \<Rightarrow> source)"

definition field_after :: "string \<Rightarrow> string \<Rightarrow> string" where
  "field_after line marker =
     (case find_sub line marker of None \<Rightarrow> [] | Some i \<Rightarrow> drop (i + length marker) line)"

text \<open>One line of \<open>btrfs subvolume list\<close>; \<open>None\<close> when the callback skips it.\<close>

definition subvolume_line :: "string \<Rightarrow> btrfs_subvolume option" where
  "subvolume_line line =
     (let id_text = field_after line ''ID '' in
      if id_text = [] then None
      else case find_char (CHR '' '') id_text of
        None \<Rightarrow> None
      | Some id_end \<Rightarrow>
          (case from_chars_all (take id_end id_text) of
             None \<Rightarrow> None
           | Some n \<Rightarrow>
               let p = field_after line '' path '' in
               if p = [] then None
               else Some \<lparr>sv_id = n, sv_path = (if hd p = SLASH then tl p else p)\<rparr>))"

definition parse_subvolumes :: "string \<Rightarrow> btrfs_subvolume list" where
  "parse_subvolumes text = List.map_filter subvolume_line (output_lines text)"

definition succeeded :: "process_result \<Rightarrow> string \<Rightarrow> ('s, unit) io" where
  "succeeded res operation =
     (if exit_code res \<noteq> 0 then throw (Runtime_error (operation @ '' failed: '' @ trim (proc_output res))) else ret ())"

text \<open>
  \<open>PosixBtrfsClient\<close>. Its parameters are the runner of external programs and the two functions of
  \<open>std::filesystem\<close> it calls, as they act on a state that holds the Btrfs file system.
\<close>

definition posix_btrfs_client ::
  "(string list \<Rightarrow> ('s, process_result) io) \<Rightarrow> (path \<Rightarrow> ('s, unit) io) \<Rightarrow> (path \<Rightarrow> path \<Rightarrow> ('s, unit) io) \<Rightarrow> 's btrfs_client" where
  "posix_btrfs_client run mkdirs rename =
     \<lparr>bc_list = (\<lambda>mp. bind_io (run [''btrfs'', ''subvolume'', ''list'', mp]) (\<lambda>res.
        bind_io (succeeded res ''btrfs subvolume list'') (\<lambda>_. ret (parse_subvolumes (proc_output res))))),
      bc_mount = (\<lambda>source mp. bind_io (mkdirs mp) (\<lambda>_.
        bind_io (run [''mount'', ''-o'', ''subvolid=5'', source, mp]) (\<lambda>res.
        succeeded res ''mount Btrfs top-level''))),
      bc_unmount = (\<lambda>mp. bind_io (run [''umount'', mp]) (\<lambda>res. succeeded res ''umount Btrfs top-level'')),
      bc_snapshot = (\<lambda>source destination.
        bind_io (run [''btrfs'', ''subvolume'', ''snapshot'', source, destination]) (\<lambda>res.
        succeeded res ''btrfs subvolume snapshot'')),
      bc_move = rename,
      bc_sync = (\<lambda>p. bind_io (run [''btrfs'', ''filesystem'', ''sync'', p]) (\<lambda>res.
        succeeded res ''btrfs filesystem sync''))\<rparr>"

text \<open>A line as \<open>btrfs subvolume list\<close> prints it, with the generation \<open>g\<close> and the parent \<open>t\<close>.\<close>

definition subvolume_text :: "nat \<times> nat \<times> btrfs_subvolume \<Rightarrow> string" where
  "subvolume_text = (\<lambda>(g, t, sv). ''ID '' @ dec (unat (sv_id sv)) @ '' gen '' @ dec g @ '' top level '' @ dec t @
     '' path '' @ sv_path sv)"

lemma starts_with_Cons: "starts_with (c # s) (d # p) \<longleftrightarrow> c = d \<and> starts_with s p"
  by (auto simp: starts_with_def)

lemma starts_with_dec: "starts_with (dec n @ s) (c # p) \<Longrightarrow> isdigit c"
  using isdigit_dec [of _ n] by (cases "dec n") (auto simp: starts_with_Cons)

lemma field_after_step:
  "\<not> starts_with (c # s) p \<Longrightarrow> field_after (c # s) p = field_after s p"
  "field_after (p @ t) p = t"
  "p \<noteq> [] \<Longrightarrow> hd p \<notin> set u \<Longrightarrow> field_after (u @ s) p = field_after s p"
proof -
  show "\<not> starts_with (c # s) p \<Longrightarrow> field_after (c # s) p = field_after s p" for c
    by (cases "find_sub s p") (simp_all add: field_after_def)
  have "find_sub (p @ t) p = Some 0"
    by (cases "p @ t") (use starts_with_append [of p t] in auto)
  then show "field_after (p @ t) p = t" by (simp add: field_after_def)
  show "p \<noteq> [] \<Longrightarrow> hd p \<notin> set u \<Longrightarrow> field_after (u @ s) p = field_after s p"
  proof (induction u)
    case (Cons a u)
    then have "\<not> starts_with (a # u @ s) p" by (cases p) (auto simp: starts_with_Cons)
    then have "field_after (a # u @ s) p = field_after (u @ s) p"
      by (cases "find_sub (u @ s) p") (simp_all add: field_after_def)
    with Cons show ?case by simp
  qed simp
qed

lemma subvolume_text_path: "field_after (subvolume_text (g, t, sv)) '' path '' = sv_path sv"
proof -
  have d: "CHR '' '' \<notin> set (dec n)" for n using isdigit_dec [of "CHR '' ''" n] by (auto simp: isdigit_def)
  have np: "\<not> starts_with (dec n @ s) ''path ''" for n s
    using starts_with_dec [of n s "CHR ''p''" "''ath ''"] by (auto simp: isdigit_def)
  have skip: "field_after (dec n @ s) '' path '' = field_after s '' path ''" for n s
    by (rule field_after_step(3)) (simp_all add: d)
  have "field_after (subvolume_text (g, t, sv)) '' path '' = field_after ('' path '' @ sv_path sv) '' path ''"
    by (simp add: subvolume_text_def field_after_step(1) starts_with_Cons np skip)
  also have "\<dots> = sv_path sv" by (rule field_after_step(2))
  finally show ?thesis .
qed

lemma subvolume_line_printed:
  assumes "sv_path sv \<noteq> []" "hd (sv_path sv) \<noteq> SLASH"
  shows "subvolume_line (subvolume_text (g, t, sv)) = Some sv"
proof -
  let ?rest = "''gen '' @ dec g @ '' top level '' @ dec t @ '' path '' @ sv_path sv"
  have "subvolume_text (g, t, sv) = ''ID '' @ dec (unat (sv_id sv)) @ CHR '' '' # ?rest" by (simp add: subvolume_text_def)
  then have id: "field_after (subvolume_text (g, t, sv)) ''ID '' = dec (unat (sv_id sv)) @ CHR '' '' # ?rest"
    by (simp only: field_after_step(2))
  have "CHR '' '' \<notin> set (dec n)" for n using isdigit_dec [of "CHR '' ''" n] by (auto simp: isdigit_def)
  then have "find_char (CHR '' '') (dec (unat (sv_id sv)) @ CHR '' '' # ?rest) = Some (length (dec (unat (sv_id sv))))"
    by (intro find_char_append_notin)
  then show ?thesis using assms
    unfolding subvolume_line_def id subvolume_text_path Let_def by simp
qed

lemma parse_subvolumes_printed:
  assumes "\<forall>(g, t, sv) \<in> set rows. sv_path sv \<noteq> [] \<and> hd (sv_path sv) \<noteq> SLASH \<and> NL \<notin> set (sv_path sv) \<and>
      last (sv_path sv) \<noteq> CR"
  shows "parse_subvolumes (as_text (map subvolume_text rows)) = map (snd \<circ> snd) rows"
proof -
  have "NL \<notin> set (dec n)" for n using isdigit_dec [of NL n] by (auto simp: isdigit_def)
  then have "getlines (as_text (map subvolume_text rows)) = map subvolume_text rows"
    using assms by (intro getlines_as_text) (auto simp: subvolume_text_def)
  moreover have "strip_cr (subvolume_text r) = subvolume_text r \<and> subvolume_text r \<noteq> []" if "r \<in> set rows" for r
    using assms that by (cases r) (auto simp: strip_cr_def subvolume_text_def)
  ultimately have "output_lines (as_text (map subvolume_text rows)) = map subvolume_text rows"
    by (auto simp: output_lines_def o_def filter_empty_conv intro!: map_cong filter_True)
  moreover have "List.map_filter subvolume_line (map subvolume_text rows) = map (snd \<circ> snd) rows"
    using assms by (induction rows) (auto simp: subvolume_line_printed)
  ultimately show ?thesis by (simp add: parse_subvolumes_def)
qed

text \<open>
  C33: what \<open>btrfs subvolume list\<close> prints is read back exactly: every subvolume, in order, with its
  identifier and its whole path, blanks and the word \<open>path\<close> inside it included.
\<close>

theorem parse_subvolumes_roundtrip:
  assumes "\<forall>(g, t, sv) \<in> set rows. sv_path sv \<noteq> [] \<and> hd (sv_path sv) \<noteq> SLASH \<and> NL \<notin> set (sv_path sv) \<and>
      last (sv_path sv) \<noteq> CR"
  shows "parse_subvolumes (as_text (map subvolume_text rows)) = map (snd \<circ> snd) rows"
  using assms by (rule parse_subvolumes_printed)

definition sample_rows :: "(nat \<times> nat \<times> btrfs_subvolume) list" where
  "sample_rows = [(900, 5, \<lparr>sv_id = 256, sv_path = ''@''\<rparr>), (7, 256, \<lparr>sv_id = 257, sv_path = ''a path b/7/snapshot''\<rparr>)]"

theorem parse_subvolumes_roundtrip_witness:
  "parse_subvolumes (as_text (map subvolume_text sample_rows)) = map (snd \<circ> snd) sample_rows"
  by (rule parse_subvolumes_roundtrip) (simp add: sample_rows_def)

end
