(* ===== verification/Rollback_Planner.thy ===== *)
theory Rollback_Planner
  imports Btrfs_Client System_Detector
begin

text \<open>
The rollback planner (src/application/rollback_planner.cpp).

  \<open>build_rollback_plan\<close> is \<open>RollbackPlanner::build\<close>, one definition for each group of checks; the
  listing of the subvolumes and the transaction id are its arguments. The last section states when a
  plan is eligible and what an eligible plan names.
\<close>

section \<open>The planner\<close>

definition add_diagnostic :: "rollback_severity \<Rightarrow> string \<Rightarrow> string \<Rightarrow> rollback_plan \<Rightarrow> rollback_plan" where
  "add_diagnostic sev c m plan =
     plan\<lparr>r_diagnostics := r_diagnostics plan @ [\<lparr>r_severity = sev, r_code = c, r_message = m\<rparr>]\<rparr>"

definition has_error :: "rollback_plan \<Rightarrow> bool" where
  "has_error plan \<longleftrightarrow> list_ex (\<lambda>d. r_severity d = R_error) (r_diagnostics plan)"

definition contains_subvolume :: "btrfs_subvolume list \<Rightarrow> string \<Rightarrow> bool" where
  "contains_subvolume subvolumes p \<longleftrightarrow> list_ex (\<lambda>s. sv_path s = p) subvolumes"

definition snapshot_prefix :: "string \<Rightarrow> string" where
  "snapshot_prefix value =
     rev (dropWhile (\<lambda>c. c = SLASH) (rev (dropWhile (\<lambda>c. c = SLASH) value)))"

text \<open>When prefix and suffix overlap the count of \<open>substr\<close> wraps around and the rest is taken.\<close>

definition parse_snapshot_number :: "string \<Rightarrow> string \<Rightarrow> ulong option result" where
  "parse_snapshot_number current subvolume =
     (let pre = snapshot_prefix subvolume @ ''/''; post = ''/snapshot'' in
      if \<not> starts_with current pre \<or> \<not> ends_with current post then Inr None
      else let value = (if length pre + length post \<le> length current
                        then substr current (length pre) (length current - length pre - length post)
                        else drop (length pre) current) in
        if value = [] \<or> \<not> list_all isdigit value then Inr None
        else bind_r (stoul_digits value) (\<lambda>n. Inr (Some n)))"

definition rootflags_subvolume :: "kernel_command_line \<Rightarrow> string" where
  "rootflags_subvolume cmdline =
     (case cmdline_value cmdline ''rootflags'' of
        None \<Rightarrow> []
      | Some flags \<Rightarrow> if starts_with flags ''subvol='' then dropWhile (\<lambda>c. c = SLASH) (drop 7 flags) else [])"

definition default_transaction_id :: "nat \<Rightarrow> nat \<Rightarrow> string" where
  "default_transaction_id seconds process = dec seconds @ ''.'' @ dec process"

definition show_number :: "ulong \<Rightarrow> string" where
  "show_number n = dec (unat n)"

text \<open>The checks of \<open>build\<close>, one definition for each of its steps.\<close>

definition check_filesystem :: "system_info \<Rightarrow> rollback_plan \<Rightarrow> rollback_plan" where
  "check_filesystem sys =
     (if root_fstype sys \<noteq> ''btrfs'' then
        add_diagnostic R_error ''root.filesystem'' (''Rollback requires Btrfs; detected '' @ root_fstype sys)
      else add_diagnostic R_info ''root.filesystem'' ''Root filesystem is Btrfs'')"

definition check_rootflags :: "rollback_plan \<Rightarrow> rollback_plan" where
  "check_rootflags plan =
     (if target_subvolume plan = [] then
        add_diagnostic R_error ''kernel.rootflags''
          ''Canonical kernel command line must define rootflags=subvol=<main-root>'' plan
      else plan)"

definition check_boot_mode :: "app_config \<Rightarrow> rollback_plan \<Rightarrow> rollback_plan result" where
  "check_boot_mode config plan =
     (if current_subvolume plan = [] then
        Inr (add_diagnostic R_error ''root.subvolume'' ''Unable to detect the currently booted Btrfs subvolume'' plan)
      else if target_subvolume plan \<noteq> [] \<and> current_subvolume plan = target_subvolume plan then
        Inr (add_diagnostic R_error ''rollback.boot_mode''
          (''Refusing rollback while booted from the normal root subvolume '' @ current_subvolume plan)
          (plan\<lparr>boot_mode := Normal_root\<rparr>))
      else bind_r (parse_snapshot_number (current_subvolume plan) (snapshots_subvolume config)) (\<lambda>n.
        case n of
          Some k \<Rightarrow> Inr (add_diagnostic R_info ''rollback.boot_mode''
              (''Booted from managed snapshot #'' @ show_number k)
              (plan\<lparr>snapshot_number := Some k, boot_mode := Managed_snapshot,
                    source_snapshot_subvolume := current_subvolume plan\<rparr>))
        | None \<Rightarrow> Inr (add_diagnostic R_error ''rollback.boot_mode''
              (''Current root subvolume is not a managed Snapper snapshot: '' @ current_subvolume plan)
              (plan\<lparr>snapshot_number := None, boot_mode := Unknown_mode\<rparr>))))"

definition check_snapper :: "snapper_config_info \<Rightarrow> app_config \<Rightarrow> rollback_plan \<Rightarrow> rollback_plan" where
  "check_snapper sc config plan =
     (if sc_subvolume sc \<noteq> ''/'' then
        add_diagnostic R_error ''snapper.subvolume''
          (''Snapper config '' @ [SQUOTE] @ snapper_config config @ [SQUOTE] @ '' manages '' @ [SQUOTE] @ sc_subvolume sc @
           [SQUOTE] @ '', expected '' @ [SQUOTE] @ ''/'' @ [SQUOTE]) plan
      else plan)"

definition check_snapshot :: "snapshot_info list \<Rightarrow> rollback_plan \<Rightarrow> rollback_plan" where
  "check_snapshot snapshots plan =
     (case snapshot_number plan of
        None \<Rightarrow> plan
      | Some n \<Rightarrow>
          (case find (\<lambda>s. number s = n) snapshots of
             None \<Rightarrow> add_diagnostic R_error ''snapshot.snapper''
                 (''Snapshot #'' @ show_number n @ '' is not reported by the configured Snapper root config'') plan
           | Some s \<Rightarrow>
               let plan = plan\<lparr>source_snapshot_read_only := read_only s\<rparr> in
               if read_only s then
                 add_diagnostic R_info ''snapshot.read_only'' ''Source snapshot is read-only and will not be modified'' plan
               else add_diagnostic R_warning ''snapshot.read_only''
                 ''Source snapshot is read-write; rollback will still create a separate writable @'' plan))"

definition check_subvolumes :: "btrfs_subvolume list \<Rightarrow> rollback_plan \<Rightarrow> rollback_plan" where
  "check_subvolumes subvolumes plan =
     (let plan = (if target_subvolume plan \<noteq> [] \<and> \<not> contains_subvolume subvolumes (target_subvolume plan) then
            add_diagnostic R_error ''target.exists'' (''Main root subvolume does not exist: '' @ target_subvolume plan) plan
          else plan) in
      if source_snapshot_subvolume plan \<noteq> [] \<and> \<not> contains_subvolume subvolumes (source_snapshot_subvolume plan) then
        add_diagnostic R_error ''snapshot.exists''
          (''Source snapshot subvolume does not exist: '' @ source_snapshot_subvolume plan) plan
      else plan)"

definition preserved_name :: "string \<Rightarrow> ulong \<Rightarrow> string \<Rightarrow> string" where
  "preserved_name target n transaction = target @ ''.limine-manager.rollback.'' @ show_number n @ ''.'' @ transaction"

definition replacement_name :: "string \<Rightarrow> ulong \<Rightarrow> string \<Rightarrow> string" where
  "replacement_name target n transaction = target @ ''.limine-manager.new.'' @ show_number n @ ''.'' @ transaction"

definition name_subvolumes :: "string \<Rightarrow> btrfs_subvolume list \<Rightarrow> rollback_plan \<Rightarrow> rollback_plan" where
  "name_subvolumes transaction subvolumes plan =
     (case snapshot_number plan of
        None \<Rightarrow> plan
      | Some n \<Rightarrow>
          if target_subvolume plan = [] then plan
          else
            let plan = plan\<lparr>preserved_subvolume := preserved_name (target_subvolume plan) n transaction,
                            replacement_subvolume := replacement_name (target_subvolume plan) n transaction\<rparr>;
                plan = (if contains_subvolume subvolumes (preserved_subvolume plan) then
                    add_diagnostic R_error ''preserve.conflict''
                      (''Recovery subvolume already exists: '' @ preserved_subvolume plan) plan else plan) in
            if contains_subvolume subvolumes (replacement_subvolume plan) then
              add_diagnostic R_error ''replacement.conflict''
                (''Temporary replacement subvolume already exists: '' @ replacement_subvolume plan) plan
            else plan)"

definition plan_operations :: "rollback_plan \<Rightarrow> string list" where
  "plan_operations plan =
     [''Validate rollback preconditions'', ''Acquire rollback lock'', ''Mount Btrfs top-level with subvolid=5'',
      ''Create writable replacement from snapshot '' @
        (case snapshot_number plan of Some n \<Rightarrow> show_number n | None \<Rightarrow> ''?''),
      ''Preserve current '' @ target_subvolume plan @ '' as '' @ preserved_subvolume plan,
      ''Move writable replacement into '' @ target_subvolume plan, ''Verify resulting Btrfs topology'',
      ''Regenerate limine.conf with the existing apply workflow'', ''Require reboot'']"

text \<open>\<open>listing\<close> is the outcome of \<open>list_subvolumes("/")\<close>, consulted only for a Btrfs root.\<close>

definition list_for_plan :: "system_info \<Rightarrow> btrfs_subvolume list result \<Rightarrow> rollback_plan \<Rightarrow> btrfs_subvolume list \<times> rollback_plan" where
  "list_for_plan sys listing plan =
     (if root_fstype sys = ''btrfs'' then
        (case listing of
           Inr subvolumes \<Rightarrow> (subvolumes, plan)
         | Inl e \<Rightarrow> ([], add_diagnostic R_error ''btrfs.subvolumes''
             (''Unable to inspect Btrfs subvolumes: '' @ what e) plan))
      else ([], plan))"

definition build_rollback_plan ::
  "btrfs_subvolume list result \<Rightarrow> string \<Rightarrow> system_info \<Rightarrow> snapper_config_info \<Rightarrow> snapshot_info list \<Rightarrow> app_config
     \<Rightarrow> rollback_plan result" where
  "build_rollback_plan listing transaction sys sc snapshots config =
     (let plan = empty_rollback_plan
            \<lparr>btrfs_source := normalize_btrfs_source (root_source sys), current_subvolume := root_subvolume sys,
             target_subvolume := rootflags_subvolume (kernel_cmdline sys)\<rparr>;
          plan = check_rootflags (check_filesystem sys plan) in
      bind_r (check_boot_mode config plan) (\<lambda>plan.
      let plan = check_snapshot snapshots (check_snapper sc config plan);
          (subvolumes, plan) = list_for_plan sys listing plan;
          plan = name_subvolumes transaction subvolumes (check_subvolumes subvolumes plan);
          plan = plan\<lparr>eligible := \<not> has_error plan\<rparr> in
      Inr (plan\<lparr>operations := plan_operations plan\<rparr>)))"


section \<open>What an eligible plan guarantees\<close>

lemma add_diagnostic_simps [simp]:
  "has_error (add_diagnostic sev c m p) \<longleftrightarrow> sev = R_error \<or> has_error p"
  "eligible (add_diagnostic sev c m p) = eligible p" "boot_mode (add_diagnostic sev c m p) = boot_mode p"
  "btrfs_source (add_diagnostic sev c m p) = btrfs_source p"
  "current_subvolume (add_diagnostic sev c m p) = current_subvolume p"
  "target_subvolume (add_diagnostic sev c m p) = target_subvolume p"
  "source_snapshot_subvolume (add_diagnostic sev c m p) = source_snapshot_subvolume p"
  "snapshot_number (add_diagnostic sev c m p) = snapshot_number p"
  "source_snapshot_read_only (add_diagnostic sev c m p) = source_snapshot_read_only p"
  "preserved_subvolume (add_diagnostic sev c m p) = preserved_subvolume p"
  "replacement_subvolume (add_diagnostic sev c m p) = replacement_subvolume p"
  by (auto simp: add_diagnostic_def has_error_def)

lemma has_error_updates [simp]:
  "has_error (p\<lparr>snapshot_number := a\<rparr>) = has_error p" "has_error (p\<lparr>boot_mode := b\<rparr>) = has_error p"
  "has_error (p\<lparr>source_snapshot_subvolume := c\<rparr>) = has_error p"
  "has_error (p\<lparr>source_snapshot_read_only := d\<rparr>) = has_error p"
  "has_error (p\<lparr>preserved_subvolume := e\<rparr>) = has_error p" "has_error (p\<lparr>replacement_subvolume := f\<rparr>) = has_error p"
  "has_error (p\<lparr>eligible := g\<rparr>) = has_error p" "has_error (p\<lparr>operations := h\<rparr>) = has_error p"
  by (simp_all add: has_error_def)

lemma empty_plan_no_error [simp]:
  "\<not> has_error (empty_rollback_plan\<lparr>btrfs_source := a, current_subvolume := b, target_subvolume := c\<rparr>)"
  by (simp add: has_error_def empty_rollback_plan_def)

text \<open>Each check adds an error exactly when its condition fails.\<close>

lemma check_filesystem_error: "has_error (check_filesystem sys p) \<longleftrightarrow> root_fstype sys \<noteq> ''btrfs'' \<or> has_error p"
  by (simp add: check_filesystem_def)

lemma check_rootflags_error: "has_error (check_rootflags p) \<longleftrightarrow> target_subvolume p = [] \<or> has_error p"
  by (auto simp: check_rootflags_def)

lemma check_snapper_error: "has_error (check_snapper sc config p) \<longleftrightarrow> sc_subvolume sc \<noteq> ''/'' \<or> has_error p"
  by (simp add: check_snapper_def)

lemma check_snapshot_error:
  "has_error (check_snapshot ss p) \<longleftrightarrow>
     (\<exists>n. snapshot_number p = Some n \<and> find (\<lambda>s. number s = n) ss = None) \<or> has_error p"
  by (auto simp: check_snapshot_def Let_def split: option.splits)

lemma check_subvolumes_error:
  "has_error (check_subvolumes svs p) \<longleftrightarrow>
     (target_subvolume p \<noteq> [] \<and> \<not> contains_subvolume svs (target_subvolume p)) \<or>
     (source_snapshot_subvolume p \<noteq> [] \<and> \<not> contains_subvolume svs (source_snapshot_subvolume p)) \<or> has_error p"
  by (auto simp: check_subvolumes_def Let_def)

lemma name_subvolumes_error:
  "has_error (name_subvolumes tx svs p) \<longleftrightarrow>
     (\<exists>n. snapshot_number p = Some n \<and> target_subvolume p \<noteq> [] \<and>
        (contains_subvolume svs (preserved_name (target_subvolume p) n tx) \<or>
         contains_subvolume svs (replacement_name (target_subvolume p) n tx))) \<or> has_error p"
  by (auto simp: name_subvolumes_def Let_def split: option.splits)

lemma check_fields [simp]:
  "target_subvolume (check_filesystem sys p) = target_subvolume p" "current_subvolume (check_filesystem sys p) = current_subvolume p"
  "target_subvolume (check_rootflags p) = target_subvolume p" "current_subvolume (check_rootflags p) = current_subvolume p"
  "snapshot_number (check_rootflags p) = snapshot_number p" "snapshot_number (check_filesystem sys p) = snapshot_number p"
  "target_subvolume (check_snapper sc cf p) = target_subvolume p" "snapshot_number (check_snapper sc cf p) = snapshot_number p"
  "source_snapshot_subvolume (check_snapper sc cf p) = source_snapshot_subvolume p"
  "target_subvolume (check_snapshot ss p) = target_subvolume p" "snapshot_number (check_snapshot ss p) = snapshot_number p"
  "source_snapshot_subvolume (check_snapshot ss p) = source_snapshot_subvolume p"
  "target_subvolume (check_subvolumes svs p) = target_subvolume p" "snapshot_number (check_subvolumes svs p) = snapshot_number p"
  "source_snapshot_subvolume (check_subvolumes svs p) = source_snapshot_subvolume p"
  by (simp_all add: check_filesystem_def check_rootflags_def check_snapper_def check_snapshot_def check_subvolumes_def Let_def
      split: option.split)

lemma source_fields [simp]:
  "btrfs_source (check_filesystem sys p) = btrfs_source p" "btrfs_source (check_rootflags p) = btrfs_source p"
  "btrfs_source (check_snapper sc cf p) = btrfs_source p" "btrfs_source (check_snapshot ss p) = btrfs_source p"
  "btrfs_source (check_subvolumes svs p) = btrfs_source p" "btrfs_source (name_subvolumes tx svs p) = btrfs_source p"
  "target_subvolume (name_subvolumes tx svs p) = target_subvolume p"
  "snapshot_number (name_subvolumes tx svs p) = snapshot_number p"
  "source_snapshot_subvolume (name_subvolumes tx svs p) = source_snapshot_subvolume p"
  "source_snapshot_subvolume (check_rootflags p) = source_snapshot_subvolume p"
  "source_snapshot_subvolume (check_filesystem sys p) = source_snapshot_subvolume p"
  by (simp_all add: check_filesystem_def check_rootflags_def check_snapper_def check_snapshot_def check_subvolumes_def
      name_subvolumes_def Let_def split: option.split)

lemma check_boot_mode_spec:
  assumes "check_boot_mode config p = Inr q" "snapshot_number p = None" "source_snapshot_subvolume p = []"
  shows "target_subvolume q = target_subvolume p \<and> btrfs_source q = btrfs_source p \<and> current_subvolume q = current_subvolume p \<and>
    (case snapshot_number q of
       None \<Rightarrow> has_error q \<and> source_snapshot_subvolume q = []
     | Some n \<Rightarrow> has_error q = has_error p \<and> source_snapshot_subvolume q = current_subvolume p \<and>
         current_subvolume p \<noteq> [] \<and> current_subvolume p \<noteq> target_subvolume p \<and>
         parse_snapshot_number (current_subvolume p) (snapshots_subvolume config) = Inr (Some n))"
  using assms
  by (auto simp: check_boot_mode_def result_simps split: if_splits option.splits)

lemma check_boot_mode_None:
  assumes "check_boot_mode config p = Inr q" "snapshot_number p = None" "snapshot_number q = None"
  shows "current_subvolume p = [] \<or> current_subvolume p = target_subvolume p \<or>
    parse_snapshot_number (current_subvolume p) (snapshots_subvolume config) = Inr None"
proof (rule ccontr)
  assume n: "\<not> ?thesis"
  show False
  proof (cases "parse_snapshot_number (current_subvolume p) (snapshots_subvolume config)")
    case (Inl e)
    then show False using assms(1) n by (simp add: check_boot_mode_def)
  next
    case (Inr r)
    then obtain k where "r = Some k" using n by (cases r) auto
    with Inr n assms(1) have "snapshot_number q = Some k" by (auto simp: check_boot_mode_def)
    then show False using assms(3) by simp
  qed
qed

lemma parse_snapshot_number_empty: "parse_snapshot_number [] subvolume = Inr None"
  by (simp add: parse_snapshot_number_def Let_def starts_with_def)

text \<open>The conditions under which a rollback may start, over the facts it depends on.\<close>

definition may_roll_back ::
  "btrfs_subvolume list \<Rightarrow> string \<Rightarrow> system_info \<Rightarrow> snapper_config_info \<Rightarrow> snapshot_info list \<Rightarrow> app_config \<Rightarrow> ulong \<Rightarrow> bool" where
  "may_roll_back svs tx sys sc snapshots config n \<longleftrightarrow>
     (let target = rootflags_subvolume (kernel_cmdline sys) in
      root_fstype sys = ''btrfs'' \<and> sc_subvolume sc = ''/'' \<and> target \<noteq> [] \<and> root_subvolume sys \<noteq> target \<and>
      parse_snapshot_number (root_subvolume sys) (snapshots_subvolume config) = Inr (Some n) \<and>
      n \<in> number ` set snapshots \<and>
      contains_subvolume svs target \<and> contains_subvolume svs (root_subvolume sys) \<and>
      \<not> contains_subvolume svs (preserved_name target n tx) \<and> \<not> contains_subvolume svs (replacement_name target n tx))"

lemma rollback_plan_eligible:
  assumes "build_rollback_plan (Inr svs) tx sys sc snapshots config = Inr plan"
  shows "(eligible plan \<longleftrightarrow> (\<exists>n. may_roll_back svs tx sys sc snapshots config n)) \<and>
    (eligible plan \<longrightarrow>
      target_subvolume plan = rootflags_subvolume (kernel_cmdline sys) \<and> source_snapshot_subvolume plan = root_subvolume sys \<and>
      (\<exists>n. snapshot_number plan = Some n \<and> preserved_subvolume plan = preserved_name (target_subvolume plan) n tx \<and>
         replacement_subvolume plan = replacement_name (target_subvolume plan) n tx))"
proof -
  let ?target = "rootflags_subvolume (kernel_cmdline sys)"
  define p0 where "p0 = empty_rollback_plan\<lparr>btrfs_source := normalize_btrfs_source (root_source sys),
    current_subvolume := root_subvolume sys, target_subvolume := ?target\<rparr>"
  define p1 where "p1 = check_rootflags (check_filesystem sys p0)"
  from assms obtain q where q: "check_boot_mode config p1 = Inr q"
    by (auto simp: build_rollback_plan_def Let_def p1_def p0_def result_simps)
  define p3 where "p3 = check_snapshot snapshots (check_snapper sc config q)"
  define svs' where "svs' = (if root_fstype sys = ''btrfs'' then svs else [])"
  define p5 where "p5 = name_subvolumes tx svs' (check_subvolumes svs' p3)"
  have lp: "list_for_plan sys (Inr svs) p3 = (svs', p3)" by (simp add: list_for_plan_def svs'_def)
  have plan: "plan = p5\<lparr>eligible := \<not> has_error p5, operations := plan_operations (p5\<lparr>eligible := \<not> has_error p5\<rparr>)\<rparr>"
    using assms q lp by (simp add: build_rollback_plan_def Let_def p5_def p3_def p1_def p0_def)
  have p1: "target_subvolume p1 = ?target" "current_subvolume p1 = root_subvolume sys" "snapshot_number p1 = None"
      "source_snapshot_subvolume p1 = []" "has_error p1 \<longleftrightarrow> root_fstype sys \<noteq> ''btrfs'' \<or> ?target = []"
  proof -
    have "\<not> has_error p0" unfolding p0_def by (simp add: empty_rollback_plan_def has_error_def)
    then show "has_error p1 \<longleftrightarrow> root_fstype sys \<noteq> ''btrfs'' \<or> ?target = []"
      unfolding p1_def by (auto simp: check_rootflags_error check_filesystem_error p0_def)
  qed (simp_all add: p1_def p0_def empty_rollback_plan_def)
  note bm = check_boot_mode_spec [OF q p1(3,4)]
  have p5: "target_subvolume p5 = ?target" "snapshot_number p5 = snapshot_number q"
      "source_snapshot_subvolume p5 = source_snapshot_subvolume q"
    using bm by (simp_all add: p5_def p3_def p1)
  show ?thesis
  proof (cases "snapshot_number q")
    case None
    then have "has_error p5" using bm
      by (simp add: p5_def p3_def name_subvolumes_error check_subvolumes_error check_snapshot_error check_snapper_error)
    moreover have "\<not> may_roll_back svs tx sys sc snapshots config n" for n
    proof
      assume m: "may_roll_back svs tx sys sc snapshots config n"
      have c: "parse_snapshot_number (current_subvolume p1) (snapshots_subvolume config) = Inr (Some n)"
        "current_subvolume p1 \<noteq> target_subvolume p1"
        using m unfolding p1(1,2) may_roll_back_def Let_def by simp_all
      then have "current_subvolume p1 \<noteq> []" using parse_snapshot_number_empty by (metis Inr_inject option.distinct(1))
      with c check_boot_mode_None [OF q p1(3) None] show False by simp
    qed
    ultimately show ?thesis by (simp add: plan)
  next
    case (Some n)
    with bm p1 have b: "has_error q = has_error p1" "source_snapshot_subvolume q = root_subvolume sys" "target_subvolume q = ?target"
      "root_subvolume sys \<noteq> []" "root_subvolume sys \<noteq> ?target"
      "parse_snapshot_number (root_subvolume sys) (snapshots_subvolume config) = Inr (Some n)" by simp_all
    have f: "find (\<lambda>s. number s = n) snapshots = None \<longleftrightarrow> n \<notin> number ` set snapshots" by (auto simp: find_None_iff)
    have names: "?target \<noteq> [] \<Longrightarrow> preserved_subvolume p5 = preserved_name ?target n tx \<and>
        replacement_subvolume p5 = replacement_name ?target n tx"
      using Some b(3) by (simp add: p5_def p3_def name_subvolumes_def Let_def)
    have "\<not> has_error p5 \<longleftrightarrow> may_roll_back svs tx sys sc snapshots config n"
      using Some b(2-6)
      unfolding p5_def p3_def name_subvolumes_error check_subvolumes_error check_snapshot_error check_snapper_error
        b(1) p1(5) may_roll_back_def Let_def
      by (auto simp: f svs'_def)
    moreover have "may_roll_back svs tx sys sc snapshots config m \<Longrightarrow> ?target \<noteq> [] \<and> m = n" for m
      using b(6) by (simp add: may_roll_back_def Let_def)
    moreover have "eligible plan \<longleftrightarrow> \<not> has_error p5" "target_subvolume plan = ?target" "snapshot_number plan = Some n"
      "source_snapshot_subvolume plan = root_subvolume sys" "preserved_subvolume plan = preserved_subvolume p5"
      "replacement_subvolume plan = replacement_subvolume p5"
      using p5 Some b(2) by (simp_all add: plan)
    ultimately show ?thesis using names by metis
  qed
qed

text \<open>
  C10: a rollback plan is eligible exactly when the host runs from a managed snapshot that Snapper
  knows, the main root named on the kernel command line and the snapshot both exist, and neither of
  the names the rollback is going to create is taken; an eligible plan carries those names.
\<close>

theorem rollback_eligible_iff:
  assumes "build_rollback_plan (Inr svs) tx sys sc snapshots config = Inr plan"
  shows "(eligible plan \<longleftrightarrow> (\<exists>n. may_roll_back svs tx sys sc snapshots config n)) \<and>
    (eligible plan \<longrightarrow>
      target_subvolume plan = rootflags_subvolume (kernel_cmdline sys) \<and> source_snapshot_subvolume plan = root_subvolume sys \<and>
      (\<exists>n. snapshot_number plan = Some n \<and> preserved_subvolume plan = preserved_name (target_subvolume plan) n tx \<and>
         replacement_subvolume plan = replacement_name (target_subvolume plan) n tx))"
  by (rule rollback_plan_eligible [OF assms])

text \<open>The number of a managed snapshot is read back from its subvolume.\<close>

lemma parse_snapshot_number_managed:
  assumes "snapshot_prefix p = p"
  shows "parse_snapshot_number (p @ ''/'' @ show_number n @ ''/snapshot'') p = Inr (Some n)"
proof -
  have "starts_with (p @ ''/'' @ show_number n @ ''/snapshot'') (p @ ''/'')"
    using starts_with_append [of "p @ ''/''" "show_number n @ ''/snapshot''"] by simp
  moreover have "ends_with (p @ ''/'' @ show_number n @ ''/snapshot'') ''/snapshot''"
    using ends_with_append [of "p @ ''/'' @ show_number n" "''/snapshot''"] by simp
  moreover have "unat n < 2 ^ 64" using unsigned_less [of n] by simp
  then have "stoul_digits (show_number n) = Inr n"
    by (simp add: stoul_digits_def show_number_def)
  ultimately show ?thesis
    using isdigit_dec [of _ "unat n"] assms
    by (simp add: parse_snapshot_number_def substr_def Let_def show_number_def list_all_iff)
qed

definition snapshot_host :: system_info where
  "snapshot_host = empty_system_info\<lparr>root_fstype := ''btrfs'', root_source := ''/dev/sda2'',
     root_subvolume := ''@snapshots/7/snapshot'', kernel_cmdline := \<lparr>arguments = [''rw'', ''rootflags=subvol=/@'']\<rparr>\<rparr>"

definition sample_subvolumes :: "btrfs_subvolume list" where
  "sample_subvolumes = [\<lparr>sv_id = 256, sv_path = ''@''\<rparr>, \<lparr>sv_id = 257, sv_path = ''@snapshots/7/snapshot''\<rparr>]"

definition sample_rollback_plan :: "rollback_plan result" where
  "sample_rollback_plan =
     build_rollback_plan (Inr sample_subvolumes) ''1.2'' snapshot_host
       \<lparr>sc_name = ''root'', sc_subvolume = ''/'', sc_filesystem_type = ''btrfs''\<rparr>
       [\<lparr>number = 7, date = [], description = [], read_only = True\<rparr>] default_config"

lemma snapshot_host_facts:
  "rootflags_subvolume (kernel_cmdline snapshot_host) = ''@''"
  "parse_snapshot_number ''@snapshots/7/snapshot'' ''@snapshots'' = Inr (Some 7)"
  "contains_subvolume sample_subvolumes ''@''" "contains_subvolume sample_subvolumes ''@snapshots/7/snapshot''"
  "\<not> contains_subvolume sample_subvolumes (preserved_name ''@'' 7 ''1.2'')"
  "\<not> contains_subvolume sample_subvolumes (replacement_name ''@'' 7 ''1.2'')"
proof -
  show "rootflags_subvolume (kernel_cmdline snapshot_host) = ''@''" by code_simp
  have "show_number 7 = ''7''" "snapshot_prefix ''@snapshots'' = ''@snapshots''" by code_simp+
  then show "parse_snapshot_number ''@snapshots/7/snapshot'' ''@snapshots'' = Inr (Some 7)"
    using parse_snapshot_number_managed [of "''@snapshots''" 7] by simp
qed code_simp+

lemma sample_rollback_planned:
  "\<exists>plan. sample_rollback_plan = Inr plan \<and> eligible plan \<and> target_subvolume plan = ''@''"
proof -
  have "\<exists>q. check_boot_mode default_config (check_rootflags (check_filesystem snapshot_host
      (empty_rollback_plan\<lparr>btrfs_source := normalize_btrfs_source (root_source snapshot_host),
        current_subvolume := root_subvolume snapshot_host, target_subvolume := ''@''\<rparr>))) = Inr q"
    using snapshot_host_facts(2) by (simp add: check_boot_mode_def snapshot_host_def default_config_def)
  then obtain plan where p: "sample_rollback_plan = Inr plan"
    by (auto simp: sample_rollback_plan_def build_rollback_plan_def Let_def snapshot_host_facts(1) split_beta)
  have m: "may_roll_back sample_subvolumes ''1.2'' snapshot_host \<lparr>sc_name = ''root'', sc_subvolume = ''/'', sc_filesystem_type = ''btrfs''\<rparr>
       [\<lparr>number = 7, date = [], description = [], read_only = True\<rparr>] default_config 7"
    using snapshot_host_facts by (simp add: may_roll_back_def Let_def, simp add: snapshot_host_def default_config_def)
  show ?thesis
    using rollback_plan_eligible [OF p [unfolded sample_rollback_plan_def]] m snapshot_host_facts(1) p by auto
qed

theorem rollback_eligible_iff_witness:
  "\<exists>plan. sample_rollback_plan = Inr plan \<and> eligible plan \<and> target_subvolume plan = ''@''"
proof -
  have "\<exists>q. check_boot_mode default_config (check_rootflags (check_filesystem snapshot_host
      (empty_rollback_plan\<lparr>btrfs_source := normalize_btrfs_source (root_source snapshot_host),
        current_subvolume := root_subvolume snapshot_host, target_subvolume := ''@''\<rparr>))) = Inr q"
    using snapshot_host_facts(2) by (simp add: check_boot_mode_def snapshot_host_def default_config_def)
  then obtain plan where p: "sample_rollback_plan = Inr plan"
    by (auto simp: sample_rollback_plan_def build_rollback_plan_def Let_def snapshot_host_facts(1) split_beta)
  have m: "may_roll_back sample_subvolumes ''1.2'' snapshot_host \<lparr>sc_name = ''root'', sc_subvolume = ''/'', sc_filesystem_type = ''btrfs''\<rparr>
       [\<lparr>number = 7, date = [], description = [], read_only = True\<rparr>] default_config 7"
    using snapshot_host_facts by (simp add: may_roll_back_def Let_def, simp add: snapshot_host_def default_config_def)
  show ?thesis
    using rollback_eligible_iff [OF p [unfolded sample_rollback_plan_def]] m snapshot_host_facts(1) p by auto
qed

end
