(* ===== verification/Rollback_Service.thy ===== *)
theory Rollback_Service
  imports Rollback_Planner Apply_Liveness
begin

text \<open>
Executing a rollback (src/application/rollback_service.cpp,
  include/limine_manager/application/rollback_service.hpp).

  \<open>rollback_execute\<close> is \<open>RollbackService::execute\<close>: \<open>switch_root\<close> is the body of its \<open>try\<close> block and
  \<open>switch_back\<close> the handler, which reads the flags the body keeps. The state pairs the file system that
  holds the lock with the state of a Btrfs host. The locale \<open>btrfs_contract\<close> states what the service
  relies on from its client; \<open>btrfs_tools\<close> states it of the programs behind \<open>posix_btrfs_client\<close>, and is
  interpreted on a simulated host whose programs fail by a script. Every lemma holds whatever step fails,
  so it also covers a machine that stops: the remaining steps then have no effect.
\<close>

section \<open>The service\<close>

record rollback_result =
  mounted_top_level :: path
  rr_preserved_subvolume :: string
  rr_active_subvolume :: string

definition under :: "path \<Rightarrow> string \<Rightarrow> path" where
  "under root relative = path_append root (relative_path relative)"

definition try_move :: "'b btrfs_client \<Rightarrow> path \<Rightarrow> path \<Rightarrow> ('b, unit) io" where
  "try_move c src destination = catch_io (bc_move c src destination) (\<lambda>_. ret ())"

text \<open>The four flags \<open>execute\<close> keeps for its handler, threaded beside the state of the Btrfs host.\<close>

record rollback_progress =
  rp_mounted :: bool
  rp_created :: bool
  rp_preserved :: bool
  rp_switched :: bool

definition no_progress :: rollback_progress where
  "no_progress = \<lparr>rp_mounted = False, rp_created = False, rp_preserved = False, rp_switched = False\<rparr>"

definition on_host :: "('b, 'a) io \<Rightarrow> ('b \<times> rollback_progress, 'a) io" where
  "on_host m = (\<lambda>(b, f). case m b of (r, b') \<Rightarrow> (r, (b', f)))"

definition record_progress :: "(rollback_progress \<Rightarrow> rollback_progress) \<Rightarrow> ('b \<times> rollback_progress, unit) io" where
  "record_progress g = (\<lambda>(b, f). (Inr (), (b, g f)))"

definition verify_topology :: "rollback_plan \<Rightarrow> btrfs_subvolume list \<Rightarrow> ('s, unit) io" where
  "verify_topology plan subvolumes =
     (if \<not> contains_subvolume subvolumes (target_subvolume plan) \<or> \<not> contains_subvolume subvolumes (preserved_subvolume plan)
      then throw (Runtime_error ''post-rollback Btrfs topology verification failed'') else ret ())"

definition failed_name :: "rollback_plan \<Rightarrow> string" where
  "failed_name plan = target_subvolume plan @ ''.limine-manager.failed-replacement''"

text \<open>The body of the \<open>try\<close> block and its handler.\<close>

definition switch_root :: "'b btrfs_client \<Rightarrow> path \<Rightarrow> rollback_plan \<Rightarrow> ('b \<times> rollback_progress, rollback_result) io" where
  "switch_root c mount_point plan =
     (let source_path = under mount_point (source_snapshot_subvolume plan);
          target_path = under mount_point (target_subvolume plan);
          preserved_path = under mount_point (preserved_subvolume plan);
          replacement_path = under mount_point (replacement_subvolume plan) in
      bind_io (on_host (bc_mount c (btrfs_source plan) mount_point)) (\<lambda>_.
      bind_io (record_progress (\<lambda>f. f\<lparr>rp_mounted := True\<rparr>)) (\<lambda>_.
      bind_io (on_host (bc_snapshot c source_path replacement_path)) (\<lambda>_.
      bind_io (record_progress (\<lambda>f. f\<lparr>rp_created := True\<rparr>)) (\<lambda>_.
      bind_io (on_host (bc_move c target_path preserved_path)) (\<lambda>_.
      bind_io (record_progress (\<lambda>f. f\<lparr>rp_preserved := True\<rparr>)) (\<lambda>_.
      bind_io (on_host (bc_move c replacement_path target_path)) (\<lambda>_.
      bind_io (record_progress (\<lambda>f. f\<lparr>rp_switched := True\<rparr>)) (\<lambda>_.
      bind_io (on_host (bc_list c mount_point)) (\<lambda>subvolumes.
      bind_io (verify_topology plan subvolumes) (\<lambda>_.
      bind_io (on_host (bc_sync c mount_point)) (\<lambda>_.
      bind_io (on_host (bc_unmount c mount_point)) (\<lambda>_.
      bind_io (record_progress (\<lambda>f. f\<lparr>rp_mounted := False\<rparr>)) (\<lambda>_.
      ret \<lparr>mounted_top_level = mount_point, rr_preserved_subvolume = preserved_subvolume plan,
           rr_active_subvolume = target_subvolume plan\<rparr>))))))))))))))"

definition restore_moves :: "'b btrfs_client \<Rightarrow> path \<Rightarrow> rollback_plan \<Rightarrow> rollback_progress \<Rightarrow> ('b, unit) io" where
  "restore_moves c mount_point plan f =
     (let target_path = under mount_point (target_subvolume plan);
          preserved_path = under mount_point (preserved_subvolume plan);
          replacement_path = under mount_point (replacement_subvolume plan);
          failed_path = under mount_point (failed_name plan) in
      if rp_switched f then
        bind_io (try_move c target_path failed_path) (\<lambda>_. try_move c preserved_path target_path)
      else if rp_preserved f then
        bind_io (if rp_created f then try_move c replacement_path failed_path else ret ()) (\<lambda>_.
        try_move c preserved_path target_path)
      else if rp_created f then try_move c replacement_path failed_path
      else ret ())"

definition switch_back :: "'b btrfs_client \<Rightarrow> path \<Rightarrow> rollback_plan \<Rightarrow> exn \<Rightarrow> ('b \<times> rollback_progress, 'a) io" where
  "switch_back c mount_point plan e =
     bind_io (gets snd) (\<lambda>f.
     bind_io
       (if rp_mounted f then
          bind_io (on_host (restore_moves c mount_point plan f)) (\<lambda>_.
          bind_io (catch_io (on_host (bc_sync c mount_point)) (\<lambda>_. ret ())) (\<lambda>_.
          catch_io (on_host (bc_unmount c mount_point)) (\<lambda>_. ret ())))
        else ret ()) (\<lambda>_.
     throw e))"

definition switch_or_restore :: "'b btrfs_client \<Rightarrow> path \<Rightarrow> rollback_plan \<Rightarrow> ('b, rollback_result) io" where
  "switch_or_restore c mount_point plan = (\<lambda>b.
     case catch_io (switch_root c mount_point plan) (switch_back c mount_point plan) (b, no_progress) of
       (r, (b', _)) \<Rightarrow> (r, b'))"

text \<open>The lock is taken on the file system of the host, the rest happens on the Btrfs file system.\<close>

definition on_files :: "(world, 'a) io \<Rightarrow> (world \<times> 'b, 'a) io" where
  "on_files m = (\<lambda>(w, b). case m w of (r, w') \<Rightarrow> (r, (w', b)))"

definition on_btrfs :: "('b, 'a) io \<Rightarrow> (world \<times> 'b, 'a) io" where
  "on_btrfs m = (\<lambda>(w, b). case m b of (r, b') \<Rightarrow> (r, (w, b')))"

definition open_rollback_lock :: "path \<Rightarrow> (world, nat) io" where
  "open_rollback_lock runtime_directory =
     bind_io (or_throw (create_directories runtime_directory) (\<lambda>e. Filesystem_error
        (''filesystem error: cannot create directories: '' @ strerror e @ '' ['' @ runtime_directory @ '']''))) (\<lambda>_.
     or_throw (sys_open_create (path_append runtime_directory ''rollback.lock'') 0x180)
       (errno_error ''cannot open rollback lock'' (path_append runtime_directory ''rollback.lock'')))"

definition take_rollback_lock :: "path \<Rightarrow> nat \<Rightarrow> (world, unit) io" where
  "take_rollback_lock lock_path fd =
     or_throw (sys_flock fd) (\<lambda>e.
       if e = EWOULDBLOCK then Runtime_error ''another limine-manager rollback operation is active''
       else errno_error ''cannot lock rollback'' lock_path e)"

definition incomplete :: "rollback_plan \<Rightarrow> bool" where
  "incomplete plan \<longleftrightarrow>
     btrfs_source plan = [] \<or> source_snapshot_subvolume plan = [] \<or> target_subvolume plan = [] \<or>
     preserved_subvolume plan = [] \<or> replacement_subvolume plan = []"

definition rollback_execute :: "'b btrfs_client \<Rightarrow> path \<Rightarrow> rollback_plan \<Rightarrow> (world \<times> 'b, rollback_result) io" where
  "rollback_execute c runtime_directory plan =
     (if \<not> eligible plan then throw (Runtime_error ''rollback plan is not eligible'')
      else if incomplete plan then throw (Runtime_error ''rollback plan is incomplete'')
      else bind_io (on_files (open_rollback_lock runtime_directory)) (\<lambda>fd.
        finally_io
          (bind_io (on_files (take_rollback_lock (path_append runtime_directory ''rollback.lock'') fd)) (\<lambda>_.
           on_btrfs (switch_or_restore c (path_append runtime_directory ''btrfs-top'') plan)))
          (\<lambda>(w, b). (release_lock fd w, b))))"


section \<open>The contract of a Btrfs client\<close>

definition below :: "path \<Rightarrow> path \<Rightarrow> bool" where
  "below p r \<longleftrightarrow> r = p \<or> starts_with r (if p \<noteq> [] \<and> last p = SLASH then p else p @ ''/'')"

text \<open>A subvolume moved from \<open>p\<close> to \<open>q\<close>; what is not at or below one of them stays.\<close>

definition moved :: "path \<Rightarrow> path \<Rightarrow> (path \<Rightarrow> nat option) \<Rightarrow> (path \<Rightarrow> nat option) \<Rightarrow> bool" where
  "moved p q t t' \<longleftrightarrow> t q = None \<and> t p \<noteq> None \<and> t' q = t p \<and> t' p = None \<and>
     (\<forall>r. \<not> below p r \<and> \<not> below q r \<longrightarrow> t' r = t r)"

text \<open>
  \<open>tree s\<close> gives the identifier of the subvolume at a path below the mount point. Only \<open>snapshot\<close>
  and \<open>move\<close> change it, and only when they report success; a snapshot gets an identifier of its own.
\<close>

locale btrfs_contract =
  fixes c :: "'s btrfs_client" and tree :: "'s \<Rightarrow> path \<Rightarrow> nat option"
  assumes mount_keeps: "tree (snd (bc_mount c source p s)) = tree s"
    and unmount_keeps: "tree (snd (bc_unmount c p s)) = tree s"
    and list_keeps: "tree (snd (bc_list c p s)) = tree s"
    and sync_keeps: "tree (snd (bc_sync c p s)) = tree s"
    and snapshot_ok: "bc_snapshot c p q s = (Inr (), s') \<Longrightarrow> tree s q = None \<Longrightarrow>
      \<exists>i. i \<notin> ran (tree s) \<and> tree s' = (tree s)(q \<mapsto> i)"
    and snapshot_failed: "bc_snapshot c p q s = (Inl e, s') \<Longrightarrow> tree s' = tree s"
    and move_ok: "bc_move c p q s = (Inr (), s') \<Longrightarrow> moved p q (tree s) (tree s')"
    and move_failed: "bc_move c p q s = (Inl e, s') \<Longrightarrow> tree s' = tree s"

text \<open>The four paths of a rollback do not contain each other.\<close>

definition apart :: "path list \<Rightarrow> bool" where
  "apart ps \<longleftrightarrow> distinct ps \<and> (\<forall>p\<in>set ps. \<forall>q\<in>set ps. p \<noteq> q \<longrightarrow> \<not> below p q)"

definition rollback_paths :: "path \<Rightarrow> rollback_plan \<Rightarrow> path list" where
  "rollback_paths mount_point plan =
     map (under mount_point) [target_subvolume plan, preserved_subvolume plan, replacement_subvolume plan, failed_name plan]"

text \<open>Moves of an existing subvolume to a free name succeed, unless one of the paths contains the other.\<close>

definition reliable_moves :: "'s btrfs_client \<Rightarrow> ('s \<Rightarrow> path \<Rightarrow> nat option) \<Rightarrow> bool" where
  "reliable_moves c tree \<longleftrightarrow>
     (\<forall>p q s. tree s p \<noteq> None \<and> tree s q = None \<and> \<not> below p q \<and> \<not> below q p \<longrightarrow> (\<exists>s'. bc_move c p q s = (Inr (), s')))"

lemma hoare_unchanged:
  "(\<And>s. g (snd (m s)) = g s) \<Longrightarrow> hoare (\<lambda>s. g s = t) m (\<lambda>_ s. g s = t) (\<lambda>_ s. g s = t)"
  by (rule hoareI) (metis snd_conv)+

lemma hoare_on_host:
  "hoare P m Q E \<Longrightarrow> hoare (\<lambda>(b, f). f = f0 \<and> P b) (on_host m) (\<lambda>x (b, f). f = f0 \<and> Q x b) (\<lambda>e (b, f). f = f0 \<and> E e b)"
  by (fastforce simp: hoare_def on_host_def split: prod.splits sum.splits)

text \<open>How far the switch has come, read off its flags: \<open>r\<close> is the original root, \<open>k\<close> its clone.\<close>

definition stage :: "path \<Rightarrow> path \<Rightarrow> path \<Rightarrow> path \<Rightarrow> nat \<Rightarrow> (path \<Rightarrow> nat option) \<Rightarrow> bool \<Rightarrow> (path \<Rightarrow> nat option) \<Rightarrow> rollback_progress \<Rightarrow> bool" where
  "stage T P N F r t0 free t f \<longleftrightarrow>
     (if rp_switched f then t P = Some r \<and> (\<exists>k. k \<notin> ran t0 \<and> t T = Some k)
      else if rp_preserved f then t P = Some r \<and> t T = None \<and> rp_created f \<and> (\<exists>k. k \<notin> ran t0 \<and> t N = Some k)
      else t T = Some r \<and> (if rp_created f then \<exists>k. k \<notin> ran t0 \<and> t N = Some k else t = t0)) \<and>
     (free \<longrightarrow> t F = None) \<and> (\<not> rp_mounted f \<longrightarrow> t T = Some r)"

definition recovered :: "path \<Rightarrow> path \<Rightarrow> nat \<Rightarrow> bool \<Rightarrow> (path \<Rightarrow> nat option) \<Rightarrow> bool" where
  "recovered T P r surely t \<longleftrightarrow> (t T = Some r \<or> t P = Some r) \<and> (surely \<longrightarrow> t T = Some r)"

lemma hoare_step:
  assumes "hoare P m (\<lambda>_. Q) E'" and "\<And>e b. E' e b \<Longrightarrow> E e (b, f0)"
    and "hoare (\<lambda>(b, f). f = g f0 \<and> Q b) K R E"
  shows "hoare (\<lambda>(b, f). f = f0 \<and> P b) (bind_io (on_host m) (\<lambda>_. bind_io (record_progress g) (\<lambda>_. K))) R E"
proof -
  have "hoare (\<lambda>(b, f). f = f0 \<and> P b) (on_host m) (\<lambda>_ (b, f). f = f0 \<and> Q b) E"
    by (rule hoare_weaken [OF hoare_on_host [OF assms(1)]]) (use assms(2) in auto)
  moreover have "hoare (\<lambda>(b, f). f = f0 \<and> Q b) (record_progress g) (\<lambda>_ (b, f). f = g f0 \<and> Q b) E"
    by (simp add: hoare_def record_progress_def)
  ultimately show ?thesis using assms(3) by (intro hoare_bind)
qed

lemma hoare_host_bind:
  assumes "hoare P m Q E'" and "\<And>e b. E' e b \<Longrightarrow> E e (b, f0)"
    and "\<And>x. hoare (\<lambda>(b, f). f = f0 \<and> Q x b) (K x) R E"
  shows "hoare (\<lambda>(b, f). f = f0 \<and> P b) (bind_io (on_host m) K) R E"
  by (rule hoare_bind [OF _ assms(3)]) (rule hoare_weaken [OF hoare_on_host [OF assms(1)]], use assms(2) in auto)

context btrfs_contract begin

lemma keeps_tree:
  "hoare (\<lambda>s. tree s = t) (bc_mount c a p) (\<lambda>_ s. tree s = t) (\<lambda>_ s. tree s = t)"
  "hoare (\<lambda>s. tree s = t) (bc_unmount c p) (\<lambda>_ s. tree s = t) (\<lambda>_ s. tree s = t)"
  "hoare (\<lambda>s. tree s = t) (bc_list c p) (\<lambda>_ s. tree s = t) (\<lambda>_ s. tree s = t)"
  "hoare (\<lambda>s. tree s = t) (bc_sync c p) (\<lambda>_ s. tree s = t) (\<lambda>_ s. tree s = t)"
  using mount_keeps unmount_keeps list_keeps sync_keeps by (simp_all only: hoare_unchanged)

lemma snapshot_spec:
  assumes "t q = None"
  shows "hoare (\<lambda>s. tree s = t) (bc_snapshot c p q) (\<lambda>_ s. \<exists>i. i \<notin> ran t \<and> tree s = t(q \<mapsto> i)) (\<lambda>_ s. tree s = t)"
  by (rule hoareI) (use assms snapshot_ok [of p q] snapshot_failed [of p q] in auto)

lemma move_spec: "hoare (\<lambda>s. tree s = t) (bc_move c p q) (\<lambda>_ s. moved p q t (tree s)) (\<lambda>_ s. tree s = t)"
  by (rule hoareI) (use move_ok [of p q] move_failed [of p q] in auto)

lemma try_move_spec:
  "hoare (\<lambda>s. tree s = t) (try_move c p q)
     (\<lambda>_ s. moved p q t (tree s) \<or> tree s = t \<and> \<not> (reliable_moves c tree \<and> t p \<noteq> None \<and> t q = None \<and> \<not> below p q \<and> \<not> below q p)) E"
proof (rule hoareI)
  fix w x v assume w: "tree w = t" and run: "try_move c p q w = (Inr x, v)"
  show "moved p q t (tree v) \<or> tree v = t \<and> \<not> (reliable_moves c tree \<and> t p \<noteq> None \<and> t q = None \<and> \<not> below p q \<and> \<not> below q p)"
  proof (cases "bc_move c p q w")
    case (Pair r u)
    show ?thesis
    proof (cases r)
      case (Inl e)
      then have "tree v = t" using Pair run w move_failed by (auto simp: try_move_def catch_io_def ret_def)
      moreover have "\<not> (reliable_moves c tree \<and> t p \<noteq> None \<and> t q = None \<and> \<not> below p q \<and> \<not> below q p)"
      proof
        assume a: "reliable_moves c tree \<and> t p \<noteq> None \<and> t q = None \<and> \<not> below p q \<and> \<not> below q p"
        then obtain s' where "bc_move c p q w = (Inr (), s')"
          unfolding reliable_moves_def w [symmetric] by blast
        with Pair Inl show False by simp
      qed
      ultimately show ?thesis by blast
    next
      case (Inr y)
      then have "bc_move c p q w = (Inr (), v)" using Pair run by (simp add: try_move_def catch_io_def)
      then show ?thesis using move_ok w by blast
    qed
  qed
next
  fix w e v assume "try_move c p q w = (Inl e, v)"
  then have False by (auto simp: try_move_def catch_io_def ret_def split: prod.splits sum.splits)
  then show "E e v" ..
qed

lemma switch_root_spec:
  assumes ap: "apart (rollback_paths mp plan)" and r: "t0 (under mp (target_subvolume plan)) = Some r"
    and n: "t0 (under mp (replacement_subvolume plan)) = None"
    and free: "free \<Longrightarrow> t0 (under mp (failed_name plan)) = None"
  defines "T \<equiv> under mp (target_subvolume plan)" and "P \<equiv> under mp (preserved_subvolume plan)"
    and "N \<equiv> under mp (replacement_subvolume plan)" and "F \<equiv> under mp (failed_name plan)"
  shows "hoare (\<lambda>(b, f). f = no_progress \<and> tree b = t0) (switch_root c mp plan)
    (\<lambda>_ (b, f). tree b P = Some r \<and> (\<exists>k. k \<notin> ran t0 \<and> tree b T = Some k))
    (\<lambda>e (b, f). stage T P N F r t0 free (tree b) f)"
proof -
  have d: "T \<noteq> P" "T \<noteq> N" "T \<noteq> F" "P \<noteq> N" "P \<noteq> F" "N \<noteq> F"
    "\<not> below T N" "\<not> below P N" "\<not> below T F" "\<not> below P F" "\<not> below N P" "\<not> below T P" "\<not> below N F"
    using ap unfolding apart_def rollback_paths_def T_def P_def N_def F_def by auto
  note start = r [folded T_def] n [folded N_def] free [folded F_def]
  let ?E = "\<lambda>e (b, f). stage T P N F r t0 free (tree b) f"
  let ?A2 = "\<lambda>b. \<exists>k. k \<notin> ran t0 \<and> tree b = t0(N \<mapsto> k)"
  let ?A3 = "\<lambda>b. tree b P = Some r \<and> tree b T = None \<and> (\<exists>k. k \<notin> ran t0 \<and> tree b N = Some k) \<and> (free \<longrightarrow> tree b F = None)"
  let ?A4 = "\<lambda>b. tree b P = Some r \<and> (\<exists>k. k \<notin> ran t0 \<and> tree b T = Some k) \<and> (free \<longrightarrow> tree b F = None)"
  have preserve: "hoare ?A2 (bc_move c T P) (\<lambda>_. ?A3) (\<lambda>_. ?A2)"
  proof (rule hoareI)
    fix w x v assume "?A2 w" and run: "bc_move c T P w = (Inr x, v)"
    then obtain k where k: "k \<notin> ran t0" "tree w = t0(N \<mapsto> k)" by blast
    have "moved T P (t0(N \<mapsto> k)) (tree v)" using move_ok [of T P w v] run k(2) by simp
    then show "?A3 v" using k(1) d start by (auto simp: moved_def)
  next
    fix w e v assume "?A2 w" and "bc_move c T P w = (Inl e, v)"
    then show "?A2 v" using move_failed by metis
  qed
  have switch: "hoare ?A3 (bc_move c N T) (\<lambda>_. ?A4) (\<lambda>_. ?A3)"
  proof (rule hoareI)
    fix w x v assume a: "?A3 w" and run: "bc_move c N T w = (Inr x, v)"
    have "moved N T (tree w) (tree v)" using move_ok [of N T w v] run by simp
    then show "?A4 v" using a d by (auto simp: moved_def)
  next
    fix w e v assume "?A3 w" and "bc_move c N T w = (Inl e, v)"
    then show "?A3 v" using move_failed by metis
  qed
  have keep: "hoare ?A4 m (\<lambda>_. ?A4) (\<lambda>_. ?A4)" if "\<And>s. tree (snd (m s)) = tree s" for m :: "('s, 'x) io"
    by (rule hoareI) (use that in \<open>metis snd_conv\<close>)+
  have mount: "hoare (\<lambda>b. tree b = t0) (bc_mount c (btrfs_source plan) mp) (\<lambda>_ b. tree b = t0) (\<lambda>_ b. tree b = t0)"
    by (rule keeps_tree)
  show ?thesis
    unfolding switch_root_def Let_def T_def [symmetric] P_def [symmetric] N_def [symmetric]
    apply (rule hoare_step [OF mount])
     apply (simp add: stage_def no_progress_def start)
    apply (rule hoare_step [OF snapshot_spec])
      apply (rule start)
     apply (simp add: stage_def no_progress_def start)
    apply (rule hoare_step [OF preserve])
     apply (use d start in \<open>force simp: stage_def no_progress_def\<close>)
    apply (rule hoare_step [OF switch])
     apply (simp add: stage_def no_progress_def)
    apply (rule hoare_host_bind [OF keep [OF list_keeps]])
     apply (simp add: stage_def no_progress_def)
    apply (rule hoare_bind [where R = "\<lambda>_ (b, f). f = no_progress\<lparr>rp_mounted := True, rp_created := True, rp_preserved := True, rp_switched := True\<rparr> \<and> ?A4 b"])
     apply (simp add: verify_topology_def hoare_def ret_def throw_def stage_def no_progress_def)
    apply (rule hoare_host_bind [OF keep [OF sync_keeps]])
     apply (simp add: stage_def no_progress_def)
    apply (rule hoare_step [OF keep [OF unmount_keeps]])
     apply (simp add: stage_def no_progress_def)
    apply (simp add: hoare_def ret_def)
    done
qed

lemma try_move_cases:
  assumes "\<And>t'. moved p q t t' \<Longrightarrow> Q t'" and "\<not> (reliable_moves c tree \<and> t p \<noteq> None \<and> t q = None \<and> \<not> below p q \<and> \<not> below q p) \<Longrightarrow> Q t"
  shows "hoare (\<lambda>s. tree s = t) (try_move c p q) (\<lambda>_ s. Q (tree s)) E"
  by (rule hoare_weaken [OF try_move_spec]) (use assms in auto)

lemma restore_moves_spec:
  assumes ap: "apart (rollback_paths mp plan)" and f: "rp_mounted f"
  defines "T \<equiv> under mp (target_subvolume plan)" and "P \<equiv> under mp (preserved_subvolume plan)"
    and "N \<equiv> under mp (replacement_subvolume plan)" and "F \<equiv> under mp (failed_name plan)"
  shows "hoare (\<lambda>b. stage T P N F r t0 free (tree b) f) (restore_moves c mp plan f)
    (\<lambda>_ b. recovered T P r (free \<and> reliable_moves c tree) (tree b)) E"
proof -
  have d: "T \<noteq> P" "T \<noteq> N" "T \<noteq> F" "P \<noteq> N" "P \<noteq> F" "N \<noteq> F"
    "\<not> below T P" "\<not> below P T" "\<not> below F P" "\<not> below N P" "\<not> below N T" "\<not> below F T" "\<not> below T F"
    using ap unfolding apart_def rollback_paths_def T_def P_def N_def F_def by auto
  let ?sure = "free \<and> reliable_moves c tree"
  have up_to: "hoare (\<lambda>b. G (tree b)) m R E" if "\<And>t. G t \<Longrightarrow> hoare (\<lambda>b. tree b = t) m R E"
    for G R and m :: "('s, unit) io"
    using that by (fastforce simp: hoare_def)
  have homeward: "hoare (\<lambda>b. tree b P = Some r \<and> (?sure \<longrightarrow> tree b T = None)) (try_move c P T)
      (\<lambda>_ b. recovered T P r ?sure (tree b)) E"
    by (rule up_to [where G = "\<lambda>t. t P = Some r \<and> (?sure \<longrightarrow> t T = None)"])
       (rule try_move_cases, use d in \<open>auto simp: moved_def recovered_def\<close>)
  have aside: "hoare (\<lambda>b. tree b P = Some r \<and> (free \<longrightarrow> tree b F = None) \<and> tree b T \<noteq> None) (try_move c T F)
      (\<lambda>_ b. tree b P = Some r \<and> (?sure \<longrightarrow> tree b T = None)) E"
    by (rule up_to [where G = "\<lambda>t. t P = Some r \<and> (free \<longrightarrow> t F = None) \<and> t T \<noteq> None"],
        rule try_move_cases [where Q = "\<lambda>t. t P = Some r \<and> (?sure \<longrightarrow> t T = None)"])
       (use d in \<open>auto simp: moved_def\<close>)
  have other: "hoare (\<lambda>b. tree b P = Some r \<and> tree b T = None) (try_move c N F)
      (\<lambda>_ b. tree b P = Some r \<and> (?sure \<longrightarrow> tree b T = None)) E"
    by (rule up_to [where G = "\<lambda>t. t P = Some r \<and> t T = None"],
        rule try_move_cases [where Q = "\<lambda>t. t P = Some r \<and> (?sure \<longrightarrow> t T = None)"])
       (use d in \<open>auto simp: moved_def\<close>)
  have clean: "hoare (\<lambda>b. tree b T = Some r) (try_move c N F) (\<lambda>_ b. recovered T P r ?sure (tree b)) E"
    by (rule up_to [where G = "\<lambda>t. t T = Some r"], rule try_move_cases) (use d in \<open>auto simp: moved_def recovered_def\<close>)
  consider "rp_switched f" | "\<not> rp_switched f" "rp_preserved f" | "\<not> rp_switched f" "\<not> rp_preserved f" by blast
  then show ?thesis
  proof cases
    case 1
    then have "restore_moves c mp plan f = bind_io (try_move c T F) (\<lambda>_. try_move c P T)"
      by (simp add: restore_moves_def Let_def T_def P_def F_def)
    moreover have "stage T P N F r t0 free t f \<Longrightarrow> t P = Some r \<and> (free \<longrightarrow> t F = None) \<and> t T \<noteq> None" for t
      using 1 by (auto simp: stage_def)
    ultimately show ?thesis by (auto intro: hoare_pre [OF hoare_bind [OF aside homeward]])
  next
    case 2
    show ?thesis
    proof (cases "rp_created f")
      case True
      with 2 have "restore_moves c mp plan f = bind_io (try_move c N F) (\<lambda>_. try_move c P T)"
        by (simp add: restore_moves_def Let_def T_def P_def F_def N_def)
      moreover have "stage T P N F r t0 free t f \<Longrightarrow> t P = Some r \<and> t T = None" for t
        using 2 by (auto simp: stage_def)
      ultimately show ?thesis by (auto intro: hoare_pre [OF hoare_bind [OF other homeward]])
    qed (use 2 in \<open>simp add: stage_def hoare_def\<close>)
  next
    case 3
    show ?thesis
    proof (cases "rp_created f")
      case True
      with 3 have "restore_moves c mp plan f = try_move c N F" by (simp add: restore_moves_def Let_def F_def N_def)
      moreover have "stage T P N F r t0 free t f \<Longrightarrow> t T = Some r" for t using 3 by (auto simp: stage_def)
      ultimately show ?thesis by (auto intro: hoare_pre [OF clean])
    next
      case False
      with 3 show ?thesis by (auto simp: restore_moves_def stage_def hoare_def ret_def recovered_def)
    qed
  qed
qed

lemma switch_or_restore_spec:
  assumes ap: "apart (rollback_paths mp plan)" and r: "t0 (under mp (target_subvolume plan)) = Some r"
    and n: "t0 (under mp (replacement_subvolume plan)) = None"
    and free: "free \<Longrightarrow> t0 (under mp (failed_name plan)) = None"
  defines "T \<equiv> under mp (target_subvolume plan)" and "P \<equiv> under mp (preserved_subvolume plan)"
  shows "hoare (\<lambda>b. tree b = t0) (switch_or_restore c mp plan)
    (\<lambda>_ b. tree b P = Some r \<and> (\<exists>k. k \<notin> ran t0 \<and> tree b T = Some k))
    (\<lambda>_ b. recovered T P r (free \<and> reliable_moves c tree) (tree b))"
proof -
  let ?N = "under mp (replacement_subvolume plan)" and ?F = "under mp (failed_name plan)"
  let ?R = "\<lambda>b. recovered T P r (free \<and> reliable_moves c tree) (tree b)"
  note body = switch_root_spec [OF ap r n free, folded T_def P_def]
  have quiet: "hoare (\<lambda>(b, f). ?R b) (catch_io (on_host m) (\<lambda>_. ret ())) (\<lambda>_ (b, f). ?R b) (\<lambda>_ (b, f). ?R b)"
    if "\<And>s. tree (snd (m s)) = tree s" for m :: "('s, unit) io"
  proof -
    have "?R b' \<longleftrightarrow> ?R b" if "m b = (r, b')" for r b b' using \<open>\<And>s. tree (snd (m s)) = tree s\<close> [of b] that by simp
    then show ?thesis by (fastforce simp: hoare_def catch_io_def on_host_def ret_def split: prod.splits sum.splits)
  qed
  have undo: "hoare (\<lambda>(b, f'). f' = f \<and> stage T P ?N ?F r t0 free (tree b) f)
      (if rp_mounted f then bind_io (on_host (restore_moves c mp plan f)) (\<lambda>_.
          bind_io (catch_io (on_host (bc_sync c mp)) (\<lambda>_. ret ())) (\<lambda>_.
          catch_io (on_host (bc_unmount c mp)) (\<lambda>_. ret ())))
        else ret ()) (\<lambda>_ (b, f). ?R b) (\<lambda>_ (b, f). ?R b)" for f
  proof (cases "rp_mounted f")
    case True
    note moves = restore_moves_spec [OF ap True, folded T_def P_def]
    have "hoare (\<lambda>(b, f'). f' = f \<and> stage T P ?N ?F r t0 free (tree b) f) (on_host (restore_moves c mp plan f))
        (\<lambda>_ (b, f). ?R b) (\<lambda>_ (b, f). ?R b)"
      by (rule hoare_weaken [OF hoare_on_host [OF moves [where E = "\<lambda>_ b. False"]]]) auto
    then show ?thesis using True quiet [where m = "bc_sync c mp", OF sync_keeps]
        quiet [where m = "bc_unmount c mp", OF unmount_keeps] by (simp add: hoare_bind)
  qed (auto simp: hoare_def ret_def stage_def recovered_def)
  have homeward: "hoare (\<lambda>(b, f). stage T P ?N ?F r t0 free (tree b) f) (switch_back c mp plan e)
      Q (\<lambda>_ (b, f). ?R b)" for e Q
    unfolding switch_back_def
    apply (rule hoare_bind [where R = "\<lambda>f (b, f'). f' = f \<and> stage T P ?N ?F r t0 free (tree b) f"])
     apply (simp add: hoare_def gets_def)
    apply (rule hoare_bind [OF undo])
    apply (simp add: hoare_def throw_def)
    done
  have "hoare (\<lambda>(b, f). f = no_progress \<and> tree b = t0)
      (catch_io (switch_root c mp plan) (switch_back c mp plan))
      (\<lambda>_ (b, f). tree b P = Some r \<and> (\<exists>k. k \<notin> ran t0 \<and> tree b T = Some k)) (\<lambda>_ (b, f). ?R b)"
    by (rule hoare_catch [OF body homeward])
  then show ?thesis
    by (fastforce simp: hoare_def switch_or_restore_def split: prod.splits sum.splits)
qed

end

lemma hoare_on_files: "hoare (\<lambda>(w, b). B b) (on_files m) (\<lambda>_ (w, b). B b) (\<lambda>_ (w, b). B b)"
  by (auto simp: hoare_def on_files_def split: prod.splits sum.splits)

lemma hoare_on_btrfs:
  "hoare B m Q E \<Longrightarrow> hoare (\<lambda>(w, b). B b) (on_btrfs m) (\<lambda>x (w, b). Q x b) (\<lambda>e (w, b). E e b)"
  by (fastforce simp: hoare_def on_btrfs_def split: prod.splits sum.splits)

lemma rollback_execute_spec:
  assumes "hoare B (switch_or_restore c (path_append rd ''btrfs-top'') plan) Q E" and "\<And>e b. B b \<Longrightarrow> E e b"
  shows "hoare (\<lambda>(w, b). B b) (rollback_execute c rd plan) (\<lambda>x (w, b). Q x b) (\<lambda>e (w, b). E e b)"
proof -
  have files: "hoare (\<lambda>(w, b). B b) (on_files m) (\<lambda>_ (w, b). B b) (\<lambda>e (w, b). E e b)" for m :: "(world, 'x) io"
    by (rule hoare_weaken [OF hoare_on_files]) (use assms(2) in auto)
  have "hoare (\<lambda>(w, b). B b)
      (finally_io (bind_io (on_files (take_rollback_lock l fd)) (\<lambda>_.
         on_btrfs (switch_or_restore c (path_append rd ''btrfs-top'') plan))) (\<lambda>(w, b). (release_lock fd w, b)))
      (\<lambda>x (w, b). Q x b) (\<lambda>e (w, b). E e b)" for l fd
    by (rule hoare_finally, rule hoare_weaken [OF hoare_bind [OF files hoare_on_btrfs [OF assms(1)]]]) auto
  then show ?thesis
    unfolding rollback_execute_def
    by (intro hoare_if hoare_bind [OF files]) (use assms(2) in \<open>auto simp: hoare_def throw_def\<close>)
qed

section \<open>The tools behind the client\<close>

text \<open>
  What the programs and the two library functions promise: only \<open>btrfs subvolume snapshot\<close> and a
  rename change the tree, a snapshot that exits with an error has created nothing, and a subvolume
  cannot be renamed onto another one.
\<close>

locale btrfs_tools =
  fixes run :: "string list \<Rightarrow> ('s, process_result) io" and mkdirs :: "path \<Rightarrow> ('s, unit) io"
    and rename :: "path \<Rightarrow> path \<Rightarrow> ('s, unit) io" and tree :: "'s \<Rightarrow> path \<Rightarrow> nat option"
  assumes run_keeps: "take 3 args \<noteq> [''btrfs'', ''subvolume'', ''snapshot''] \<Longrightarrow> tree (snd (run args s)) = tree s"
    and run_snapshot: "run [''btrfs'', ''subvolume'', ''snapshot'', p, q] s = (Inr res, s') \<Longrightarrow> exit_code res = 0 \<Longrightarrow>
      tree s q = None \<Longrightarrow> \<exists>i. i \<notin> ran (tree s) \<and> tree s' = (tree s)(q \<mapsto> i)"
    and run_snapshot_failed: "run [''btrfs'', ''subvolume'', ''snapshot'', p, q] s = (Inr res, s') \<Longrightarrow>
      exit_code res \<noteq> 0 \<Longrightarrow> tree s' = tree s"
    and run_threw: "run args s = (Inl e, s') \<Longrightarrow> tree s' = tree s"
    and mkdirs_keeps: "tree (snd (mkdirs p s)) = tree s"
    and rename_ok: "rename p q s = (Inr (), s') \<Longrightarrow> moved p q (tree s) (tree s')"
    and rename_failed: "rename p q s = (Inl e, s') \<Longrightarrow> tree s' = tree s"

lemma tree_bind:
  "(\<And>s. g (snd (m s)) = g s) \<Longrightarrow> (\<And>x s. g (snd (k x s)) = g s) \<Longrightarrow> g (snd (bind_io m k s)) = g s"
  by (auto simp: bind_io_def split: prod.split sum.split) (metis snd_conv)+

lemma succeeded_keeps [simp]: "snd (succeeded res operation s) = s"
  by (simp add: succeeded_def throw_def ret_def)

sublocale btrfs_tools \<subseteq> btrfs_contract "posix_btrfs_client run mkdirs rename" tree
proof
  fix source p q s s' e
  let ?c = "posix_btrfs_client run mkdirs rename"
  show "tree (snd (bc_mount ?c source p s)) = tree s"
    by (simp add: posix_btrfs_client_def tree_bind mkdirs_keeps run_keeps)
  show "tree (snd (bc_unmount ?c p s)) = tree s" by (simp add: posix_btrfs_client_def tree_bind run_keeps)
  show "tree (snd (bc_sync ?c p s)) = tree s" by (simp add: posix_btrfs_client_def tree_bind run_keeps)
  show "tree (snd (bc_list ?c p s)) = tree s"
    by (simp add: posix_btrfs_client_def ret_def tree_bind run_keeps)
  show "bc_snapshot ?c p q s = (Inr (), s') \<Longrightarrow> tree s q = None \<Longrightarrow> \<exists>i. i \<notin> ran (tree s) \<and> tree s' = (tree s)(q \<mapsto> i)"
    using run_snapshot [of p q s] 
    by (auto simp: posix_btrfs_client_def bind_io_def succeeded_def throw_def ret_def split: prod.splits sum.splits if_splits)
  show "bc_snapshot ?c p q s = (Inl e, s') \<Longrightarrow> tree s' = tree s"
    using run_snapshot_failed [of p q s] run_threw [of _ s]
    by (auto simp: posix_btrfs_client_def bind_io_def succeeded_def throw_def ret_def split: prod.splits sum.splits if_splits)
  show "bc_move ?c p q s = (Inr (), s') \<Longrightarrow> moved p q (tree s) (tree s')" using rename_ok by (simp add: posix_btrfs_client_def)
  show "bc_move ?c p q s = (Inl e, s') \<Longrightarrow> tree s' = tree s" using rename_failed by (simp add: posix_btrfs_client_def)
qed

section \<open>A Btrfs host\<close>

text \<open>A file system of subvolumes, with a script that says which of the next program runs fail.\<close>

record btrfs_host =
  bh_tree :: "(path \<times> nat) list"
  bh_mount_point :: path
  bh_script :: "bool list"

definition host_tree :: "btrfs_host \<Rightarrow> path \<Rightarrow> nat option" where
  "host_tree h = map_of (bh_tree h)"

definition scripted :: "(btrfs_host \<Rightarrow> 'a result \<times> btrfs_host) \<Rightarrow> 'a result \<Rightarrow> (btrfs_host, 'a) io" where
  "scripted act failing h =
     (case bh_script h of [] \<Rightarrow> act h
      | works # s \<Rightarrow> if works then act (h\<lparr>bh_script := s\<rparr>) else (failing, h\<lparr>bh_script := s\<rparr>))"

definition exit_with :: "nat \<Rightarrow> string \<Rightarrow> process_result" where
  "exit_with n s = \<lparr>exit_code = int n, proc_output = s\<rparr>"

definition host_list :: "btrfs_host \<Rightarrow> string" where
  "host_list h = as_text (map (\<lambda>(p, i). subvolume_text (1, 5,
     \<lparr>sv_id = word_of_nat i, sv_path = drop (length (bh_mount_point h) + 1) p\<rparr>)) (bh_tree h))"

definition host_run :: "string list \<Rightarrow> (btrfs_host, process_result) io" where
  "host_run args = scripted (\<lambda>h.
     if take 3 args = [''btrfs'', ''subvolume'', ''snapshot''] then
       (if length args = 5 \<and> host_tree h (args ! 3) \<noteq> None \<and> host_tree h (args ! 4) = None then
          (Inr (exit_with 0 []), h\<lparr>bh_tree := (args ! 4, Suc (Max (insert 0 (snd ` set (bh_tree h))))) # bh_tree h\<rparr>)
        else (Inr (exit_with 1 ''ERROR''), h))
     else if take 3 args = [''btrfs'', ''subvolume'', ''list''] then (Inr (exit_with 0 (host_list h)), h)
     else (Inr (exit_with 0 []), h)) (Inr (exit_with 1 ''ERROR''))"

definition host_mkdirs :: "path \<Rightarrow> (btrfs_host, unit) io" where
  "host_mkdirs p = ret ()"

definition host_rename :: "path \<Rightarrow> path \<Rightarrow> (btrfs_host, unit) io" where
  "host_rename p q h =
     (if host_tree h p \<noteq> None \<and> host_tree h q = None \<and> \<not> below p q \<and> \<not> below q p then
        (Inr (), h\<lparr>bh_tree := map (\<lambda>(r, i). (if r = p then q else r, i)) (bh_tree h)\<rparr>)
      else (Inl (Filesystem_error ''filesystem error: cannot rename''), h))"

lemma map_of_renamed:
  assumes "map_of t q = None" "p \<noteq> q"
  shows "map_of (map (\<lambda>(r, i). (if r = p then q else r, i)) t) x =
    (if x = q then map_of t p else if x = p then None else map_of t x)"
  using assms by (induction t) (auto split: if_splits)

lemma fresh_identifier: "Suc (Max (insert 0 (snd ` set t))) \<notin> ran (map_of t)"
proof
  assume "Suc (Max (insert 0 (snd ` set t))) \<in> ran (map_of t)"
  then obtain k where "map_of t k = Some (Suc (Max (insert 0 (snd ` set t))))" by (auto simp: ran_def)
  then have "Suc (Max (insert 0 (snd ` set t))) \<in> snd ` set t" by (metis image_eqI map_of_SomeD snd_conv)
  then have "Suc (Max (insert 0 (snd ` set t))) \<le> Max (insert 0 (snd ` set t))" by simp
  then show False by simp
qed

interpretation host: btrfs_tools host_run host_mkdirs host_rename host_tree
proof
  fix args p q s s' res e
  show "take 3 args \<noteq> [''btrfs'', ''subvolume'', ''snapshot''] \<Longrightarrow> host_tree (snd (host_run args s)) = host_tree s"
    by (auto simp: host_run_def scripted_def host_tree_def split: list.split)
  show "host_run [''btrfs'', ''subvolume'', ''snapshot'', p, q] s = (Inr res, s') \<Longrightarrow> exit_code res = 0 \<Longrightarrow>
      host_tree s q = None \<Longrightarrow> \<exists>i. i \<notin> ran (host_tree s) \<and> host_tree s' = (host_tree s)(q \<mapsto> i)"
    using fresh_identifier [of "bh_tree s"]
    by (auto simp: host_run_def scripted_def host_tree_def exit_with_def numeral_3_eq_3 split: list.splits if_splits)
  show "host_run [''btrfs'', ''subvolume'', ''snapshot'', p, q] s = (Inr res, s') \<Longrightarrow> exit_code res \<noteq> 0 \<Longrightarrow> host_tree s' = host_tree s"
    by (auto simp: host_run_def scripted_def host_tree_def exit_with_def split: list.splits if_splits)
  show "host_run args s = (Inl e, s') \<Longrightarrow> host_tree s' = host_tree s"
    by (auto simp: host_run_def scripted_def host_tree_def split: list.splits if_splits)
  show "host_tree (snd (host_mkdirs p s)) = host_tree s" by (simp add: host_mkdirs_def ret_def)
  show "host_rename p q s = (Inr (), s') \<Longrightarrow> moved p q (host_tree s) (host_tree s')"
    by (auto simp: host_rename_def host_tree_def moved_def below_def map_of_renamed split: list.splits if_splits)
  show "host_rename p q s = (Inl e, s') \<Longrightarrow> host_tree s' = host_tree s"
    by (auto simp: host_rename_def host_tree_def split: list.splits if_splits)
qed


section \<open>What a rollback guarantees\<close>

definition in_tree :: "path \<Rightarrow> string \<Rightarrow> (path \<Rightarrow> nat option) \<Rightarrow> nat option" where
  "in_tree rd name t = t (under (path_append rd ''btrfs-top'') name)"

lemma rollback_result_cases:
  assumes c: "btrfs_contract c tree" and ap: "apart (rollback_paths (path_append rd ''btrfs-top'') plan)"
    and r: "in_tree rd (target_subvolume plan) (tree b) = Some r"
    and n: "in_tree rd (replacement_subvolume plan) (tree b) = None"
    and free: "free \<Longrightarrow> in_tree rd (failed_name plan) (tree b) = None"
    and run: "rollback_execute c rd plan (w, b) = (res, (w', b'))"
  shows "case res of
      Inr _ \<Rightarrow> in_tree rd (preserved_subvolume plan) (tree b') = Some r \<and>
              (\<exists>k. k \<notin> ran (tree b) \<and> in_tree rd (target_subvolume plan) (tree b') = Some k)
    | Inl _ \<Rightarrow> (in_tree rd (target_subvolume plan) (tree b') = Some r \<or>
                in_tree rd (preserved_subvolume plan) (tree b') = Some r) \<and>
              (free \<and> reliable_moves c tree \<longrightarrow> in_tree rd (target_subvolume plan) (tree b') = Some r)"
proof -
  note sw = btrfs_contract.switch_or_restore_spec [OF c ap r [unfolded in_tree_def] n [unfolded in_tree_def] free [unfolded in_tree_def]]
  have "hoare (\<lambda>(w, s). tree s = tree b) (rollback_execute c rd plan)
      (\<lambda>_ (w, s). tree s (under (path_append rd ''btrfs-top'') (preserved_subvolume plan)) = Some r \<and>
         (\<exists>k. k \<notin> ran (tree b) \<and> tree s (under (path_append rd ''btrfs-top'') (target_subvolume plan)) = Some k))
      (\<lambda>_ (w, s). recovered (under (path_append rd ''btrfs-top'') (target_subvolume plan))
         (under (path_append rd ''btrfs-top'') (preserved_subvolume plan)) r (free \<and> reliable_moves c tree) (tree s))"
    by (rule rollback_execute_spec [OF sw]) (use r in \<open>simp_all add: recovered_def in_tree_def\<close>)
  from this [unfolded hoare_def, rule_format, of "(w, b)"] show ?thesis
    by (simp add: run in_tree_def recovered_def split: sum.splits)
qed

text \<open>
  C3: a rollback never loses the system it replaces. Whichever of its steps fails, and in whatever
  way, the original root subvolume is afterwards found under its own name or under the name the plan
  preserves it by; when the rollback succeeds it is preserved, and a subvolume that did not exist
  before, the writable clone of the snapshot, is the root.
\<close>

theorem rollback_keeps_root:
  assumes "btrfs_contract c tree" and "apart (rollback_paths (path_append rd ''btrfs-top'') plan)"
    and "in_tree rd (target_subvolume plan) (tree b) = Some r"
    and "in_tree rd (replacement_subvolume plan) (tree b) = None"
    and "rollback_execute c rd plan (w, b) = (res, (w', b'))"
  shows "case res of
      Inr _ \<Rightarrow> in_tree rd (preserved_subvolume plan) (tree b') = Some r \<and>
              (\<exists>k. k \<notin> ran (tree b) \<and> in_tree rd (target_subvolume plan) (tree b') = Some k)
    | Inl _ \<Rightarrow> in_tree rd (target_subvolume plan) (tree b') = Some r \<or>
              in_tree rd (preserved_subvolume plan) (tree b') = Some r"
  using rollback_result_cases [where free = False, OF assms(1-4) _ assms(5)] by (auto split: sum.splits)

text \<open>
  C13: a rollback that fails puts the original root back, provided that the moves of its recovery
  work and that no earlier rollback left a subvolume under the name the recovery moves the
  replacement to.
\<close>

theorem rollback_failure_restores:
  assumes "btrfs_contract c tree" and "apart (rollback_paths (path_append rd ''btrfs-top'') plan)"
    and "in_tree rd (target_subvolume plan) (tree b) = Some r"
    and "in_tree rd (replacement_subvolume plan) (tree b) = None"
    and "in_tree rd (failed_name plan) (tree b) = None" and "reliable_moves c tree"
    and "rollback_execute c rd plan (w, b) = (Inl e, (w', b'))"
  shows "in_tree rd (target_subvolume plan) (tree b') = Some r"
  using rollback_result_cases [where free = True, OF assms(1-5,7)] assms(6) by simp


text \<open>
  C28: the names a planned rollback works with never contain each other, so the hypothesis on paths
  of the two results above holds for every eligible plan whose root subvolume does not end in a slash.
\<close>

theorem planned_paths_apart:
  assumes "build_rollback_plan (Inr svs) tx sys sc snapshots config = Inr plan" and "eligible plan"
    and "last (target_subvolume plan) \<noteq> SLASH"
  shows "apart (rollback_paths (path_append rd ''btrfs-top'') plan)"
proof -
  let ?mp = "path_append rd ''btrfs-top''" and ?T = "target_subvolume plan"
  obtain n where t: "?T = rootflags_subvolume (kernel_cmdline sys)" "?T \<noteq> []"
    and names: "preserved_subvolume plan = preserved_name ?T n tx" "replacement_subvolume plan = replacement_name ?T n tx"
    using rollback_plan_eligible [OF assms(1)] assms(2) by (auto simp: may_roll_back_def Let_def)
  have "hd ?T \<noteq> SLASH"
    using t hd_dropWhile [of "\<lambda>c. c = SLASH"] by (auto simp: rootflags_subvolume_def split: option.splits if_splits)
  then obtain a as where T: "?T = a # as" "a \<noteq> SLASH" using t(2) by (cases ?T) auto
  have mp: "?mp \<noteq> []" "last ?mp \<noteq> SLASH" by (auto simp: path_append_def is_absolute_def)
  define B where "B = ?mp @ SLASH # ?T"
  have B: "under ?mp (?T @ s) = B @ s" for s
    using T mp by (simp add: under_def B_def relative_path_def path_append_def is_absolute_def)
  have last: "B \<noteq> []" "last B \<noteq> SLASH" using t(2) assms(3) by (simp_all add: B_def)
  have bl: "below (B @ x) (B @ y) \<longleftrightarrow> x = y \<or> starts_with y (if x \<noteq> [] \<and> last x = SLASH then x else x @ ''/'')" for x y
    using last by (auto simp: below_def starts_with_def last_append)
  have "rollback_paths ?mp plan = map ((@) B) [[], ''.limine-manager.rollback.'' @ show_number n @ ''.'' @ tx,
      ''.limine-manager.new.'' @ show_number n @ ''.'' @ tx, ''.limine-manager.failed-replacement'']"
    using B [of "[]"] by (simp add: rollback_paths_def names preserved_name_def replacement_name_def failed_name_def B)
  then show ?thesis
    using bl [of "[]"] bl [of _ "[]"] by (simp add: apart_def bl starts_with_Cons starts_with_def)
qed

theorem planned_paths_apart_witness:
  "\<exists>plan. sample_rollback_plan = Inr plan \<and> apart (rollback_paths (path_append ''/run'' ''btrfs-top'') plan)"
proof -
  obtain plan where p: "sample_rollback_plan = Inr plan" "eligible plan" "target_subvolume plan = ''@''"
    using sample_rollback_planned by blast
  then have "apart (rollback_paths (path_append ''/run'' ''btrfs-top'') plan)"
    using planned_paths_apart [OF p(1) [unfolded sample_rollback_plan_def] p(2)] by simp
  with p(1) show ?thesis by blast
qed

section \<open>Concrete rollbacks\<close>

definition sample_btrfs :: "bool list \<Rightarrow> btrfs_host" where
  "sample_btrfs s = \<lparr>bh_tree = [(''/run/btrfs-top/@'', 256), (''/run/btrfs-top/@s/7/snapshot'', 257)],
     bh_mount_point = ''/run/btrfs-top'', bh_script = s\<rparr>"

definition sample_rollback :: rollback_plan where
  "sample_rollback = empty_rollback_plan\<lparr>eligible := True, btrfs_source := ''/dev/sda2'', target_subvolume := ''@'',
     source_snapshot_subvolume := ''@s/7/snapshot'', preserved_subvolume := ''@.old'', replacement_subvolume := ''@.new''\<rparr>"

definition host_client :: "btrfs_host btrfs_client" where
  "host_client = posix_btrfs_client host_run host_mkdirs host_rename"

definition lockable_host :: world where
  "lockable_host = sample_host [(''/'', plain_dir), (''/run'', plain_dir)] []"

lemma host_client_contract: "btrfs_contract host_client host_tree"
  unfolding host_client_def by (rule host.btrfs_contract_axioms)

lemma host_client_moves: "reliable_moves host_client host_tree"
  by (auto simp: reliable_moves_def host_client_def posix_btrfs_client_def host_rename_def)

lemma sample_paths:
  "path_append ''/run'' ''btrfs-top'' = ''/run/btrfs-top''"
  "under ''/run/btrfs-top'' ''@'' = ''/run/btrfs-top/@''" "under ''/run/btrfs-top'' ''@.old'' = ''/run/btrfs-top/@.old''"
  "under ''/run/btrfs-top'' ''@.new'' = ''/run/btrfs-top/@.new''"
  "under ''/run/btrfs-top'' ''@s/7/snapshot'' = ''/run/btrfs-top/@s/7/snapshot''"
  "path_append ''/run'' ''rollback.lock'' = ''/run/rollback.lock''"
  by code_simp+

lemma sample_apart: "apart (rollback_paths (path_append ''/run'' ''btrfs-top'') sample_rollback)"
  by code_simp

lemma sample_trees:
  "in_tree ''/run'' (target_subvolume sample_rollback) (host_tree (sample_btrfs s)) = Some 256"
  "in_tree ''/run'' (replacement_subvolume sample_rollback) (host_tree (sample_btrfs s)) = None"
  "in_tree ''/run'' (failed_name sample_rollback) (host_tree (sample_btrfs s)) = None"
proof -
  have "under ''/run/btrfs-top'' (failed_name sample_rollback) = ''/run/btrfs-top/@.limine-manager.failed-replacement''"
    by code_simp
  then show "in_tree ''/run'' (target_subvolume sample_rollback) (host_tree (sample_btrfs s)) = Some 256"
    "in_tree ''/run'' (replacement_subvolume sample_rollback) (host_tree (sample_btrfs s)) = None"
    "in_tree ''/run'' (failed_name sample_rollback) (host_tree (sample_btrfs s)) = None"
    by (simp_all add: in_tree_def sample_paths host_tree_def sample_btrfs_def, simp_all add: sample_rollback_def sample_paths)
qed

text \<open>With every tool working the switch ends; with a listing that fails it throws.\<close>

lemma sample_switch_fails:
  "sum.isl (fst (switch_or_restore host_client ''/run/btrfs-top'' sample_rollback (sample_btrfs [True, True, False])))"
  by code_simp

lemma sample_switch_ends:
  "\<not> sum.isl (fst (switch_or_restore host_client ''/run/btrfs-top'' sample_rollback (sample_btrfs [])))"
proof -
  let ?mp = "''/run/btrfs-top''"
  define h where "h = (sample_btrfs [])\<lparr>bh_tree := [(''/run/btrfs-top/@'', 258), (''/run/btrfs-top/@.old'', 256),
      (''/run/btrfs-top/@s/7/snapshot'', 257)]\<rparr>"
  define h2 where "h2 = (sample_btrfs [])\<lparr>bh_tree := [(''/run/btrfs-top/@.new'', 258), (''/run/btrfs-top/@.old'', 256),
      (''/run/btrfs-top/@s/7/snapshot'', 257)]\<rparr>"
  define h1 where "h1 = (sample_btrfs [])\<lparr>bh_tree := [(''/run/btrfs-top/@.new'', 258), (''/run/btrfs-top/@'', 256),
      (''/run/btrfs-top/@s/7/snapshot'', 257)]\<rparr>"
  have mount: "bc_mount host_client ''/dev/sda2'' ?mp (sample_btrfs []) = (Inr (), sample_btrfs [])" by code_simp
  have snap: "bc_snapshot host_client ''/run/btrfs-top/@s/7/snapshot'' ''/run/btrfs-top/@.new'' (sample_btrfs []) = (Inr (), h1)"
    unfolding h1_def by code_simp
  have preserve: "bc_move host_client ''/run/btrfs-top/@'' ''/run/btrfs-top/@.old'' h1 = (Inr (), h2)"
    unfolding h1_def h2_def by code_simp
  have switch: "bc_move host_client ''/run/btrfs-top/@.new'' ''/run/btrfs-top/@'' h2 = (Inr (), h)"
    unfolding h2_def h_def by code_simp
  let ?rows = "map (\<lambda>(p, i). (1::nat, 5::nat, \<lparr>sv_id = word_of_nat i, sv_path = drop 15 p\<rparr>)) (bh_tree h)"
  have "host_list h = as_text (map subvolume_text ?rows)"
    by (simp add: host_list_def h_def sample_btrfs_def)
  then have listing: "bc_list host_client ?mp h = (Inr (map (snd \<circ> snd) ?rows), h)"
    using parse_subvolumes_printed [of ?rows]
    by (simp add: h_def host_client_def posix_btrfs_client_def host_run_def scripted_def sample_btrfs_def exit_with_def
        succeeded_def bind_io_def ret_def)
  have verify: "verify_topology sample_rollback (map (snd \<circ> snd) ?rows) s = (Inr (), s)" for s :: "btrfs_host \<times> rollback_progress"
    unfolding h_def by (simp add: verify_topology_def contains_subvolume_def sample_rollback_def sample_btrfs_def ret_def)
  have rest: "bc_sync host_client ?mp h = (Inr (), h)" "bc_unmount host_client ?mp h = (Inr (), h)"
    unfolding h_def by code_simp+
  have fields: "btrfs_source sample_rollback = ''/dev/sda2''" "target_subvolume sample_rollback = ''@''"
    "source_snapshot_subvolume sample_rollback = ''@s/7/snapshot''" "preserved_subvolume sample_rollback = ''@.old''"
    "replacement_subvolume sample_rollback = ''@.new''" by (simp_all add: sample_rollback_def)
  obtain svs where svs: "bc_list host_client ?mp h = (Inr svs, h)"
    "\<And>s :: btrfs_host \<times> rollback_progress. verify_topology sample_rollback svs s = (Inr (), s)"
    using listing verify by blast
  show ?thesis
    using mount snap preserve switch svs rest
    by (simp add: switch_or_restore_def catch_io_def switch_root_def bind_io_def on_host_def record_progress_def Let_def
        ret_def fields sample_paths)
qed

theorem rollback_keeps_root_witness:
  "\<exists>x w b. rollback_execute host_client ''/run'' sample_rollback (lockable_host, sample_btrfs []) = (Inr x, (w, b)) \<and>
     in_tree ''/run'' ''@.old'' (host_tree b) = Some 256 \<and>
     (\<exists>k. k \<notin> ran (host_tree (sample_btrfs [])) \<and> in_tree ''/run'' ''@'' (host_tree b) = Some k)"
proof -
  have "case open_rollback_lock ''/run'' lockable_host of
      (Inr fd, u) \<Rightarrow> fst (take_rollback_lock ''/run/rollback.lock'' fd u) = Inr () | _ \<Rightarrow> False" by code_simp
  moreover have "eligible sample_rollback \<and> \<not> incomplete sample_rollback" by code_simp
  ultimately have "\<not> sum.isl (fst (rollback_execute host_client ''/run'' sample_rollback (lockable_host, sample_btrfs [])))"
    using sample_switch_ends
    by (auto simp: rollback_execute_def bind_io_def on_files_def on_btrfs_def finally_io_def sample_paths
        split: prod.splits sum.splits)
  then obtain x w b where run: "rollback_execute host_client ''/run'' sample_rollback (lockable_host, sample_btrfs []) = (Inr x, (w, b))"
    by (metis prod.collapse sum.collapse(2))
  have "target_subvolume sample_rollback = ''@''" "preserved_subvolume sample_rollback = ''@.old''"
    by (simp_all add: sample_rollback_def)
  with rollback_keeps_root [OF host_client_contract sample_apart sample_trees(1,2) run] run show ?thesis by auto
qed

theorem rollback_failure_restores_witness:
  "\<forall>w. sum.isl (fst (rollback_execute host_client ''/run'' sample_rollback (w, sample_btrfs [True, True, False]))) \<and>
     in_tree ''/run'' ''@'' (host_tree (snd (snd (rollback_execute host_client ''/run'' sample_rollback (w, sample_btrfs [True, True, False])))))
       = Some 256"
proof
  fix w
  let ?b = "sample_btrfs [True, True, False]"
  have "sum.isl (fst (rollback_execute host_client ''/run'' sample_rollback (w, ?b)))"
    using sample_switch_fails
    by (auto simp: rollback_execute_def throw_def bind_io_def on_files_def on_btrfs_def finally_io_def sample_paths
        split: prod.splits sum.splits)
  then obtain e w' b' where run: "rollback_execute host_client ''/run'' sample_rollback (w, ?b) = (Inl e, (w', b'))"
    by (metis prod.collapse sum.collapse(1))
  then show "sum.isl (fst (rollback_execute host_client ''/run'' sample_rollback (w, ?b))) \<and>
      in_tree ''/run'' ''@'' (host_tree (snd (snd (rollback_execute host_client ''/run'' sample_rollback (w, ?b))))) = Some 256"
    using rollback_failure_restores [OF host_client_contract sample_apart sample_trees host_client_moves run]
    by (simp add: sample_rollback_def)
qed

end
