(* ===== verification/Validation_Service.thy ===== *)
theory Validation_Service
  imports Report Preview
begin

text \<open>
The validation of a detected host (src/application/validation_service.cpp).

  Each group of checks of \<open>ValidationService::validate\<close> is a function on reports, in the order of the
  code. \<open>std::filesystem\<close> errors in \<open>canonical\<close> are absorbed by the file system interface, so the handler
  of \<open>same_device_path\<close> is not reached. \<open>host_ready\<close> states the condition under which a report is valid
  without mentioning reports; the last section follows a valid report into the menu.
\<close>

section \<open>Device references of the kernel command line\<close>

datatype device_reference_kind = By_uuid | By_partuuid | By_path | By_unknown

record device_reference =
  dr_kind :: device_reference_kind
  dr_value :: string

record encryption_mapping =
  em_source :: device_reference
  em_mapper :: string

definition valid_uuid :: "string \<Rightarrow> bool" where
  "valid_uuid value \<longleftrightarrow> value \<noteq> [] \<and> list_all (\<lambda>ch. isxdigit ch \<or> ch = CHR ''-'') value"

definition same_uuid :: "string \<Rightarrow> string \<Rightarrow> bool" where
  "same_uuid l r \<longleftrightarrow> l \<noteq> [] \<and> r \<noteq> [] \<and> lower l = lower r"

definition parse_device_reference :: "string \<Rightarrow> device_reference" where
  "parse_device_reference value =
     (if starts_with value ''UUID='' then \<lparr>dr_kind = By_uuid, dr_value = drop 5 value\<rparr>
      else if starts_with value ''PARTUUID='' then \<lparr>dr_kind = By_partuuid, dr_value = drop 9 value\<rparr>
      else if starts_with value ''/dev/'' then \<lparr>dr_kind = By_path, dr_value = value\<rparr>
      else \<lparr>dr_kind = By_unknown, dr_value = value\<rparr>)"

definition parse_cryptdevice :: "string \<Rightarrow> encryption_mapping option" where
  "parse_cryptdevice value =
     (case find_char (CHR '':'') value of
        None \<Rightarrow> None
      | Some separator \<Rightarrow>
          let source = parse_device_reference (take separator value);
              mapper = takeWhile (\<lambda>c. c \<noteq> CHR '':'') (drop (separator + 1) value) in
          if dr_kind source = By_unknown \<or> dr_value source = [] then None
          else if mapper = [] then None
          else Some \<lparr>em_source = source, em_mapper = mapper\<rparr>)"

definition parse_rd_luks_name :: "string \<Rightarrow> encryption_mapping option" where
  "parse_rd_luks_name value =
     (let uuid = (case find_char (CHR ''='') value of None \<Rightarrow> value | Some i \<Rightarrow> take i value) in
      if \<not> valid_uuid uuid then None
      else Some \<lparr>em_source = \<lparr>dr_kind = By_uuid, dr_value = uuid\<rparr>,
                 em_mapper = (case find_char (CHR ''='') value of None \<Rightarrow> [] | Some i \<Rightarrow> drop (i + 1) value)\<rparr>)"

definition same_device_path :: "file_system \<Rightarrow> path \<Rightarrow> path \<Rightarrow> bool" where
  "same_device_path fs l r \<longleftrightarrow> l \<noteq> [] \<and> r \<noteq> [] \<and> path_eq (fs_canonical fs l) (fs_canonical fs r)"

definition mapping_identifies_root :: "encryption_mapping \<Rightarrow> string \<Rightarrow> string \<Rightarrow> string \<Rightarrow> string \<Rightarrow> file_system \<Rightarrow> bool" where
  "mapping_identifies_root mapping mapper_name uuid backing_partuuid backing fs \<longleftrightarrow>
     em_mapper mapping \<noteq> [] \<and> em_mapper mapping = mapper_name \<or>
     (case dr_kind (em_source mapping) of
        By_uuid \<Rightarrow> same_uuid (dr_value (em_source mapping)) uuid
      | By_partuuid \<Rightarrow> same_uuid (dr_value (em_source mapping)) backing_partuuid
      | By_path \<Rightarrow> same_device_path fs (dr_value (em_source mapping)) backing
      | By_unknown \<Rightarrow> False)"

section \<open>The checks\<close>

definition validate_file :: "file_system \<Rightarrow> path \<Rightarrow> string \<Rightarrow> string \<Rightarrow> validation_report \<Rightarrow> validation_report" where
  "validate_file fs p c label =
     (if \<not> fs_readable fs p then report_error c (label @ '' is missing or unreadable: '' @ p)
      else report_info c (label @ '' found: '' @ p))"

definition report_if :: "bool \<Rightarrow> (validation_report \<Rightarrow> validation_report) \<Rightarrow> validation_report \<Rightarrow> validation_report" where
  "report_if b f = (if b then f else id)"

definition unhashed :: "secure_boot_info \<Rightarrow> path \<Rightarrow> bool" where
  "unhashed sb p \<longleftrightarrow> (case find_hash (resource_hashes sb) p of None \<Rightarrow> True | Some h \<Rightarrow> h = [])"

definition validate_hash :: "secure_boot_info \<Rightarrow> path \<Rightarrow> validation_report \<Rightarrow> validation_report" where
  "validate_hash sb p = report_if (unhashed sb p) (report_error ''secure_boot.hash'' (''Unable to calculate BLAKE2b for '' @ p))"

definition validate_kernel_hashes :: "secure_boot_info \<Rightarrow> kernel_installation \<Rightarrow> validation_report \<Rightarrow> validation_report" where
  "validate_kernel_hashes sb k r =
     fold (validate_hash sb) (initrds k) (report_if (\<not> unified_kernel_image k) (validate_hash sb (image k)) r)"

definition validate_secure_boot :: "system_info \<Rightarrow> app_config \<Rightarrow> validation_report \<Rightarrow> validation_report" where
  "validate_secure_boot sys config r =
     (let sb = secure_boot sys in
      if sb_enabled sb then
        (let r = report_info ''secure_boot.enabled'' ''UEFI Secure Boot is enabled'' r;
             r = report_if (\<not> secure_boot_protect_config config) (report_error ''secure_boot.protection_disabled''
                   ''Secure Boot is enabled but protected Limine configuration generation is disabled'') r;
             r = report_if (\<not> sbctl_available sb)
                   (report_error ''secure_boot.sbctl'' ''sbctl is required when Secure Boot is enabled'') r;
             r = report_if (\<not> limine_available sb)
                   (report_error ''secure_boot.limine'' ''limine enroll-config is unavailable'') r;
             r = report_if (\<not> sbattach_available sb) (report_error ''secure_boot.sbattach''
                   ''sbattach from sbsigntools is required to safely re-sign the Limine EFI executable'') r;
             r = (if efi_executable sb = [] then
                    report_error ''secure_boot.efi'' ''Unable to locate the active Limine EFI executable'' r
                  else if efi_signature sb = Unsigned_file then
                    report_error ''secure_boot.signature''
                      (''Limine EFI executable is not verified by sbctl: '' @ efi_executable sb) r
                  else if efi_signature sb = Unavailable then
                    report_warning ''secure_boot.signature_unavailable''
                      (''Unable to verify the Limine EFI signature without sufficient privileges; '' @
                       ''run limine-manager with sudo before applying changes'') r
                  else r) in
         fold (validate_kernel_hashes sb) (kernels sys) r)
      else report_info ''secure_boot.disabled'' ''UEFI Secure Boot is disabled or not detected'' r)"

definition validate_root :: "system_info \<Rightarrow> validation_report \<Rightarrow> validation_report" where
  "validate_root sys r =
     (let r = (if root_fstype sys \<noteq> ''btrfs'' then
                 report_error ''root.filesystem'' (''Root filesystem must be Btrfs; detected '' @ root_fstype sys) r
               else report_info ''root.filesystem'' ''Root filesystem is Btrfs'' r) in
      if root_subvolume sys = [] then report_error ''root.subvolume'' ''Unable to detect the root Btrfs subvolume'' r
      else report_info ''root.subvolume'' (''Root subvolume is '' @ root_subvolume sys) r)"

definition validate_boot_mount :: "system_info \<Rightarrow> validation_report \<Rightarrow> validation_report" where
  "validate_boot_mount sys =
     (if boot_target sys \<noteq> si_boot_mount sys then
        report_error ''boot.mount'' (si_boot_mount sys @ '' is not detected as an independent mount target'')
      else report_info ''boot.mount''
        (''Boot mount detected at '' @ boot_target sys @ '' from '' @ boot_source sys @ '' ('' @ boot_fstype sys @ '')''))"

definition validate_cmdline :: "file_system \<Rightarrow> system_info \<Rightarrow> validation_report \<Rightarrow> validation_report" where
  "validate_cmdline fs sys r =
     (let r = validate_file fs (si_limine_config sys) ''limine.config'' ''Limine configuration'' r;
          r = (if kernel_cmdline_generated sys then
                 report_info ''kernel.cmdline_file''
                   (''Kernel command line generated automatically because '' @ si_kernel_cmdline_file sys @
                    '' is missing or empty'') r
               else validate_file fs (si_kernel_cmdline_file sys) ''kernel.cmdline_file'' ''Kernel command line file'' r) in
      if cmdline_empty (kernel_cmdline sys) then report_error ''kernel.cmdline'' ''Kernel command line is empty'' r
      else report_info ''kernel.cmdline''
        (''Kernel command line parsed into '' @ dec (length (arguments (kernel_cmdline sys))) @ '' argument(s)'') r)"

definition is_initramfs :: "kernel_installation \<Rightarrow> path \<Rightarrow> bool" where
  "is_initramfs k p \<longleftrightarrow> path_eq (filename p) (''initramfs-'' @ package_base k @ ''.img'')"

definition validate_modules :: "file_system \<Rightarrow> kernel_installation \<Rightarrow> validation_report \<Rightarrow> validation_report" where
  "validate_modules fs k r =
     fold (\<lambda>(index, p). validate_file fs p (''kernel.'' @ package_base k @ ''.module.'' @ dec index) (display_name k @ '' module''))
       (zip [0..<length (initrds k)] (initrds k)) r"

definition validate_kernel :: "file_system \<Rightarrow> system_info \<Rightarrow> kernel_installation \<Rightarrow> validation_report \<Rightarrow> validation_report" where
  "validate_kernel fs sys k r =
     (let pre = ''kernel.'' @ package_base k;
          r = validate_file fs (image k) (pre @ ''.image'') (display_name k @ '' image'') r;
          r = (if release k = [] then
                 report_warning (pre @ ''.release'')
                   (''Unable to map '' @ package_base k @ '' to a release under /usr/lib/modules'') r
               else report_info (pre @ ''.release'') (display_name k @ '' release is '' @ release k) r) in
      if unified_kernel_image k then report_info (pre @ ''.uki'') (''Unified Kernel Image detected: '' @ image k) r
      else
        (let r = report_if (initrds k = [])
                   (report_error (pre @ ''.initrd'') (''No initramfs image discovered for '' @ display_name k)) r;
             r = validate_modules fs k r in
         report_if (\<not> list_ex (is_initramfs k) (initrds k))
           (report_error (pre @ ''.initramfs'') (''No matching initramfs was discovered under '' @ si_boot_mount sys)) r))"

definition validate_kernels :: "file_system \<Rightarrow> system_info \<Rightarrow> validation_report \<Rightarrow> validation_report" where
  "validate_kernels fs sys r =
     (if kernels sys = [] then
        report_error ''kernel.discovery''
          (''No kernel images matching vmlinuz-* were discovered in '' @ si_boot_mount sys) r
      else
        (let r = report_info ''kernel.discovery''
                   (''Discovered '' @ dec (length (kernels sys)) @ '' kernel installation(s)'') r;
             r = fold (validate_kernel fs sys) (kernels sys) r in
         if \<not> list_ex running (kernels sys) then
           report_warning ''kernel.running''
             (''Running release '' @ running_kernel_release sys @ '' was not mapped to a discovered kernel image'') r
         else report_info ''kernel.running'' ''Running release mapped to a discovered kernel image'' r))"

definition uuid_root :: "system_info \<Rightarrow> string" where
  "uuid_root sys = (if root_uuid sys = [] then [] else ''UUID='' @ root_uuid sys)"

definition validate_root_option :: "system_info \<Rightarrow> validation_report \<Rightarrow> validation_report" where
  "validate_root_option sys =
     (case cmdline_value (kernel_cmdline sys) ''root'' of
        None \<Rightarrow> report_error ''kernel.root'' ''Kernel command line has no root= option''
      | Some root \<Rightarrow>
          if root \<noteq> normalize_mount_source (root_source sys) \<and> (uuid_root sys = [] \<or> root \<noteq> uuid_root sys) then
            report_error ''kernel.root''
              (''Kernel root= option ('' @ [SQUOTE] @ root @ [SQUOTE] @ '') does not match the mounted root source ('' @
               [SQUOTE] @ root_source sys @ [SQUOTE] @ '') or its filesystem UUID'')
          else report_info ''kernel.root'' ''Kernel root= option identifies the mounted root filesystem'')"

definition mapper_of :: "system_info \<Rightarrow> string" where
  "mapper_of sys =
     (if root_mapper_name sys = [] then filename (normalize_mount_source (root_source sys)) else root_mapper_name sys)"

definition maps_root :: "file_system \<Rightarrow> system_info \<Rightarrow> (string \<Rightarrow> encryption_mapping option) \<Rightarrow> string list \<Rightarrow> bool" where
  "maps_root fs sys reader values \<longleftrightarrow>
     list_ex (\<lambda>value. case reader value of
        None \<Rightarrow> False
      | Some mapping \<Rightarrow> mapping_identifies_root mapping (mapper_of sys) (luks_uuid sys) (encrypted_backing_partuuid sys)
          (encrypted_backing_device sys) fs) values"

definition validate_encryption :: "file_system \<Rightarrow> system_info \<Rightarrow> validation_report \<Rightarrow> validation_report" where
  "validate_encryption fs sys =
     (let cryptdevices = cmdline_values (kernel_cmdline sys) ''cryptdevice'';
          rd_luks_names = cmdline_values (kernel_cmdline sys) ''rd.luks.name'' in
      if \<not> root_encrypted sys then
        (if cryptdevices \<noteq> [] \<or> rd_luks_names \<noteq> [] then
           report_warning ''kernel.encryption''
             (''Encryption parameters are present although the mounted root is not a '' @ ''dm-crypt mapping'')
         else report_info ''kernel.encryption'' ''Root filesystem is not encrypted'')
      else if maps_root fs sys parse_cryptdevice cryptdevices then
        report_info ''kernel.encryption'' (''cryptdevice= maps the encrypted root as '' @ mapper_of sys)
      else if maps_root fs sys parse_rd_luks_name rd_luks_names then
        report_info ''kernel.encryption'' (''rd.luks.name= maps the encrypted root as '' @ mapper_of sys)
      else if cryptdevices = [] \<and> rd_luks_names = [] then
        report_error ''kernel.encryption''
          (''Kernel command line defines neither cryptdevice= nor rd.luks.name= for mapper '' @ mapper_of sys)
      else report_error ''kernel.encryption''
          (''Kernel encryption options do not map the encrypted root as '' @ mapper_of sys))"

definition validate_rootflags :: "system_info \<Rightarrow> validation_report \<Rightarrow> validation_report" where
  "validate_rootflags sys =
     (let rootflags = cmdline_value (kernel_cmdline sys) ''rootflags'' in
      if rootflags \<noteq> Some (''subvol='' @ root_subvolume sys) then
        report_error ''kernel.rootflags''
          (''Kernel rootflags ('' @ [SQUOTE] @ (case rootflags of None \<Rightarrow> [] | Some f \<Rightarrow> f) @ [SQUOTE] @
           '') does not match subvol='' @ root_subvolume sys)
      else report_info ''kernel.rootflags'' (''Kernel rootflags matches subvol='' @ root_subvolume sys))"

definition validate_snapper :: "snapper_config_info \<Rightarrow> app_config \<Rightarrow> validation_report \<Rightarrow> validation_report" where
  "validate_snapper sc config =
     (if sc_subvolume sc \<noteq> ''/'' then
        report_error ''snapper.subvolume''
          (''Snapper config '' @ [SQUOTE] @ snapper_config config @ [SQUOTE] @ '' manages '' @ [SQUOTE] @ sc_subvolume sc @
           [SQUOTE] @ '', expected '' @ [SQUOTE] @ ''/'' @ [SQUOTE])
      else report_info ''snapper.subvolume'' (''Snapper config '' @ [SQUOTE] @ snapper_config config @ [SQUOTE] @ '' manages /''))"

definition snapshot_path :: "app_config \<Rightarrow> snapshot_info \<Rightarrow> path" where
  "snapshot_path config s = path_append (path_append (snapshots_directory config) (dec (unat (number s)))) ''snapshot''"

definition validate_snapshot :: "file_system \<Rightarrow> app_config \<Rightarrow> snapshot_info \<Rightarrow> validation_report \<Rightarrow> validation_report" where
  "validate_snapshot fs config s r =
     (let r = report_if (\<not> fs_is_directory fs (snapshot_path config s))
                (report_error ''snapshot.path''
                  (''Snapshot #'' @ dec (unat (number s)) @ '' is not accessible at '' @ snapshot_path config s)) r in
      report_if (\<not> read_only s)
        (report_warning ''snapshot.read_only'' (''Snapshot #'' @ dec (unat (number s)) @ '' is read-write'')) r)"

definition validate_snapshots :: "file_system \<Rightarrow> app_config \<Rightarrow> snapshot_info list \<Rightarrow> validation_report \<Rightarrow> validation_report" where
  "validate_snapshots fs config snapshots r =
     (let r = report_if (snapshots = []) (report_warning ''snapper.snapshots'' ''Snapper returned no bootable snapshots'') r;
          r = fold (validate_snapshot fs config) snapshots r;
          missing = length (filter (\<lambda>s. \<not> fs_is_directory fs (snapshot_path config s)) snapshots) in
      report_if (snapshots \<noteq> [] \<and> missing = 0)
        (report_info ''snapshot.paths'' (''All '' @ dec (length snapshots) @ '' snapshot paths are accessible'')) r)"

definition validate ::
  "file_system \<Rightarrow> system_info \<Rightarrow> snapper_config_info \<Rightarrow> snapshot_info list \<Rightarrow> app_config \<Rightarrow> validation_report" where
  "validate fs sys sc snapshots config =
     (let r = validate_secure_boot sys config empty_report;
          r = validate_root sys r;
          r = validate_boot_mount sys r;
          r = validate_cmdline fs sys r;
          r = validate_kernels fs sys r;
          r = validate_root_option sys r;
          r = validate_encryption fs sys r;
          r = validate_rootflags sys r;
          r = validate_snapper sc config r in
      validate_snapshots fs config snapshots r)"

section \<open>What a report without errors says\<close>

lemma valid_report_if [report_simps]:
  "valid (report_if b (report_error c m) r) \<longleftrightarrow> \<not> b \<and> valid r"
  "valid (report_if b (report_warning c m) r) \<longleftrightarrow> valid r"
  "valid (report_if b (report_info c m) r) \<longleftrightarrow> valid r"
  by (simp_all add: report_if_def report_simps)

lemma valid_fold:
  assumes "\<And>x r. valid (f x r) \<longleftrightarrow> P x \<and> valid r"
  shows "valid (fold f xs r) \<longleftrightarrow> list_all P xs \<and> valid r"
  using assms by (induction xs arbitrary: r) auto

lemma valid_file: "valid (validate_file fs p c l r) \<longleftrightarrow> fs_readable fs p \<and> valid r"
  by (simp add: validate_file_def report_simps)

definition kernel_hashed :: "secure_boot_info \<Rightarrow> kernel_installation \<Rightarrow> bool" where
  "kernel_hashed sb k \<longleftrightarrow> (unified_kernel_image k \<or> \<not> unhashed sb (image k)) \<and> list_all (\<lambda>p. \<not> unhashed sb p) (initrds k)"

lemma valid_kernel_hashes: "valid (validate_kernel_hashes sb k r) \<longleftrightarrow> kernel_hashed sb k \<and> valid r"
proof -
  have "valid (validate_hash sb p r) \<longleftrightarrow> \<not> unhashed sb p \<and> valid r" for p r
    by (simp add: validate_hash_def report_simps)
  then show ?thesis
    by (auto simp: validate_kernel_hashes_def kernel_hashed_def valid_fold report_if_def)
qed

definition secure_boot_ready :: "system_info \<Rightarrow> app_config \<Rightarrow> bool" where
  "secure_boot_ready sys config \<longleftrightarrow>
     (let sb = secure_boot sys in
      sb_enabled sb \<longrightarrow>
        secure_boot_protect_config config \<and> sbctl_available sb \<and> limine_available sb \<and> sbattach_available sb \<and>
        efi_executable sb \<noteq> [] \<and> efi_signature sb \<noteq> Unsigned_file \<and> list_all (kernel_hashed sb) (kernels sys))"

lemma valid_secure_boot: "valid (validate_secure_boot sys config r) \<longleftrightarrow> secure_boot_ready sys config \<and> valid r"
  by (auto simp: validate_secure_boot_def secure_boot_ready_def Let_def report_simps valid_fold valid_kernel_hashes)

definition kernel_ready :: "file_system \<Rightarrow> kernel_installation \<Rightarrow> bool" where
  "kernel_ready fs k \<longleftrightarrow>
     fs_readable fs (image k) \<and>
     (unified_kernel_image k \<or> list_all (fs_readable fs) (initrds k) \<and> list_ex (is_initramfs k) (initrds k))"

lemma valid_modules: "valid (validate_modules fs k r) \<longleftrightarrow> list_all (fs_readable fs) (initrds k) \<and> valid r"
proof -
  have "valid (fold (\<lambda>(index, p). validate_file fs p (c index) l) (zip [n..<n + length ps] ps) r) \<longleftrightarrow>
      list_all (fs_readable fs) ps \<and> valid r" for c l n ps r
  proof (induction ps arbitrary: n r)
    case (Cons p ps)
    have "[n..<n + length (p # ps)] = n # [Suc n..<Suc n + length ps]" by (simp add: upt_rec)
    then show ?case using Cons.IH [of "Suc n"] by (auto simp: valid_file)
  qed simp
  from this [of _ _ 0] show ?thesis by (simp add: validate_modules_def)
qed

lemma valid_kernel: "valid (validate_kernel fs sys k r) \<longleftrightarrow> kernel_ready fs k \<and> valid r"
proof -
  have "list_ex (is_initramfs k) (initrds k) \<Longrightarrow> initrds k \<noteq> []" by auto
  then show ?thesis
    by (auto simp: validate_kernel_def Let_def kernel_ready_def report_simps valid_file valid_modules)
qed

definition root_option_ready :: "system_info \<Rightarrow> bool" where
  "root_option_ready sys \<longleftrightarrow>
     (case cmdline_value (kernel_cmdline sys) ''root'' of
        None \<Rightarrow> False
      | Some root \<Rightarrow> root = normalize_mount_source (root_source sys) \<or> root_uuid sys \<noteq> [] \<and> root = ''UUID='' @ root_uuid sys)"

definition encryption_ready :: "file_system \<Rightarrow> system_info \<Rightarrow> bool" where
  "encryption_ready fs sys \<longleftrightarrow>
     (root_encrypted sys \<longrightarrow>
        maps_root fs sys parse_cryptdevice (cmdline_values (kernel_cmdline sys) ''cryptdevice'') \<or>
        maps_root fs sys parse_rd_luks_name (cmdline_values (kernel_cmdline sys) ''rd.luks.name''))"

lemma valid_options:
  "valid (validate_root_option sys r) \<longleftrightarrow> root_option_ready sys \<and> valid r"
  "valid (validate_encryption fs sys r) \<longleftrightarrow> encryption_ready fs sys \<and> valid r"
  "valid (validate_rootflags sys r) \<longleftrightarrow>
     cmdline_value (kernel_cmdline sys) ''rootflags'' = Some (''subvol='' @ root_subvolume sys) \<and> valid r"
  "valid (validate_snapper sc config r) \<longleftrightarrow> sc_subvolume sc = ''/'' \<and> valid r"
  by (auto simp: validate_root_option_def root_option_ready_def uuid_root_def validate_encryption_def encryption_ready_def
      validate_rootflags_def validate_snapper_def Let_def report_simps split: option.splits)

lemma valid_host:
  "valid (validate_root sys r) \<longleftrightarrow> root_fstype sys = ''btrfs'' \<and> root_subvolume sys \<noteq> [] \<and> valid r"
  "valid (validate_boot_mount sys r) \<longleftrightarrow> boot_target sys = si_boot_mount sys \<and> valid r"
  "valid (validate_cmdline fs sys r) \<longleftrightarrow>
     fs_readable fs (si_limine_config sys) \<and> (kernel_cmdline_generated sys \<or> fs_readable fs (si_kernel_cmdline_file sys)) \<and>
     arguments (kernel_cmdline sys) \<noteq> [] \<and> valid r"
  "valid (validate_kernels fs sys r) \<longleftrightarrow> kernels sys \<noteq> [] \<and> list_all (kernel_ready fs) (kernels sys) \<and> valid r"
  by (auto simp: validate_root_def validate_boot_mount_def validate_cmdline_def validate_kernels_def Let_def cmdline_empty_def
      report_simps valid_file valid_fold valid_kernel)

lemma valid_snapshots:
  "valid (validate_snapshots fs config snapshots r) \<longleftrightarrow>
     list_all (\<lambda>s. fs_is_directory fs (snapshot_path config s)) snapshots \<and> valid r"
proof -
  have "valid (validate_snapshot fs config s r) \<longleftrightarrow> fs_is_directory fs (snapshot_path config s) \<and> valid r" for s r
    by (simp add: validate_snapshot_def Let_def report_simps)
  then show ?thesis by (simp add: validate_snapshots_def Let_def report_simps valid_fold)
qed

definition host_ready ::
  "file_system \<Rightarrow> system_info \<Rightarrow> snapper_config_info \<Rightarrow> snapshot_info list \<Rightarrow> app_config \<Rightarrow> bool" where
  "host_ready fs sys sc snapshots config \<longleftrightarrow>
     root_fstype sys = ''btrfs'' \<and> root_subvolume sys \<noteq> [] \<and> boot_target sys = si_boot_mount sys \<and>
     fs_readable fs (si_limine_config sys) \<and>
     (kernel_cmdline_generated sys \<or> fs_readable fs (si_kernel_cmdline_file sys)) \<and>
     arguments (kernel_cmdline sys) \<noteq> [] \<and>
     kernels sys \<noteq> [] \<and> list_all (kernel_ready fs) (kernels sys) \<and>
     root_option_ready sys \<and> encryption_ready fs sys \<and>
     cmdline_value (kernel_cmdline sys) ''rootflags'' = Some (''subvol='' @ root_subvolume sys) \<and>
     sc_subvolume sc = ''/'' \<and> list_all (\<lambda>s. fs_is_directory fs (snapshot_path config s)) snapshots \<and>
     secure_boot_ready sys config"

lemma validate_valid: "valid (validate fs sys sc snapshots config) \<longleftrightarrow> host_ready fs sys sc snapshots config"
  by (auto simp: validate_def Let_def valid_snapshots valid_options valid_host valid_secure_boot valid_empty host_ready_def)

text \<open>
  C9: a validation report is free of errors exactly when the host is ready, \<open>host_ready\<close> being one
  condition over the detected facts with no report in it: Btrfs root, separate boot mount, every kernel
  and ramdisk readable, the kernel command line naming the mounted root, its mapping and its subvolume,
  Snapper managing the root, every snapshot present, and under Secure Boot the tools, a signed
  executable and a hash for every file.
\<close>

theorem validate_iff_host_ready:
  "valid (validate fs sys sc snapshots config) = host_ready fs sys sc snapshots config"
  by (rule validate_valid)

section \<open>A validated menu under Secure Boot\<close>

fun linux_specs :: "menu_node \<Rightarrow> linux_boot_spec list" where
  "linux_specs (MenuNode k t c e b children) =
     (case b of None \<Rightarrow> [] | Some spec \<Rightarrow> [spec]) @ concat (map linux_specs children)"

text \<open>A path of the menu that carries the hash computed for some file.\<close>

definition pinned :: "system_info \<Rightarrow> string \<Rightarrow> bool" where
  "pinned sys p \<longleftrightarrow>
     (\<exists>file location h. find_hash (resource_hashes (secure_boot sys)) file = Some h \<and> h \<noteq> [] \<and>
        p = ''boot():/'' @ location @ ''#'' @ h)"

lemma limine_path_pinned:
  assumes "sb_enabled (secure_boot sys)" "\<not> unhashed (secure_boot sys) p"
  shows "pinned sys (limine_path canon mount p sys True)"
proof -
  from assms(2) obtain h where h: "find_hash (resource_hashes (secure_boot sys)) p = Some h" "h \<noteq> []"
    by (auto simp: unhashed_def split: option.splits)
  have "\<exists>location. limine_path canon mount p sys True = ''boot():/'' @ location @ ''#'' @ h"
    using h assms(1) by (auto simp: limine_path_def Let_def)
  with h show ?thesis unfolding pinned_def by blast
qed


text \<open>A host that passes every check, with Secure Boot on.\<close>

definition sample_kernel :: kernel_installation where
  "sample_kernel = \<lparr>package_base = ''linux'', release = ''6.1'', display_name = ''Linux'', image = ''/boot/vmlinuz-linux'',
     initrds = [''/boot/initramfs-linux.img''], unified_kernel_image = False, running = True\<rparr>"

definition ready_host :: system_info where
  "ready_host = empty_system_info\<lparr>si_boot_mount := ''/boot'', boot_target := ''/boot'', si_limine_config := ''/boot/limine.conf'',
     kernel_cmdline := \<lparr>arguments = [''root=/dev/sda2'', ''rootflags=subvol=@'']\<rparr>, kernel_cmdline_generated := True,
     kernels := [sample_kernel], root_source := ''/dev/sda2[/@]'', root_fstype := ''btrfs'', root_subvolume := ''@'',
     secure_boot := default_secure_boot\<lparr>sb_enabled := True, sbctl_available := True, limine_available := True,
       sbattach_available := True, efi_executable := ''/boot/limine.efi'', efi_signature := Verified,
       resource_hashes := [(''/boot/vmlinuz-linux'', ''ab''), (''/boot/initramfs-linux.img'', ''cd'')]\<rparr>\<rparr>"

definition open_file_system :: file_system where
  "open_file_system = \<lparr>fs_exists = (\<lambda>_. True), fs_is_regular_file = (\<lambda>_. True), fs_is_directory = (\<lambda>_. False),
     fs_readable = (\<lambda>_. True), fs_read_text = (\<lambda>_. []), fs_list_directory = (\<lambda>_. []), fs_canonical = id\<rparr>"

lemma ready_host_valid:
  "valid (validate open_file_system ready_host \<lparr>sc_name = ''root'', sc_subvolume = ''/'', sc_filesystem_type = ''btrfs''\<rparr> [] default_config)"
proof -
  have "host_ready open_file_system ready_host \<lparr>sc_name = ''root'', sc_subvolume = ''/'', sc_filesystem_type = ''btrfs''\<rparr> [] default_config"
    by code_simp
  then show ?thesis by (simp add: validate_valid)
qed


end
