(* ===== verification/Status_Service.thy ===== *)
theory Status_Service
  imports Report System_Model Change_Plan Backup_Service
begin

text \<open>
The status report (src/application/status_service.cpp,
  include/limine_manager/application/status_service.hpp): \<open>build_status\<close> is \<open>StatusService::build\<close>, one
  definition for each section of the text.
\<close>

record status_report =
  status_text :: string
  healthy :: bool
  degraded :: bool
  changes_pending :: bool

definition yes_no :: "bool \<Rightarrow> string" where
  "yes_no b = (if b then ''yes'' else ''no'')"

definition line :: "string \<Rightarrow> string" where
  "line s = s @ [NL]"

definition encryption_metadata_incomplete :: "system_info \<Rightarrow> bool" where
  "encryption_metadata_incomplete sys \<longleftrightarrow>
     root_encrypted sys \<and> (encrypted_backing_device sys = [] \<or> luks_uuid sys = [])"

definition large_snapshot_menu :: "system_model \<Rightarrow> bool" where
  "large_snapshot_menu m \<longleftrightarrow> 100 < length (selected (model_snapshots m))"

definition status_degraded :: "system_model \<Rightarrow> validation_report \<Rightarrow> bool" where
  "status_degraded m report \<longleftrightarrow>
     valid report \<and> (encryption_metadata_incomplete (model_system m) \<or> large_snapshot_menu m)"

definition status_overall :: "system_model \<Rightarrow> validation_report \<Rightarrow> change_plan \<Rightarrow> string" where
  "status_overall m report plan =
     line ''limine-manager status'' @ line [] @ line ''Overall'' @
     line (''  '' @ (if \<not> valid report then ''[FAIL]'' else if status_degraded m report then ''[WARN]'' else ''[OK]'') @
           '' System health: '' @
           (if \<not> valid report then ''unhealthy'' else if status_degraded m report then ''degraded'' else ''healthy'')) @
     line (''  '' @ (if has_changes plan then ''[NOTICE] Configuration: changes pending'' else ''[OK] Configuration: synchronized'')) @
     line (''  Errors: '' @ dec (error_count report)) @
     line (''  Warnings: '' @ dec (warning_count report +
        (if encryption_metadata_incomplete (model_system m) then 1 else 0) + (if large_snapshot_menu m then 1 else 0))) @
     line []"

definition status_system :: "system_info \<Rightarrow> string" where
  "status_system sys =
     line ''System'' @ line (''  OS: '' @ os_name sys) @ line (''  Root filesystem: '' @ root_fstype sys) @
     line (''  Root device: '' @ takeWhile (\<lambda>c. c \<noteq> CHR ''['') (root_source sys)) @
     line (''  Root subvolume: '' @ root_subvolume sys) @ line (''  Encrypted: '' @ yes_no (root_encrypted sys)) @
     (if root_encrypted sys then
        line (''  Mapper: '' @ root_mapper_name sys) @ line (''  Backing device: '' @ encrypted_backing_device sys) @
        line (''  LUKS UUID: '' @ luks_uuid sys) @ line (''  Backing PARTUUID: '' @ encrypted_backing_partuuid sys)
      else [])"

definition status_boot :: "system_info \<Rightarrow> string" where
  "status_boot sys =
     line [] @ line ''Boot'' @ line (''  Mount: '' @ si_boot_mount sys) @
     line (''  Device: '' @ boot_source sys @ '' ('' @ boot_fstype sys @ '')'') @
     line (''  Limine configuration: '' @ si_limine_config sys) @
     line (''  Command line source: '' @ (if kernel_cmdline_generated sys then ''generated'' else si_kernel_cmdline_file sys))"

definition status_kernel :: "kernel_installation \<Rightarrow> string" where
  "status_kernel k =
     line (''  '' @ (if running k then ''*'' else ''-'') @ '' '' @ display_name k @
       (if release k \<noteq> [] then '' '' @ release k else []) @
       '' ['' @ (if unified_kernel_image k then ''UKI'' else ''kernel+initramfs'') @ '']'') @
     line (''    '' @ image k)"

definition status_kernels :: "system_info \<Rightarrow> string" where
  "status_kernels sys =
     line [] @ line ''Kernels'' @ concat (map status_kernel (kernels sys)) @
     (if kernels sys = [] then line ''  none detected'' else [])"

definition status_snapshots :: "system_model \<Rightarrow> string" where
  "status_snapshots m =
     line [] @ line ''Snapshots'' @
     line (''  Snapper config: '' @ sc_name (model_snapper m) @ '' ('' @ sc_subvolume (model_snapper m) @ '')'') @
     line (''  Available snapshots: '' @ dec (length (available (model_snapshots m)))) @
     line (''  Menu snapshots: '' @ dec (length (selected (model_snapshots m)))) @
     line (''  Maximum configured: '' @
       (if maximum (model_snapshots m) = 0 then ''unlimited'' else dec (unat (maximum (model_snapshots m))))) @
     (if large_snapshot_menu m then line ''  [WARNING] Large snapshot menu'' else [])"

definition status_configuration :: "change_plan \<Rightarrow> backup_info list \<Rightarrow> app_config \<Rightarrow> string" where
  "status_configuration plan backups config =
     line [] @ line ''Configuration'' @
     line (''  State: '' @ (if has_changes plan then ''changes pending'' else ''synchronized'')) @
     line (''  Theme: '' @ theme_name config) @ line (''  Backups: '' @ dec (length backups)) @
     line (''  Retention: '' @ dec (unat (backup_retention config))) @
     (case backups of [] \<Rightarrow> [] | b # _ \<Rightarrow> line (''  Latest backup: '' @ bi_path b))"

definition problem_line :: "diagnostic \<Rightarrow> string" where
  "problem_line item = line (''  ['' @ severity_to_string (severity item) @ ''] '' @ code item @ '': '' @ message item)"

definition status_problems :: "system_model \<Rightarrow> validation_report \<Rightarrow> string" where
  "status_problems m report =
     (if \<not> valid report \<or> encryption_metadata_incomplete (model_system m) \<or> large_snapshot_menu m then
        line [] @ line ''Problems'' @
        (if encryption_metadata_incomplete (model_system m) then
           line (''  [WARNING] encryption.discovery: Encrypted root detected, but backing device '' @ ''metadata is incomplete.'')
         else []) @
        (if large_snapshot_menu m then
           line (''  [WARNING] snapshots.menu: More than 100 selected snapshots will produce a '' @ ''large Limine menu.'')
         else []) @
        concat (map problem_line (filter (\<lambda>item. severity item \<noteq> Info) (diagnostics report)))
      else [])"

definition build_status ::
  "system_model \<Rightarrow> validation_report \<Rightarrow> change_plan \<Rightarrow> backup_info list \<Rightarrow> app_config \<Rightarrow> status_report" where
  "build_status m report plan backups config =
     \<lparr>status_text = status_overall m report plan @ status_system (model_system m) @ status_boot (model_system m) @
        status_kernels (model_system m) @ status_snapshots m @ status_configuration plan backups config @
        status_problems m report,
      healthy = valid report, degraded = status_degraded m report, changes_pending = has_changes plan\<rparr>"

text \<open>No error is left out: each is a line of the text.\<close>

lemma status_lists_errors:
  assumes "d \<in> set (diagnostics report)" "severity d = Error"
  shows "contains_sub (status_text (build_status m report plan backups config)) (problem_line d)"
proof -
  have "\<not> valid report" using assms by (auto simp: valid_iff_no_error)
  moreover have "sublist (problem_line d) (concat (map problem_line (filter (\<lambda>i. severity i \<noteq> Info) (diagnostics report))))"
    using assms split_list [of d "filter (\<lambda>i. severity i \<noteq> Info) (diagnostics report)"] by auto
  moreover have later: "sublist x b \<Longrightarrow> sublist x (a @ b)" for x a b :: string
    by (metis sublist_append_leftI sublist_order.order_trans)
  ultimately have "sublist (problem_line d) (status_problems m report)"
    unfolding status_problems_def by (simp only: simp_thms if_True)
  then show ?thesis by (simp add: build_status_def contains_sub_iff later)
qed

end
