(* ===== verification/Automation.thy ===== *)
theory Automation
  imports Apply_Liveness Real_File_System
begin

text \<open>
The automation services (src/application/automation.cpp,
  include/limine_manager/application/automation.hpp): the events of the Snapper plugin and the marker file
  through which a refresh is requested, \<open>RefreshRequestService\<close>, over the calls of theory Posix.

  \<open>grows\<close> relates two states when names were only added; the last section says when the marker is
  present after each operation, whatever calls fail.
\<close>

section \<open>Snapper events\<close>

record snapper_plugin_event =
  ev_action :: string
  ev_subvolume :: string
  ev_fstype :: string
  ev_extra_arguments :: "string list"

definition is_relevant_action :: "string \<Rightarrow> bool" where
  "is_relevant_action action \<longleftrightarrow>
     action = ''create-snapshot-post'' \<or> action = ''modify-snapshot-post'' \<or> action = ''delete-snapshot-post'' \<or>
     action = ''set-read-only-post'' \<or> action = ''rollback-post''"

definition parse_snapper_plugin_event :: "string list \<Rightarrow> snapper_plugin_event" where
  "parse_snapper_plugin_event args =
     \<lparr>ev_action = (if args \<noteq> [] then args ! 0 else []), ev_subvolume = (if 1 < length args then args ! 1 else []),
      ev_fstype = (if 2 < length args then args ! 2 else []),
      ev_extra_arguments = (if 3 < length args then drop 3 args else [])\<rparr>"

definition is_relevant_snapper_event :: "snapper_plugin_event \<Rightarrow> string \<Rightarrow> bool" where
  "is_relevant_snapper_event event expected_subvolume \<longleftrightarrow>
     is_relevant_action (ev_action event) \<and> ev_subvolume event = expected_subvolume \<and> ev_fstype event = ''btrfs''"

section \<open>The pending marker\<close>

text \<open>Calls that follow a symbolic link at the end of a path, forty of them at most.\<close>

fun last_name :: "nat \<Rightarrow> world \<Rightarrow> path \<Rightarrow> path option" where
  "last_name 0 w p = None"
| "last_name (Suc n) w p =
     (case inode_at w p of
        None \<Rightarrow> Some p
      | Some i \<Rightarrow> (case ino_kind i of
            Symlink t \<Rightarrow> last_name n w (path_append (parent_path p) t)
          | _ \<Rightarrow> Some p))"

definition sys_stat :: "path \<Rightarrow> stat sys" where
  "sys_stat p = syscall1 (\<lambda>w.
     (case last_name 40 w p of
        None \<Rightarrow> Inl ELOOP
      | Some q \<Rightarrow> (case inode_at w q of None \<Rightarrow> Inl ENOENT | Some n \<Rightarrow> Inr (stat_of n)), w))"

text \<open>\<open>open(p, O_WRONLY | O_CREAT | O_APPEND, perm)\<close>, as \<open>std::ofstream\<close> opens a file to append to.\<close>

definition sys_open_append :: "path \<Rightarrow> 12 word \<Rightarrow> nat sys" where
  "sys_open_append p perm = syscall1 (\<lambda>w.
     case last_name 40 w p of
       None \<Rightarrow> (Inl ELOOP, w)
     | Some q \<Rightarrow> (case lookup w q of
           None \<Rightarrow> create_file q perm w
         | Some i \<Rightarrow> if ino_kind (inodes w i) = Dir then (Inl EISDIR, w) else (Inr i, w)))"

text \<open>\<open>remove\<close>: \<open>unlink\<close>, or \<open>rmdir\<close> for a directory, which has to be empty.\<close>

definition sys_remove :: "path \<Rightarrow> unit sys" where
  "sys_remove p = syscall1 (\<lambda>w.
     case inode_at w p of
       None \<Rightarrow> (Inl ENOENT, w)
     | Some n \<Rightarrow>
         if ino_kind n = Dir \<and> (\<exists>q\<in>set (map fst (names w)). parent_path q = p) then (Inl (Errno 39), w)
         else (Inr (), set_name p None w))"

text \<open>\<open>std::filesystem::exists\<close> and the exception it throws for other errors than a missing file.\<close>

definition filesystem_error :: "string \<Rightarrow> path \<Rightarrow> errno \<Rightarrow> exn" where
  "filesystem_error operation p e =
     Filesystem_error (''filesystem error: '' @ operation @ '': '' @ strerror e @ '' ['' @ p @ '']'')"

definition file_exists :: "path \<Rightarrow> (world, bool) io" where
  "file_exists p = (\<lambda>w. case sys_stat p w of
       (Inr _, v) \<Rightarrow> (Inr True, v)
     | (Inl e, v) \<Rightarrow> if e = ENOENT \<or> e = ENOTDIR then (Inr False, v) else (Inl (filesystem_error ''status'' p e), v))"

record refresh_request =
  rq_requested :: bool
  rq_coalesced :: bool
  rq_marker :: path

definition marker_of :: "path \<Rightarrow> path" where
  "marker_of runtime_directory = path_append runtime_directory ''refresh.pending''"

text \<open>The stream is not checked after the text is written, so errors of \<open>write\<close> go unnoticed.\<close>

definition request_refresh :: "path \<Rightarrow> string \<Rightarrow> (world, refresh_request) io" where
  "request_refresh runtime_directory source =
     (let marker = marker_of runtime_directory in
      bind_io (or_throw (create_directories runtime_directory)
        (filesystem_error ''cannot create directories'' runtime_directory)) (\<lambda>_.
      bind_io (file_exists marker) (\<lambda>existed.
      bind_io (or_throw (sys_open_append marker 0x1B6)
        (\<lambda>e. Runtime_error (''cannot create refresh pending marker: '' @ marker))) (\<lambda>fd.
      bind_io (gets now) (\<lambda>seconds.
      bind_io (attempt (write_all fd (dec seconds @ '' '' @ source @ [NL]) marker)) (\<lambda>_.
      ret \<lparr>rq_requested = True, rq_coalesced = existed, rq_marker = marker\<rparr>))))))"

definition pending :: "path \<Rightarrow> (world, bool) io" where
  "pending runtime_directory = file_exists (marker_of runtime_directory)"

definition clear_pending :: "path \<Rightarrow> (world, unit) io" where
  "clear_pending runtime_directory =
     (\<lambda>w. case sys_remove (marker_of runtime_directory) w of
        (Inr _, v) \<Rightarrow> (Inr (), v)
      | (Inl e, v) \<Rightarrow> if e = ENOENT then (Inr (), v)
          else (Inl (Runtime_error (''cannot remove refresh pending marker: '' @ marker_of runtime_directory @ '': '' @ strerror e)), v))"

section \<open>What happens to the marker\<close>

definition marker_present :: "path \<Rightarrow> world \<Rightarrow> bool" where
  "marker_present rd w \<longleftrightarrow> (case last_name 40 w (marker_of rd) of None \<Rightarrow> False | Some q \<Rightarrow> lookup w q \<noteq> None)"

text \<open>Names are only added, and files keep their kind.\<close>

definition grows :: "world \<Rightarrow> world \<Rightarrow> bool" where
  "grows w v \<longleftrightarrow> world_ok v \<and>
     (\<forall>p i. lookup w p = Some i \<longrightarrow> lookup v p = Some i \<and> ino_kind (inodes v i) = ino_kind (inodes w i))"

lemma grows_refl: "world_ok w \<Longrightarrow> grows w w"
  by (simp add: grows_def)

lemma grows_trans: "grows w v \<Longrightarrow> grows v u \<Longrightarrow> grows w u"
  by (simp add: grows_def) metis

lemma grows_quiet: "world_ok w \<Longrightarrow> quiet w v \<Longrightarrow> grows w v"
  using quiet_wf by (auto simp: grows_def quiet_def)

lemma grows_ok: "grows w v \<Longrightarrow> world_ok v"
  by (simp add: grows_def)

lemma last_name_plain: "last_name n w p = Some q \<Longrightarrow> inode_at w q = Some i \<Longrightarrow> ino_kind i \<noteq> Symlink t"
  by (induction n w p rule: last_name.induct) (auto split: option.splits file_kind.splits)

lemma last_name_stable:
  "grows w v \<Longrightarrow> last_name n w p = Some q \<Longrightarrow> (\<And>i t. inode_at v q = Some i \<Longrightarrow> ino_kind i \<noteq> Symlink t) \<Longrightarrow>
     last_name n v p = Some q"
proof (induction n w p rule: last_name.induct)
  case (2 n w p)
  show ?case
  proof (cases "\<exists>i t. inode_at w p = Some i \<and> ino_kind i = Symlink t")
    case True
    then obtain i t where i: "inode_at w p = Some i" "ino_kind i = Symlink t" by blast
    then obtain j where j: "inode_at v p = Some j" "ino_kind j = Symlink t"
      using "2.prems"(1) by (auto simp: grows_def inode_at_def)
    have "last_name n w (path_append (parent_path p) t) = Some q" using "2.prems"(2) i by simp
    from "2.IH" [OF i "2.prems"(1) this] "2.prems"(3) j show ?thesis by simp
  next
    case False
    then have "q = p" using "2.prems"(2) by (auto split: option.splits file_kind.splits)
    with "2.prems"(3) show ?thesis by (auto split: option.splits file_kind.splits)
  qed
qed simp

lemma last_name_grows:
  assumes "grows w v" "last_name n w p = Some q" "lookup w q \<noteq> None"
  shows "last_name n v p = Some q \<and> lookup v q \<noteq> None"
proof -
  obtain i where i: "lookup w q = Some i" "lookup v q = Some i" "ino_kind (inodes v i) = ino_kind (inodes w i)"
    using assms(1,3) by (auto simp: grows_def)
  then have "ino_kind j \<noteq> Symlink t" if "inode_at v q = Some j" for j t
    using that last_name_plain [OF assms(2), of "inodes w i" t] by (auto simp: inode_at_def)
  with last_name_stable [OF assms(1,2)] i show ?thesis by blast
qed

lemma marker_grows: "grows w v \<Longrightarrow> marker_present rd w \<Longrightarrow> marker_present rd v"
  using last_name_grows by (fastforce simp: marker_present_def split: option.splits)

lemma grows_syscall1:
  assumes "syscall1 act w = (r, v)" "world_ok w" "\<And>u. world_ok u \<Longrightarrow> grows u (snd (act u))"
  shows "grows w v"
  using assms(1)
proof (cases rule: syscall1_cases)
  case (failed e)
  with assms(2) show ?thesis by (simp add: grows_quiet)
next
  case (acted s)
  have "grows w (w\<lparr>script := s\<rparr>)" using assms(2) by (simp add: grows_def)
  with assms(3) [of "w\<lparr>script := s\<rparr>"] acted(2) assms(2) show ?thesis by (auto intro: grows_trans)
qed

lemma grows_new_file:
  assumes "world_ok w" "lookup w p = None"
  shows "grows w (set_name p (Some (next_inode w)) (set_inode (next_inode w) n w)\<lparr>next_inode := next_inode w + 1\<rparr>)"
  using assms by (auto simp: grows_def world_ok_def dest: less_imp_neq intro: less_SucI)

lemma grows_create_file: "world_ok w \<Longrightarrow> lookup w p = None \<Longrightarrow> grows w (snd (create_file p perm w))"
  using grows_new_file [of w p "fresh_inode w perm"] by (simp add: create_file_def Let_def grows_refl)

lemma grows_make_directories: "world_ok w \<Longrightarrow> grows w (snd (make_directories ps w))"
proof (induction ps w rule: make_directories.induct)
  case (2 p ps w)
  show ?case
  proof (cases "resolve 40 w p")
    case None
    show ?thesis
    proof (cases "lookup w p")
      case l: None
      note g = grows_new_file [OF "2.prems" l, of "fresh_directory w"]
      have "grows (set_name p (Some (next_inode w)) (set_inode (next_inode w) (fresh_directory w) w)\<lparr>next_inode := next_inode w + 1\<rparr>)
          (snd (make_directories (p # ps) w))"
        using "2.IH" None l grows_ok [OF g] by (simp add: Let_def)
      with g show ?thesis by (rule grows_trans)
    qed (use None "2.prems" in \<open>simp add: grows_refl\<close>)
  qed (use 2 in \<open>simp add: grows_refl\<close>)
qed (simp add: grows_refl)

lemma grows_open_append:
  assumes "world_ok w" "sys_open_append p perm w = (r, v)"
  shows "grows w v \<and> (\<forall>fd. r = Inr fd \<longrightarrow> (\<exists>q. last_name 40 v p = Some q \<and> lookup v q = Some fd))"
  using assms(2) unfolding sys_open_append_def
proof (cases rule: syscall1_cases)
  case (failed e)
  with assms(1) show ?thesis by (simp add: grows_quiet)
next
  case (acted s)
  let ?u = "w\<lparr>script := s\<rparr>"
  have u: "world_ok ?u" "grows w ?u" using assms(1) by (simp_all add: grows_def)
  show ?thesis
  proof (cases "last_name 40 ?u p")
    case None
    with acted(2) u show ?thesis by auto
  next
    case (Some q)
    show ?thesis
    proof (cases "lookup ?u q")
      case l: None
      with acted(2) Some have c: "create_file q perm ?u = (r, v)" by simp
      then have g: "grows ?u v" using grows_create_file [OF u(1) l, of perm] by simp
      have at: "fd = next_inode ?u \<and> lookup v q = Some fd \<and> ino_kind (inodes v fd) = Regular" if "r = Inr fd" for fd
        using c that by (auto simp: create_file_def Let_def fresh_inode_def split: if_splits)
      then have "last_name 40 v p = Some q" if "r = Inr fd" for fd
        using that by (intro last_name_stable [OF g Some]) (use at [OF that] in \<open>auto simp: inode_at_def\<close>)
      with at g u(2) show ?thesis by (blast intro: grows_trans)
    next
      case l: (Some i)
      with acted(2) Some u show ?thesis by (auto split: if_splits)
    qed
  qed
qed

lemma sys_stat_quiet:
  assumes "sys_stat p w = (r, v)"
  shows "quiet w v \<and> (\<forall>st. r = Inr st \<longrightarrow> (\<exists>q. last_name 40 w p = Some q \<and> lookup w q \<noteq> None)) \<and>
    (r = Inl ENOENT \<longrightarrow> (\<forall>q. last_name 40 w p = Some q \<longrightarrow> lookup w q = None))"
  using assms unfolding sys_stat_def
proof (cases rule: syscall1_cases)
  case (acted s)
  have l: "last_name n (w\<lparr>script := s\<rparr>) p = last_name n w p" for n
    by (induction n w p rule: last_name.induct) (simp_all split: option.split file_kind.split)
  from acted(2) show ?thesis
    by (auto simp: l inode_at_def quiet_def split: option.splits)
qed auto

lemma file_exists_spec:
  assumes "file_exists p w = (r, v)"
  shows "quiet w v \<and> (r = Inr True \<longrightarrow> (\<exists>q. last_name 40 w p = Some q \<and> lookup w q \<noteq> None))"
  using assms sys_stat_quiet [of p w] by (auto simp: file_exists_def split: prod.splits sum.splits if_splits)

lemma grows_write:
  assumes "world_ok w" "sys_write fd bytes w = (r, v)"
  shows "grows w v"
proof -
  have act: "grows w v"
    if "(Inr (length (take n bytes)), set_inode fd ((inodes u fd)\<lparr>ino_data := ino_data (inodes u fd) @ take n bytes,
          ino_synced := False, ino_mtime := now u\<rparr>) u) = (r, v)" "u = w\<lparr>script := s\<rparr>" for n s u
    using that assms(1) by (auto simp: grows_def)
  from assms(2) show ?thesis unfolding sys_write_def Let_def
  proof (cases rule: syscall_cases)
    case (failed e)
    with assms(1) show ?thesis by (simp add: grows_quiet)
  next
    case (acted s)
    from act [OF acted(2)] show ?thesis by simp
  next
    case (partly n s)
    from act [OF partly(2)] show ?thesis by simp
  qed
qed

lemma grows_write_all: "world_ok w \<Longrightarrow> write_all fd bytes p w = (r, v) \<Longrightarrow> grows w v"
proof (induction fd bytes p w arbitrary: r v rule: write_all.induct)
  case (1 fd bytes p w)
  show ?case
  proof (cases "bytes = []")
    case True
    then have "write_all fd bytes p w = (Inr (), w)" by (subst write_all.simps) simp
    with 1 show ?thesis by (auto simp: grows_refl)
  next
    case False
    obtain r1 u where ru: "sys_write fd bytes w = (r1, u)" by force
    note g = grows_write [OF "1.prems"(1) ru]
    have "(\<exists>b. write_all fd b p u = (r, v) \<and> grows u v) \<or> v = u"
    proof (cases r1)
      case (Inl e)
      show ?thesis
      proof (cases "e = EINTR")
        case True
        with "1.prems"(2) ru Inl False have "write_all fd bytes p u = (r, v)"
          by (simp add: write_all.simps [of fd bytes p w])
        with "1.IH"(1) [OF False ru [symmetric] Inl True grows_ok [OF g]] show ?thesis by blast
      qed (use "1.prems"(2) ru Inl False in \<open>simp add: write_all.simps [of fd bytes p w]\<close>)
    next
      case (Inr n)
      have "write_all fd (drop n bytes) p u = (r, v)" using "1.prems"(2) ru Inr False
        by (simp add: write_all.simps [of fd bytes p w])
      with "1.IH"(2) [OF False ru [symmetric] Inr grows_ok [OF g]] show ?thesis by blast
    qed
    with g show ?thesis by (blast intro: grows_trans)
  qed
qed

text \<open>A request leaves the marker, whatever was there before, and nothing it does removes one.\<close>

lemma request_refresh_spec:
  assumes w: "world_ok w" and run: "request_refresh rd source w = (r, v)"
  shows "grows w v \<and> (\<forall>x. r = Inr x \<longrightarrow> marker_present rd v)"
proof -
  let ?m = "marker_of rd"
  obtain r1 u1 where 1: "or_throw (create_directories rd) (filesystem_error ''cannot create directories'' rd) w = (r1, u1)" by force
  have "grows w (snd (create_directories rd w))"
    using grows_syscall1 [of "make_directories (ancestors (length rd) rd)" w] grows_make_directories w
    by (metis create_directories_def prod.collapse)
  then have g1: "grows w u1" using 1 by (auto simp: or_throw_def split: prod.splits sum.splits)
  show ?thesis
  proof (cases r1)
    case (Inl e)
    with run 1 have "v = u1 \<and> r = Inl e" by (simp add: request_refresh_def Let_def bind_io_def)
    with g1 show ?thesis by simp
  next
    case (Inr x1)
    obtain r2 u2 where 2: "file_exists ?m u1 = (r2, u2)" by force
    have g2: "grows w u2" using file_exists_spec [OF 2] grows_quiet [OF grows_ok [OF g1]] g1 by (blast intro: grows_trans)
    show ?thesis
    proof (cases r2)
      case (Inl e)
      with run 1 2 Inr have "v = u2 \<and> r = Inl e" by (simp add: request_refresh_def Let_def bind_io_def)
      with g2 show ?thesis by simp
    next
      case r2: (Inr existed)
      obtain r3 u3 where 3: "sys_open_append ?m 0x1B6 u2 = (r3, u3)" by force
      note o = grows_open_append [OF grows_ok [OF g2] 3]
      then have g3: "grows w u3" using g2 by (blast intro: grows_trans)
      show ?thesis
      proof (cases r3)
        case (Inl e)
        with run 1 2 3 Inr r2 have "v = u3 \<and> \<not> (\<exists>x. r = Inr x)"
          by (auto simp: request_refresh_def Let_def bind_io_def or_throw_def)
        with g3 show ?thesis by auto
      next
        case r3: (Inr fd)
        have p: "marker_present rd u3" using o r3 by (auto simp: marker_present_def)
        have "v = snd (write_all fd (dec (now u3) @ '' '' @ source @ [NL]) ?m u3)"
          using run 1 2 3 Inr r2 r3
          by (auto simp: request_refresh_def Let_def bind_io_def or_throw_def gets_def attempt_def ret_def split: prod.splits)
        then have "grows u3 v" using grows_write_all [OF grows_ok [OF g3]] by (metis prod.collapse)
        with g3 p show ?thesis by (blast intro: grows_trans marker_grows)
      qed
    qed
  qed
qed

lemma last_name_quiet: "quiet w v \<Longrightarrow> last_name n v p = last_name n w p"
proof (induction n w p rule: last_name.induct)
  case (2 n w p)
  then have "inode_at v p = inode_at w p" by (simp add: quiet_def inode_at_def)
  with 2 show ?case by (simp split: option.split file_kind.split)
qed simp

lemma marker_quiet: "quiet w v \<Longrightarrow> marker_present rd v \<longleftrightarrow> marker_present rd w"
  using last_name_quiet [of w v 40 "marker_of rd"] by (simp add: marker_present_def quiet_def split: option.split)

lemma pending_spec:
  assumes "pending rd w = (r, v)"
  shows "quiet w v \<and> (\<forall>b. r = Inr b \<longrightarrow> (b \<longleftrightarrow> marker_present rd w))"
proof -
  obtain r1 where s: "sys_stat (marker_of rd) w = (r1, v)"
    using assms by (auto simp: pending_def file_exists_def split: prod.splits sum.splits if_splits)
  have "r1 \<noteq> Inl ENOTDIR"
    using s unfolding sys_stat_def by (cases rule: syscall1_cases) (auto split: option.splits)
  with s sys_stat_quiet [OF s] assms show ?thesis
    by (auto simp: pending_def file_exists_def marker_present_def split: sum.splits if_splits option.splits)
qed

text \<open>Clearing removes the marker; a call that throws has left it.\<close>

lemma marker_missing: "lookup w (marker_of rd) = None \<Longrightarrow> \<not> marker_present rd w"
proof -
  assume n: "lookup w (marker_of rd) = None"
  then have "last_name 40 w (marker_of rd) = Some (marker_of rd)" by (simp add: eval_nat_numeral inode_at_def)
  with n show ?thesis by (simp add: marker_present_def)
qed

lemma clear_pending_spec:
  assumes "world_ok w" "clear_pending rd w = (r, v)"
  shows "world_ok v \<and> (r = Inr () \<longrightarrow> lookup v (marker_of rd) = None) \<and> (\<forall>e. r = Inl e \<longrightarrow> quiet w v)"
proof -
  let ?m = "marker_of rd"
  obtain r1 where s: "sys_remove ?m w = (r1, v)"
    using assms(2) by (auto simp: clear_pending_def split: prod.splits sum.splits if_splits)
  have "world_ok v \<and> (r1 = Inr () \<or> r1 = Inl ENOENT \<longrightarrow> lookup v ?m = None) \<and> (\<forall>e. r1 = Inl e \<longrightarrow> quiet w v)"
    using s unfolding sys_remove_def
  proof (cases rule: syscall1_cases)
    case (failed e)
    with assms(1) quiet_wf show ?thesis by auto
  next
    case (acted s)
    moreover have "world_ok (set_name ?m None (w\<lparr>script := s\<rparr>))" using assms(1) by (intro world_ok_set_name) simp_all
    ultimately show ?thesis using assms(1)
      by (auto simp: inode_at_def quiet_def split: option.splits if_splits)
  qed
  with s assms(2) show ?thesis by (auto simp: clear_pending_def split: sum.splits if_splits)
qed

section \<open>The interface of the requests\<close>

text \<open>
  What the refresh command relies on: \<open>present\<close> tells that a request is waiting, \<open>gone\<close> that its file
  does not even exist. The calls may fail at any time; a request that throws has removed nothing, and a
  \<open>clear\<close> that throws has left the request.
\<close>

locale request_store =
  fixes sound :: "'w \<Rightarrow> bool" and present :: "'w \<Rightarrow> bool" and gone :: "'w \<Rightarrow> bool"
    and request :: "string \<Rightarrow> ('w, 'r) io" and waiting :: "('w, bool) io" and clear :: "('w, unit) io"
  assumes gone_absent: "gone w \<Longrightarrow> \<not> present w"
    and request_law: "sound w \<Longrightarrow> request src w = (r, v) \<Longrightarrow>
      sound v \<and> (present w \<longrightarrow> present v) \<and> (\<forall>x. r = Inr x \<longrightarrow> present v)"
    and waiting_law: "sound w \<Longrightarrow> waiting w = (rb, v) \<Longrightarrow>
      sound v \<and> present v = present w \<and> gone v = gone w \<and> (\<forall>b. rb = Inr b \<longrightarrow> b = present w)"
    and clear_law: "sound w \<Longrightarrow> clear w = (ru, v) \<Longrightarrow>
      sound v \<and> (ru = Inr () \<longrightarrow> gone v) \<and> (\<forall>e. ru = Inl e \<longrightarrow> present v = present w)"
begin

text \<open>Taking the waiting request, if there is one, before some work \<open>k\<close>: none is left then.\<close>

lemma taken:
  assumes "bind_io waiting (\<lambda>b. bind_io (if b then clear else ret ()) (\<lambda>_. k b)) w = (r, v)" "sound w"
  obtains (thrown) e where "r = Inl e" "sound v" "present v = present w"
    | (working) u where "k (present w) u = (r, v)" "sound u" "\<not> present u" "present w \<or> gone w \<longrightarrow> gone u"
proof -
  obtain r1 u1 where 1: "waiting w = (r1, u1)" by force
  note l1 = waiting_law [OF assms(2) 1]
  show thesis
  proof (cases r1)
    case (Inl e)
    then have "r = Inl e" "v = u1" using assms(1) 1 by (simp_all add: bind_io_def)
    with l1 show ?thesis by (intro thrown) simp_all
  next
    case (Inr b)
    obtain r2 u2 where 2: "(if b then clear else ret ()) u1 = (r2, u2)" by force
    have l2: "sound u2 \<and> (r2 = Inr () \<longrightarrow> \<not> present u2 \<and> (present w \<or> gone w \<longrightarrow> gone u2)) \<and> (\<forall>e. r2 = Inl e \<longrightarrow> present u2 = present w)"
      using 2 clear_law [of u1 r2 u2] l1 Inr gone_absent by (auto simp: ret_def split: if_splits)
    show ?thesis
    proof (cases r2)
      case (Inl e)
      then have "r = Inl e" "v = u2" using assms(1) 1 2 Inr by (simp_all add: bind_io_def)
      with l2 Inl show ?thesis by (intro thrown) simp_all
    next
      case r2: (Inr x)
      have "k b u2 = (r, v)" using assms(1) 1 2 Inr r2 by (simp add: bind_io_def)
      with l1 l2 Inr r2 show ?thesis by (intro working [of u2]) simp_all
    qed
  qed
qed

text \<open>Giving a taken request back.\<close>

lemma given_back:
  assumes "(if b then bind_io (request src) (\<lambda>_. ret ()) else ret ()) w = (r, v)" "sound w"
  shows "sound v \<and> (present w \<longrightarrow> present v) \<and> (b \<and> r = Inr () \<longrightarrow> present v) \<and>
    (\<not> b \<longrightarrow> present v = present w)"
proof -
  obtain r1 u where 1: "request src w = (r1, u)" by force
  from request_law [OF assms(2) 1] 1 assms show ?thesis
    by (cases r1) (auto simp: bind_io_def ret_def split: if_splits)
qed

end

interpretation marker: request_store world_ok "marker_present rd" "\<lambda>w. lookup w (marker_of rd) = None"
  "request_refresh rd" "pending rd" "clear_pending rd" for rd
proof unfold_locales
  show "\<not> marker_present rd w" if "lookup w (marker_of rd) = None" for w
    by (rule marker_missing [OF that])
  show "world_ok v \<and> (marker_present rd w \<longrightarrow> marker_present rd v) \<and> (\<forall>x. r = Inr x \<longrightarrow> marker_present rd v)"
    if "world_ok w" "request_refresh rd src w = (r, v)" for w src r v
    using request_refresh_spec [OF that] grows_ok marker_grows by blast
  show "world_ok v \<and> marker_present rd v = marker_present rd w \<and>
      (lookup v (marker_of rd) = None) = (lookup w (marker_of rd) = None) \<and> (\<forall>b. r = Inr b \<longrightarrow> b = marker_present rd w)"
    if "world_ok w" "pending rd w = (r, v)" for w r v
    using pending_spec [OF that(2)] quiet_wf [OF _ that(1)] marker_quiet by (auto simp: quiet_def)
  show "world_ok v \<and> (r = Inr () \<longrightarrow> lookup v (marker_of rd) = None) \<and> (\<forall>e. r = Inl e \<longrightarrow> marker_present rd v = marker_present rd w)"
    if "world_ok w" "clear_pending rd w = (r, v)" for w r v
    using clear_pending_spec [OF that] marker_quiet by blast
qed

end
