(* ===== verification/Refresh_Service.thy ===== *)
theory Refresh_Service
  imports Validation_Service Backup_Service Secure_Boot_Specs Unified_Diff Apply_Liveness
begin

text \<open>
Refreshing the menu (src/application/refresh_service.cpp,
  include/limine_manager/application/refresh_service.hpp): validate, generate, compare, apply, prune.

  \<open>host_environment\<close> gathers what the program relies on and does not contain: the programs it runs and
  the calls of the standard library that ask the host. \<open>sync_spec\<close> is the abstract operation the refresh
  refines.
\<close>

section \<open>What surrounds the program\<close>

text \<open>
  The parameters of the services: \<open>he_queries\<close> answers the programs that only report (Snapper, the mount
  table, \<open>uname\<close>, ...), \<open>he_tool\<close> runs those that change files, \<open>he_canonical\<close> and \<open>he_relative\<close> are
  \<open>std::filesystem::weakly_canonical\<close> behind the file system interface and inside \<open>relative\<close>,
  \<open>he_weakly\<close> is the throwing call, \<open>he_temp\<close> the directory for temporary files.
\<close>

record host_environment =
  he_permitted :: "path \<Rightarrow> bool"
  he_canonical :: "path \<Rightarrow> path"
  he_relative :: "world \<Rightarrow> path \<Rightarrow> path option"
  he_weakly :: "world \<Rightarrow> path \<Rightarrow> path result"
  he_queries :: "world \<Rightarrow> query_runner"
  he_tool :: tool
  he_temp :: "path result"
  he_default_config :: path
  he_version :: string

definition files_of :: "host_environment \<Rightarrow> world \<Rightarrow> file_system" where
  "files_of env w = real_file_system (he_permitted env) (he_canonical env) w"

definition validate_host ::
  "host_environment \<Rightarrow> system_info \<Rightarrow> snapper_config_info \<Rightarrow> snapshot_info list \<Rightarrow> app_config \<Rightarrow> world \<Rightarrow> validation_report" where
  "validate_host env sys sc snapshots config w = validate (files_of env w) sys sc snapshots config"

text \<open>\<open>renderer.render(preview.build(...))\<close>\<close>

definition generate ::
  "host_environment \<Rightarrow> system_info \<Rightarrow> snapshot_info list \<Rightarrow> app_config \<Rightarrow> world \<Rightarrow> string result" where
  "generate env sys snapshots config w = bind_r (build_menu (he_relative env w) sys snapshots config) render_limine"

definition plan_change :: "host_environment \<Rightarrow> path \<Rightarrow> string \<Rightarrow> world \<Rightarrow> change_plan" where
  "plan_change env target generated w = build_change_plan (files_of env w) target generated"

section \<open>The service\<close>

record refresh_result =
  rf_validation_passed :: bool
  rf_changed :: bool
  rf_activation_required :: bool
  rf_planned_change :: change_kind
  rf_error_count :: nat
  rf_warning_count :: nat
  rf_apply :: apply_result
  rf_pruned_backups :: nat

definition empty_refresh_result :: refresh_result where
  "empty_refresh_result =
     \<lparr>rf_validation_passed = False, rf_changed = False, rf_activation_required = False, rf_planned_change = Unchanged,
      rf_error_count = 0, rf_warning_count = 0, rf_apply = \<lparr>ar_changed = False, ar_target = [], ar_backup = []\<rparr>,
      rf_pruned_backups = 0\<rparr>"

definition refresh_run ::
  "host_environment \<Rightarrow> system_info \<Rightarrow> snapper_config_info \<Rightarrow> snapshot_info list \<Rightarrow> app_config \<Rightarrow> (world, refresh_result) io" where
  "refresh_run env sys sc snapshots config =
     bind_io (gets (validate_host env sys sc snapshots config)) (\<lambda>report.
     let result = empty_refresh_result\<lparr>rf_validation_passed := valid report, rf_error_count := error_count report,
                    rf_warning_count := warning_count report\<rparr> in
     if \<not> valid report then ret result
     else
       bind_io (\<lambda>w. (generate env sys snapshots config w, w)) (\<lambda>generated.
       bind_io (gets (plan_change env (si_limine_config sys) generated)) (\<lambda>plan.
       let result = result\<lparr>rf_planned_change := plan_kind plan\<rparr> in
       if \<not> has_changes plan then ret result
       else if sb_enabled (secure_boot sys) \<and> \<not> secure_boot_automatic_apply config then
         ret (result\<lparr>rf_activation_required := True\<rparr>)
       else
         bind_io (sb_apply (he_temp env) (he_tool env) None plan sys config) (\<lambda>applied.
         bind_io (prune (plan_target plan) (unat (backup_retention config))) (\<lambda>pruned.
         ret (result\<lparr>rf_apply := applied, rf_changed := ar_changed applied, rf_pruned_backups := pruned\<rparr>))))))"

section \<open>Synchronising the menu, abstractly\<close>

definition text_at :: "path \<Rightarrow> world \<Rightarrow> string option" where
  "text_at p w = map_option ino_data (inode_at w p)"

text \<open>
  The abstract operation: from the old text of the file to the new one, with the outcome \<open>Some b\<close> when
  the operation returns and tells whether it changed the file, \<open>None\<close> when it throws.
\<close>

definition sync_spec :: "string \<Rightarrow> string option \<Rightarrow> bool option \<Rightarrow> string option \<Rightarrow> bool" where
  "sync_spec generated old changed new \<longleftrightarrow>
     (case changed of
        Some True \<Rightarrow> new = Some generated
      | Some False \<Rightarrow> new = old
      | None \<Rightarrow> new = old \<or> new = Some generated)"

lemma generate_total: "\<exists>text. generate env sys snapshots config w = Inr text"
proof -
  have "list_all bootable (doc_roots (menu_of (he_relative env w) sys snapshots config))"
    by (auto simp: menu_of_def list_all_iff snapshot_folder_def snapshot_entry_def)
  then have "\<exists>text. render_nodes (doc_roots (menu_of (he_relative env w) sys snapshots config)) 1 = Inr text"
    using render_node_defined(2) [of 1] by (simp add: list_all_iff)
  then show ?thesis by (auto simp: generate_def build_menu_eq render_limine_def)
qed

lemma apply_text:
  assumes "apply_plan rd plan w = (r, v)" "world_ok w" "has_changes plan" "plan_target plan \<notin> runtime_names rd"
  shows "world_ok v \<and> (case r of
      Inr x \<Rightarrow> ar_changed x \<and> text_at (plan_target plan) v = Some (plan_generated plan)
    | Inl e \<Rightarrow> rollback_failed e \<or> text_at (plan_target plan) v = text_at (plan_target plan) w \<or>
        text_at (plan_target plan) v = Some (plan_generated plan))"
proof (cases rule: apply_cases [OF assms])
  case (1 e)
  have "text_at (plan_target plan) v = text_at (plan_target plan) w"
  proof (cases "lookup w (plan_target plan)")
    case None
    then show ?thesis using frame_target [OF 1(2) assms(4)] by (simp add: text_at_def inode_at_def)
  next
    case (Some i)
    then show ?thesis using frame_target [OF 1(2) assms(4)] frame_inode [OF 1(2) world_ok_lookup [OF assms(2) Some]]
      by (simp add: text_at_def inode_at_def)
  qed
  with 1 frame_wf [OF 1(2)] show ?thesis by simp
next
  case (2 u i)
  have at: "text_at (plan_target plan) w = Some (ino_data (inodes w i))" "inodes v i = inodes w i"
    using 2(2) frame_inode [OF 2(7) world_ok_lookup [OF assms(2) 2(2)]] by (simp_all add: text_at_def inode_at_def)
  show ?thesis
  proof (cases r)
    case (Inl e)
    with 2(8) at show ?thesis using frame_wf [OF 2(7)]
      by (auto simp: replacement_def Let_def swapped_def text_at_def inode_at_def dest: old_copy_data)
  next
    case (Inr x)
    with 2(8) show ?thesis using frame_wf [OF 2(7)]
      by (auto simp: replacement_def Let_def swapped_def text_at_def inode_at_def dest: generated_file_data)
  qed
next
  case (3 u)
  have at: "text_at (plan_target plan) w = None" using 3(2) by (simp add: text_at_def inode_at_def)
  with 3(5) show ?thesis using frame_wf [OF 3(4)]
    by (cases r) (auto simp: creation_def Let_def swapped_def text_at_def inode_at_def dest: created_file_data)
qed

text \<open>Pruning leaves the target alone: the name of a backup is longer than that of its target.\<close>

lemma backup_not_target: "b \<in> set (list_backups w target) \<Longrightarrow> bi_path b \<noteq> target"
  by (auto simp: list_backups_def Let_def is_backup_def prefix_for_def backup_of_def
      starts_with_iff map_filter_def split: if_splits)

lemma prune_text:
  assumes "prune target retain w = (r, v)" "world_ok w"
  shows "text_at target v = text_at target w \<and> world_ok v"
proof -
  let ?bs = "list_backups w target"
  have f: "frame (next_inode w) UNIV w w" using assms(2) by (intro frame_refl) simp_all
  show ?thesis
  proof (cases "retain = 0 \<or> length ?bs \<le> retain")
    case True
    with assms show ?thesis by (auto simp: prune_def bind_io_def gets_def ret_def)
  next
    case False
    with assms(1) have "remove_backups (drop retain ?bs) 0 w = (r, v)" by (simp add: prune_def bind_io_def gets_def)
    note s = remove_backups_spec [OF this f]
    have "target \<notin> bi_path ` set (drop retain ?bs)" using backup_not_target set_drop_subset by fastforce
    with s show ?thesis using frame_wf by (auto simp: text_at_def inode_at_def)
  qed
qed

definition refresh_outcome :: "refresh_result result \<Rightarrow> bool option" where
  "refresh_outcome r = (case r of Inl _ \<Rightarrow> None | Inr x \<Rightarrow> Some (rf_changed x))"


definition sample_environment :: host_environment where
  "sample_environment = \<lparr>he_permitted = (\<lambda>_. True), he_canonical = id, he_relative = (\<lambda>_ _. None), he_weakly = (\<lambda>_ p. Inr p),
     he_queries = (\<lambda>_ _. Inl (Runtime_error ''not found'')), he_tool = (\<lambda>_. throw (Runtime_error ''not found'')),
     he_temp = Inr ''/tmp'', he_default_config = ''/etc/limine-manager.conf'', he_version = ''1.0''\<rparr>"

definition sample_system :: system_info where
  "sample_system = ready_host\<lparr>secure_boot := default_secure_boot,
     kernels := [sample_kernel\<lparr>image := ''/boot/limine.conf'', initrds := [], unified_kernel_image := True\<rparr>]\<rparr>"

definition root_snapper :: snapper_config_info where
  "root_snapper = \<lparr>sc_name = ''root'', sc_subvolume = ''/'', sc_filesystem_type = ''btrfs''\<rparr>"

definition keep_all :: app_config where
  "keep_all = default_config\<lparr>backup_retention := 0\<rparr>"

lemma sample_refresh_ready:
  "host_ready (files_of sample_environment (sample_host installed_files [])) sample_system root_snapper [] keep_all"
  by code_simp

lemma sample_refresh_plan:
  assumes "generate sample_environment sample_system [] keep_all (sample_host installed_files []) = Inr menu"
  shows "plan_change sample_environment ''/boot/limine.conf'' menu (sample_host installed_files []) =
    \<lparr>plan_kind = Update, plan_target = ''/boot/limine.conf'', plan_installed = normalize_newline ''old'',
      plan_generated = normalize_newline menu\<rparr>"
proof -
  let ?w = "sample_host installed_files []"
  have "case generate sample_environment sample_system [] keep_all ?w of
      Inr m \<Rightarrow> normalize_newline m \<noteq> normalize_newline ''old'' | _ \<Rightarrow> False" by code_simp
  then have "normalize_newline menu \<noteq> normalize_newline ''old''" using assms by simp
  moreover have "rfs_exists ?w ''/boot/limine.conf''" "rfs_read_text (\<lambda>_. True) ?w ''/boot/limine.conf'' = ''old''"
    by code_simp+
  ultimately show ?thesis
    by (simp add: plan_change_def build_change_plan_def files_of_def sample_environment_def Let_def)
qed


end
