(* ===== verification/Command_Line.thy ===== *)
theory Command_Line
  imports Refresh_Service Automation Rollback_Service Status_Service Config_Loader
begin

text \<open>
The command line (src/main.cpp): the options and how they are parsed, the texts the program prints, and
  the state of a run.

  \<open>session\<close> is what a command works on: the file system and the rest of the host, the Btrfs client's state
  and the two output streams. A command is a computation on it that returns the exit code or throws;
  \<open>in_world\<close>, \<open>in_btrfs\<close> and \<open>in_both\<close> run the computations of the services in it.
\<close>

section \<open>Options\<close>

record cli_options =
  co_command :: string
  co_config :: "path option"
  co_backup :: "path option"
  co_extra :: "string list"
  co_log_format :: string
  co_verbose :: bool
  co_help :: bool
  co_version :: bool

definition default_options :: cli_options where
  "default_options = \<lparr>co_command = [], co_config = None, co_backup = None, co_extra = [], co_log_format = ''text'',
     co_verbose = False, co_help = False, co_version = False\<rparr>"

definition usage_lines :: "string list" where
  "usage_lines =
     [''Usage: limine-manager [OPTIONS] COMMAND'',
      [],
      ''Generate and safely maintain a Limine menu for Arch Linux and Snapper.'',
      [],
      ''Commands:'',
      ''  check-config    Validate configuration syntax and schema'',
      ''  validate        Validate the detected system'',
      ''  themes          List built-in visual themes'',
      ''  preview         Render the generated limine.conf'',
      ''  show-config     Print the effective manager configuration'',
      ''  status          Show complete system, boot, kernel, snapshot, and configuration status'',
      ''  plan            Classify the pending change'',
      ''  diff            Show a unified diff'',
      ''  dry-run         Show the plan and diff without writing'',
      ''  apply           Atomically install the generated configuration'',
      ''  refresh         Validate, regenerate, compare, and apply if changed'',
      ''  request-refresh Request an asynchronous refresh for automation'',
      ''  automation-status Show installed automation state'',
      ''  rollback-status Inspect Btrfs snapshot rollback eligibility'',
      ''  rollback-plan   Show the Btrfs snapshot rollback plan'',
      ''  rollback        Replace the main Btrfs root from the booted snapshot'',
      ''  list-backups    List managed backups'',
      ''  restore         Restore a managed backup'',
      ''  prune-backups   Apply the backup retention policy'',
      [],
      ''Options:'',
      ''  -h, --help              Show this help'',
      ''  -V, --version           Show version information'',
      ''      --config PATH       Use an alternative configuration'',
      ''      --backup PATH       Select a backup for restore'',
      ''      --verbose           Print additional diagnostics'',
      ''      --log-format FORMAT text or json (diagnostics)'']"

definition usage :: string where
  "usage = as_text usage_lines"

fun json_escape :: "string \<Rightarrow> string" where
  "json_escape [] = []"
| "json_escape (c # s) =
     (if c = BSLASH then [BSLASH, BSLASH]
      else if c = DQUOTE then [BSLASH, DQUOTE]
      else if c = NL then [BSLASH, CHR ''n'']
      else if c = CR then [BSLASH, CHR ''r'']
      else if c = TAB then [BSLASH, CHR ''t'']
      else [c]) @ json_escape s"

definition log_text :: "cli_options \<Rightarrow> string \<Rightarrow> string \<Rightarrow> string \<Rightarrow> string" where
  "log_text cli level event m =
     (if co_log_format cli = ''json'' then
        ''{'' @ [DQUOTE] @ ''level'' @ [DQUOTE] @ '':'' @ [DQUOTE] @ json_escape level @ [DQUOTE] @ '','' @
        [DQUOTE] @ ''event'' @ [DQUOTE] @ '':'' @ [DQUOTE] @ json_escape event @ [DQUOTE] @ '','' @
        [DQUOTE] @ ''message'' @ [DQUOTE] @ '':'' @ [DQUOTE] @ json_escape m @ [DQUOTE] @ ''}'' @ [NL]
      else ''['' @ level @ ''] '' @ m @ [NL])"

text \<open>The loop over the arguments; \<open>None\<close> is the \<open>nullopt\<close> of a usage error.\<close>

fun parse_args :: "string list \<Rightarrow> cli_options \<Rightarrow> cli_options option" where
  "parse_args [] cli = Some cli"
| "parse_args (arg # rest) cli =
     (if arg = ''-h'' \<or> arg = ''--help'' then parse_args rest (cli\<lparr>co_help := True\<rparr>)
      else if arg = ''-V'' \<or> arg = ''--version'' then parse_args rest (cli\<lparr>co_version := True\<rparr>)
      else if arg = ''--verbose'' then parse_args rest (cli\<lparr>co_verbose := True\<rparr>)
      else if arg = ''--log-format'' then
        (case rest of [] \<Rightarrow> None | value # rest' \<Rightarrow> parse_args rest' (cli\<lparr>co_log_format := value\<rparr>))
      else if starts_with arg ''--log-format='' then parse_args rest (cli\<lparr>co_log_format := drop 13 arg\<rparr>)
      else if arg = ''--config'' then
        (case rest of [] \<Rightarrow> None
         | value # rest' \<Rightarrow> if co_config cli \<noteq> None then None else parse_args rest' (cli\<lparr>co_config := Some value\<rparr>))
      else if starts_with arg ''--config='' then
        (if co_config cli \<noteq> None then None else parse_args rest (cli\<lparr>co_config := Some (drop 9 arg)\<rparr>))
      else if arg = ''--backup'' then
        (case rest of [] \<Rightarrow> None
         | value # rest' \<Rightarrow> if co_backup cli \<noteq> None then None else parse_args rest' (cli\<lparr>co_backup := Some value\<rparr>))
      else if starts_with arg ''--backup='' then
        (if co_backup cli \<noteq> None then None else parse_args rest (cli\<lparr>co_backup := Some (drop 9 arg)\<rparr>))
      else if arg \<noteq> [] \<and> hd arg = CHR ''-'' then None
      else if co_command cli = [] then parse_args rest (cli\<lparr>co_command := arg\<rparr>)
      else if co_command cli = ''request-refresh'' then parse_args rest (cli\<lparr>co_extra := co_extra cli @ [arg]\<rparr>)
      else None)"

definition known_commands :: "string list" where
  "known_commands =
     [''check-config'', ''preview'', ''validate'', ''themes'', ''show-config'', ''status'', ''plan'', ''diff'', ''dry-run'',
      ''apply'', ''refresh'', ''request-refresh'', ''automation-status'', ''rollback-status'', ''rollback-plan'',
      ''rollback'', ''list-backups'', ''restore'', ''prune-backups'']"

definition parse_cli :: "string list \<Rightarrow> cli_options option" where
  "parse_cli args =
     (case parse_args args default_options of
        None \<Rightarrow> None
      | Some cli \<Rightarrow>
          if co_log_format cli \<noteq> ''text'' \<and> co_log_format cli \<noteq> ''json'' then None
          else if co_help cli \<or> co_version cli then Some cli
          else if co_command cli \<notin> set known_commands then None
          else if co_backup cli \<noteq> None \<and> co_command cli \<noteq> ''restore'' then None
          else Some cli)"

section \<open>The state of a run\<close>

record 'b session =
  se_world :: world
  se_btrfs :: 'b
  se_out :: string
  se_err :: string

definition in_world :: "(world, 'a) io \<Rightarrow> ('b session, 'a) io" where
  "in_world m = (\<lambda>s. case m (se_world s) of (r, w) \<Rightarrow> (r, s\<lparr>se_world := w\<rparr>))"

definition in_btrfs :: "('b, 'a) io \<Rightarrow> ('b session, 'a) io" where
  "in_btrfs m = (\<lambda>s. case m (se_btrfs s) of (r, b) \<Rightarrow> (r, s\<lparr>se_btrfs := b\<rparr>))"

definition in_both :: "(world \<times> 'b, 'a) io \<Rightarrow> ('b session, 'a) io" where
  "in_both m = (\<lambda>s. case m (se_world s, se_btrfs s) of (r, (w, b)) \<Rightarrow> (r, s\<lparr>se_world := w, se_btrfs := b\<rparr>))"

text \<open>A question to the host, which may throw and changes nothing.\<close>

definition ask :: "(world \<Rightarrow> 'a result) \<Rightarrow> ('b session, 'a) io" where
  "ask q = (\<lambda>s. (q (se_world s), s))"

definition look :: "(world \<Rightarrow> 'a) \<Rightarrow> ('b session, 'a) io" where
  "look f = (\<lambda>s. (Inr (f (se_world s)), s))"

definition print :: "string \<Rightarrow> ('b session, unit) io" where
  "print m = modify (\<lambda>s. s\<lparr>se_out := se_out s @ m\<rparr>)"

definition eprint :: "string \<Rightarrow> ('b session, unit) io" where
  "eprint m = modify (\<lambda>s. s\<lparr>se_err := se_err s @ m\<rparr>)"

definition log_message :: "cli_options \<Rightarrow> string \<Rightarrow> string \<Rightarrow> string \<Rightarrow> ('b session, unit) io" where
  "log_message cli level event m = eprint (log_text cli level event m)"

definition andthen :: "('w, unit) io \<Rightarrow> ('w, 'a) io \<Rightarrow> ('w, 'a) io" where
  "andthen m k = bind_io m (\<lambda>_. k)"

text \<open>Printing a text and returning an exit code.\<close>

definition say :: "string \<Rightarrow> nat \<Rightarrow> ('b session, nat) io" where
  "say m n = andthen (print m) (ret n)"

text \<open>A path on a stream is quoted.\<close>

fun quote_escape :: "string \<Rightarrow> string" where
  "quote_escape [] = []"
| "quote_escape (c # s) = (if c = DQUOTE \<or> c = BSLASH then [BSLASH, c] else [c]) @ quote_escape s"

definition quoted :: "path \<Rightarrow> string" where
  "quoted p = [DQUOTE] @ quote_escape p @ [DQUOTE]"

definition require_root :: "string \<Rightarrow> ('b session, unit) io" where
  "require_root operation =
     bind_io (look euid) (\<lambda>uid.
     if uid \<noteq> 0 then throw (Runtime_error (operation @ '' requires root privileges; re-run with sudo'')) else ret ())"

definition config_name :: "loaded_config \<Rightarrow> string" where
  "config_name loaded = (case config_source loaded of Some p \<Rightarrow> p | None \<Rightarrow> ''built-in defaults'')"

definition print_system_summary :: "system_info \<Rightarrow> nat \<Rightarrow> loaded_config \<Rightarrow> cli_options \<Rightarrow> ('b session, unit) io" where
  "print_system_summary sys snapshot_count loaded cli =
     (if \<not> co_verbose cli then ret ()
      else if co_log_format cli = ''json'' then
        log_message cli ''debug'' ''system.detected''
          (''config='' @ config_name loaded @ '', os='' @ os_name sys @ '', running='' @ running_kernel_release sys @
           '', kernels='' @ dec (length (kernels sys)) @ '', snapshots='' @ dec snapshot_count)
      else eprint
        (line (''Config:    '' @ config_name loaded) @ line (''Detected:  '' @ os_name sys) @
         line (''Running:   '' @ running_kernel_release sys) @ line (''Kernels:   '' @ dec (length (kernels sys))) @
         line (''Root:      '' @ root_source sys @ '' ('' @ root_fstype sys @ '', subvol='' @ root_subvolume sys @ '')'') @
         line (''Boot:      '' @ boot_source sys @ '' mounted at '' @ boot_target sys @ '' ('' @ boot_fstype sys @ '')'') @
         line (''Limine:    '' @ quoted (si_limine_config sys)) @
         line (''Snapshots: '' @ dec snapshot_count) @ line []))"

definition plan_text :: "change_plan \<Rightarrow> string" where
  "plan_text plan =
     line (''Target: '' @ quoted (plan_target plan)) @ line (''Action: '' @ change_kind_to_string (plan_kind plan)) @
     line ''Write operations: 0 (dry-run only)''"

definition rollback_status_text :: "rollback_plan \<Rightarrow> string" where
  "rollback_status_text plan =
     line ''Rollback status'' @ line [] @
     line (''Boot mode:          '' @ boot_mode_to_string (boot_mode plan)) @
     line (''Eligible:           '' @ yes_no (eligible plan)) @
     line (''Btrfs source:       '' @ btrfs_source plan) @
     line (''Current subvolume:  '' @ current_subvolume plan) @
     line (''Target subvolume:   '' @ target_subvolume plan) @
     (case snapshot_number plan of None \<Rightarrow> [] | Some n \<Rightarrow> line (''Snapshot ID:        '' @ show_number n)) @
     (if source_snapshot_subvolume plan \<noteq> [] then line (''Source snapshot:    '' @ source_snapshot_subvolume plan) else []) @
     line [] @ line ''Diagnostics:'' @
     concat (map (\<lambda>item. line (''['' @ rollback_severity_to_string (r_severity item) @ ''] '' @ r_code item @ '': '' @ r_message item))
       (r_diagnostics plan))"

definition rollback_plan_text :: "rollback_plan \<Rightarrow> string" where
  "rollback_plan_text plan =
     rollback_status_text plan @ line [] @ line ''Rollback plan'' @ line [] @
     line (''Source snapshot:    '' @ (case snapshot_number plan of Some n \<Rightarrow> show_number n | None \<Rightarrow> ''unknown'')) @
     line (''Current booted root: '' @ current_subvolume plan) @
     line (''Target root:         '' @ target_subvolume plan) @
     line (''Preserved root:      '' @ preserved_subvolume plan) @
     line (''Replacement root:    '' @ replacement_subvolume plan) @ line [] @ line ''Operations:'' @
     concat (map (\<lambda>(i, operation). line (dec (i + 1) @ ''. '' @ operation))
       (zip [0..<length (operations plan)] (operations plan)))"

section \<open>The options\<close>

definition no_dash :: "string \<Rightarrow> bool" where
  "no_dash a \<longleftrightarrow> a = [] \<or> hd a \<noteq> CHR ''-''"

text \<open>What the commands rely on: the type of an accepted option record.\<close>

definition options_ok :: "cli_options \<Rightarrow> bool" where
  "options_ok cli \<longleftrightarrow>
     (co_log_format cli = ''text'' \<or> co_log_format cli = ''json'') \<and>
     list_all no_dash (co_command cli # co_extra cli) \<and>
     (co_extra cli = [] \<or> co_command cli = ''request-refresh'') \<and>
     (co_help cli \<or> co_version cli \<or>
        co_command cli \<in> set known_commands \<and> (co_backup cli = None \<or> co_command cli = ''restore''))"

definition arguments_ok :: "cli_options \<Rightarrow> bool" where
  "arguments_ok cli \<longleftrightarrow> list_all no_dash (co_command cli # co_extra cli) \<and>
     (co_extra cli = [] \<or> co_command cli = ''request-refresh'')"

lemma Some_elims:
  "(if c then a else b) = Some x \<Longrightarrow> (c \<Longrightarrow> a = Some x \<Longrightarrow> Q) \<Longrightarrow> (\<not> c \<Longrightarrow> b = Some x \<Longrightarrow> Q) \<Longrightarrow> Q"
  "(case ys of [] \<Rightarrow> None | y # zs \<Rightarrow> f y zs) = Some x \<Longrightarrow> (\<And>y zs. ys = y # zs \<Longrightarrow> f y zs = Some x \<Longrightarrow> Q) \<Longrightarrow> Q"
  "None = Some x \<Longrightarrow> Q"
  by (auto split: if_splits list.splits)

lemma arguments_ok_updates:
  assumes "arguments_ok cli"
  shows "arguments_ok (cli\<lparr>co_help := h\<rparr>)" "arguments_ok (cli\<lparr>co_version := h\<rparr>)" "arguments_ok (cli\<lparr>co_verbose := h\<rparr>)"
    "arguments_ok (cli\<lparr>co_log_format := f\<rparr>)" "arguments_ok (cli\<lparr>co_config := p\<rparr>)" "arguments_ok (cli\<lparr>co_backup := p\<rparr>)"
    "\<not> (arg \<noteq> [] \<and> hd arg = CHR ''-'') \<Longrightarrow> co_command cli = [] \<Longrightarrow> arguments_ok (cli\<lparr>co_command := arg\<rparr>)"
    "\<not> (arg \<noteq> [] \<and> hd arg = CHR ''-'') \<Longrightarrow> co_command cli = ''request-refresh'' \<Longrightarrow>
       arguments_ok (cli\<lparr>co_extra := co_extra cli @ [arg]\<rparr>)"
  using assms by (auto simp: arguments_ok_def no_dash_def)

text \<open>One argument taken, with or without its value.\<close>

lemma parse_args_step:
  assumes "parse_args (arg # rest) cli = Some out" "arguments_ok cli"
  shows "\<exists>rest' cli'. length rest' \<le> length rest \<and> parse_args rest' cli' = Some out \<and> arguments_ok cli'"
proof -
  let ?P = "\<exists>rest' cli'. length rest' \<le> length rest \<and> parse_args rest' cli' = Some out \<and> arguments_ok cli'"
  have go: ?P if "parse_args rest cli' = Some out" "arguments_ok cli'" for cli'
    using that by blast
  have go2: ?P if "rest = y # zs" "parse_args zs cli' = Some out" "arguments_ok cli'" for y zs cli'
    using that by (auto intro!: exI [of _ zs] exI [of _ cli'])
  note up = arguments_ok_updates [OF assms(2)]
  from assms(1) show ?thesis
    unfolding parse_args.simps
    by - (elim Some_elims; (erule go | erule (1) go2); (rule up(1-6) | (rule up(7,8), assumption, assumption)))
qed

lemma parse_args_ok: "parse_args args cli = Some out \<Longrightarrow> arguments_ok cli \<Longrightarrow> arguments_ok out"
proof (induction "length args" arbitrary: args cli rule: less_induct)
  case less
  show ?case
  proof (cases args)
    case (Cons arg rest)
    from parse_args_step [OF less.prems(1) [unfolded Cons] less.prems(2)] obtain rest' cli'
      where "length rest' \<le> length rest" "parse_args rest' cli' = Some out" "arguments_ok cli'" by blast
    with less.hyps [of rest' cli'] Cons show ?thesis by simp
  qed (use less.prems in simp)
qed

text \<open>
  C24: an accepted command line is well formed: the log format is one of the two, and unless help or the
  version is asked for, the command is a known one and \<open>--backup\<close> comes with \<open>restore\<close> only; further
  arguments belong to \<open>request-refresh\<close> alone, and neither they nor the command begin with a dash, so no
  misspelt option is taken for an argument.
\<close>

theorem parse_cli_ok: "case parse_cli args of None \<Rightarrow> True | Some cli \<Rightarrow> options_ok cli"
proof (cases "parse_args args default_options")
  case (Some cli)
  have "arguments_ok default_options" by (simp add: arguments_ok_def default_options_def no_dash_def)
  from parse_args_ok [OF Some this] Some show ?thesis
    by (auto simp: parse_cli_def arguments_ok_def options_ok_def)
qed (simp add: parse_cli_def)

end
