(* ===== verification/Commands.thy ===== *)
theory Commands
  imports Command_Line
begin

text \<open>
The commands of src/main.cpp that need no detection of the host, and the refresh loop.

  The loop \<open>do ... while (requests.pending())\<close> is a \<open>partial_function\<close>: \<open>None\<close> when it never ends. The
  lock \<open>RefreshLock\<close> is taken around it and released on every way out.
\<close>

section \<open>Commands that need no detection\<close>

definition cmd_check_config :: "loaded_config \<Rightarrow> ('b session, nat) io" where
  "cmd_check_config loaded =
     say (line (''Configuration valid (schema '' @ dec (unat (schema_version (config_value loaded))) @ ''): '' @ config_name loaded)) 0"

definition cmd_themes :: "('b session, nat) io" where
  "cmd_themes =
     say (line ''Built-in themes:'' @
       concat (map (\<lambda>t. line (''  '' @ preset_name t @ '' - '' @ preset_display_name t)) available_themes)) 0"

definition enabled_text :: "bool \<Rightarrow> string" where
  "enabled_text b = (if b then ''enabled'' else ''disabled'')"

definition installed_text :: "bool \<Rightarrow> string \<Rightarrow> string" where
  "installed_text b yes = (if b then yes else ''not detected'')"

text \<open>The marker is looked up while the text is being printed; a failure leaves the part before it.\<close>

definition cmd_automation_status :: "host_environment \<Rightarrow> app_config \<Rightarrow> ('b session, nat) io" where
  "cmd_automation_status env c =
     andthen (print
       (line (''Automation: '' @ enabled_text (automation_enabled c)) @
        line (''Snapper integration: '' @ enabled_text (automation_snapper c)) @
        line (''Pacman hook: '' @ enabled_text (automation_pacman c)) @
        line (''Debounce: '' @ dec (unat (automation_debounce_seconds c)) @ '' second(s)'') @
        line (''Runtime directory: '' @ quoted (automation_runtime_directory c)) @ ''Pending refresh: ''))
     (bind_io (in_world (pending (automation_runtime_directory c))) (\<lambda>waiting.
      bind_io (look (files_of env)) (\<lambda>fs.
      say (line (yes_no waiting) @
        line (''Refresh service unit: '' @
          installed_text (fs_exists fs ''/usr/lib/systemd/system/limine-manager-refresh.service'') ''installed'') @
        line (''Refresh timer unit: '' @
          installed_text (fs_exists fs ''/usr/lib/systemd/system/limine-manager-refresh.timer'') ''installed'') @
        line (''Snapper plugin: '' @ installed_text (fs_exists fs ''/usr/lib/snapper/plugins/90-limine-manager'') ''installed'') @
        line (''Managed pacman hook: '' @
          installed_text (fs_exists fs ''/etc/pacman.d/hooks/90-limine-manager.hook'') ''present'')) 0)))"

definition request_source :: "cli_options \<Rightarrow> string" where
  "request_source cli = (case co_extra cli of [] \<Rightarrow> ''manual'' | source # _ \<Rightarrow> source)"

text \<open>The reasons for which a request is ignored.\<close>

definition request_ignored :: "cli_options \<Rightarrow> app_config \<Rightarrow> string option" where
  "request_ignored cli c =
     (if \<not> automation_enabled c then Some ''automation is disabled''
      else if request_source cli = ''snapper'' then
        (if \<not> automation_snapper c then Some ''snapper automation is disabled''
         else if \<not> is_relevant_snapper_event (parse_snapper_plugin_event (tl (co_extra cli))) ''/'' then
           Some ''snapper event is not relevant''
         else None)
      else if request_source cli = ''pacman'' \<and> \<not> automation_pacman c then Some ''pacman automation is disabled''
      else None)"

definition cmd_request_refresh :: "host_environment \<Rightarrow> cli_options \<Rightarrow> app_config \<Rightarrow> ('b session, nat) io" where
  "cmd_request_refresh env cli c =
     (case request_ignored cli c of
        Some reason \<Rightarrow> andthen (log_message cli ''info'' ''refresh.ignored'' reason) (ret 0)
      | None \<Rightarrow>
          bind_io (in_world (request_refresh (automation_runtime_directory c) (request_source cli))) (\<lambda>request.
          andthen (log_message cli ''info''
              (if rq_coalesced request then ''refresh.coalesced'' else ''refresh.requested'')
              (if rq_coalesced request then ''refresh already pending'' else ''refresh requested''))
          (bind_io (in_world (he_tool env [''systemctl'', ''restart'', ''limine-manager-refresh.timer''])) (\<lambda>timer.
           if exit_code timer \<noteq> 0 then
             andthen (log_message cli ''warning'' ''refresh.timer''
               ''could not restart limine-manager-refresh.timer; pending marker kept'') (ret 0)
           else ret 0))))"

definition cmd_list_backups :: "path \<Rightarrow> ('b session, nat) io" where
  "cmd_list_backups target =
     bind_io (look (\<lambda>w. list_backups w target)) (\<lambda>backups.
     if backups = [] then say (line (''No backups found for '' @ quoted target @ ''.'')) 0
     else say (concat (map (\<lambda>(i, b). line (dec (i + 1) @ ''. '' @ quoted (bi_path b) @ '' ('' @ dec (bi_size b) @ '' bytes)''))
       (zip [0..<length backups] backups))) 0)"

definition cmd_prune_backups :: "app_config \<Rightarrow> path \<Rightarrow> ('b session, nat) io" where
  "cmd_prune_backups c target =
     andthen (require_root ''prune-backups'')
     (bind_io (in_world (prune target (unat (backup_retention c)))) (\<lambda>removed.
      say (line (''Removed '' @ dec removed @ '' old backup(s); retained '' @ dec (unat (backup_retention c)) @ ''.'')) 0))"

fun is_managed :: "(path \<Rightarrow> path result) \<Rightarrow> path \<Rightarrow> backup_info list \<Rightarrow> bool result" where
  "is_managed canon chosen [] = Inr False"
| "is_managed canon chosen (b # bs) =
     bind_r (canon (bi_path b)) (\<lambda>q. if path_eq q chosen then Inr True else is_managed canon chosen bs)"

definition pruned_text :: "string \<Rightarrow> nat \<Rightarrow> string" where
  "pruned_text label removed = (if removed \<noteq> 0 then line (label @ dec removed @ '' old backup(s)'') else [])"

definition cmd_restore :: "host_environment \<Rightarrow> cli_options \<Rightarrow> app_config \<Rightarrow> path \<Rightarrow> ('b session, nat) io" where
  "cmd_restore env cli c target =
     andthen (require_root ''restore'')
     (bind_io (look (\<lambda>w. list_backups w target)) (\<lambda>backups.
      if backups = [] then throw (Runtime_error (''no backups available for '' @ target))
      else
        bind_io (ask (\<lambda>w. he_weakly env w (case co_backup cli of Some p \<Rightarrow> p | None \<Rightarrow> bi_path (hd backups)))) (\<lambda>chosen.
        bind_io (ask (\<lambda>w. is_managed (he_weakly env w) chosen backups)) (\<lambda>managed.
        if \<not> managed then throw (Runtime_error (''selected file is not a managed backup for '' @ target))
        else
          bind_io (look (\<lambda>w. plan_change env target (fs_read_text (files_of env w) chosen) w)) (\<lambda>plan.
          if \<not> has_changes plan then say (line ''No changes. Backup content is already active.'') 0
          else
            bind_io (look euid) (\<lambda>uid.
            bind_io (in_world (apply_plan (default_runtime_directory uid None (case he_temp env of Inr d \<Rightarrow> d | Inl _ \<Rightarrow> [])) plan)) (\<lambda>result.
            bind_io (in_world (prune target (unat (backup_retention c)))) (\<lambda>removed.
            say (line (''Restored: '' @ quoted chosen) @ line (''Target:   '' @ quoted (ar_target result)) @
              (if ar_backup result \<noteq> [] then line (''Previous active configuration saved as: '' @ quoted (ar_backup result)) else []) @
              pruned_text ''Pruned:   '' removed) 0))))))))"

section \<open>Refreshing\<close>

text \<open>\<open>RefreshLock\<close>\<close>

definition open_refresh_lock :: "path \<Rightarrow> (world, nat) io" where
  "open_refresh_lock runtime_directory =
     (let p = path_append runtime_directory ''refresh.lock'' in
      bind_io (or_throw (create_directories runtime_directory)
        (filesystem_error ''cannot create directories'' runtime_directory)) (\<lambda>_.
      or_throw (sys_open_create p 0x180) (\<lambda>_. Runtime_error (''cannot open refresh lock: '' @ p))))"

definition take_refresh_lock :: "path \<Rightarrow> nat \<Rightarrow> (world, unit) io" where
  "take_refresh_lock runtime_directory fd =
     or_throw (sys_flock fd) (\<lambda>e.
       if e = EWOULDBLOCK then Runtime_error ''another limine-manager refresh operation is active''
       else Runtime_error (''cannot lock refresh: '' @ path_append runtime_directory ''refresh.lock''))"

definition discover_host :: "host_environment \<Rightarrow> app_config \<Rightarrow> ('b session, system_model) io" where
  "discover_host env c = ask (\<lambda>w. discover (he_queries env w) (files_of env w) c)"

record refresh_totals =
  rt_any_changed :: bool
  rt_target :: path
  rt_backup :: path
  rt_pruned :: nat

definition no_refresh :: refresh_totals where
  "no_refresh = \<lparr>rt_any_changed = False, rt_target = [], rt_backup = [], rt_pruned = 0\<rparr>"

text \<open>How one pass of the loop ends: with an exit code, at the loop's condition, or done.\<close>

datatype round_end = Stop nat | Again refresh_totals | Finished refresh_totals

definition retry_request :: "path \<Rightarrow> bool \<Rightarrow> ('b session, unit) io" where
  "retry_request rd consumed =
     (if consumed then bind_io (in_world (request_refresh rd ''retry'')) (\<lambda>_. ret ()) else ret ())"

definition refresh_decide :: "cli_options \<Rightarrow> path \<Rightarrow> bool \<Rightarrow> refresh_result \<Rightarrow> refresh_totals \<Rightarrow> ('b session, round_end) io" where
  "refresh_decide cli rd consumed result t =
     (if \<not> rf_validation_passed result then
        andthen (retry_request rd consumed)
        (andthen (log_message cli ''error'' ''refresh.validation_failed'' ''validation failed; configuration was not changed'')
        (andthen (eprint (line (''Refresh failed: validation found '' @ dec (rf_error_count result) @
            '' error(s). Run '' @ [SQUOTE] @ ''limine-manager validate'' @ [SQUOTE] @ '' for details.'')))
        (ret (Stop 1))))
      else if rf_activation_required result then
        andthen (retry_request rd consumed)
        (andthen (eprint (line (''Refresh skipped: Secure Boot automatic apply is disabled. '' @
            ''Run a successful manual apply, reboot-test it, then set '' @ ''[secure_boot] automatic_apply = true.'')))
        (ret (Stop 1)))
      else
        (let t = (if rf_changed result then
                    t\<lparr>rt_any_changed := True, rt_target := ar_target (rf_apply result), rt_backup := ar_backup (rf_apply result),
                      rt_pruned := rt_pruned t + rf_pruned_backups result\<rparr> else t) in
         andthen (if rf_changed result then log_message cli ''info'' ''refresh.applied'' ''changes applied''
                  else log_message cli ''info'' ''refresh.unchanged'' ''no changes required'')
         (bind_io (in_world (pending rd)) (\<lambda>waiting.
          andthen (if waiting then log_message cli ''info'' ''refresh.coalesced'' ''another pending refresh will be processed'' else ret ())
          (bind_io (in_world (pending rd)) (\<lambda>waiting. ret (if waiting then Again t else Finished t)))))))"

definition refresh_round :: "host_environment \<Rightarrow> cli_options \<Rightarrow> app_config \<Rightarrow> refresh_totals \<Rightarrow> ('b session, round_end) io" where
  "refresh_round env cli c t =
     (let rd = automation_runtime_directory c in
      bind_io (in_world (pending rd)) (\<lambda>consumed.
      andthen (if consumed then in_world (clear_pending rd) else ret ())
      (bind_io (discover_host env c) (\<lambda>m.
       andthen (log_message cli ''info'' ''refresh.validation'' ''validation started'')
       (bind_io (in_world (refresh_run env (model_system m) (model_snapper m) (selected (model_snapshots m)) c)) (\<lambda>result.
        refresh_decide cli rd consumed result t))))))"

text \<open>\<open>do ... while (requests.pending())\<close>; \<open>None\<close> when it never ends.\<close>

partial_function (option) refresh_loop ::
  "host_environment \<Rightarrow> cli_options \<Rightarrow> app_config \<Rightarrow> refresh_totals \<Rightarrow> 'b session \<Rightarrow> ((nat + refresh_totals) result \<times> 'b session) option" where
  "refresh_loop env cli c t s =
     (case refresh_round env cli c t s of
        (Inl e, s') \<Rightarrow> Some (Inl e, s')
      | (Inr (Stop n), s') \<Rightarrow> Some (Inr (Inl n), s')
      | (Inr (Finished t'), s') \<Rightarrow> Some (Inr (Inr t'), s')
      | (Inr (Again t'), s') \<Rightarrow> refresh_loop env cli c t' s')"

definition refresh_summary :: "system_info \<Rightarrow> refresh_totals \<Rightarrow> string" where
  "refresh_summary sys t =
     (if \<not> rt_any_changed t then line (''No changes. '' @ quoted (si_limine_config sys) @ '' is already up to date.'')
      else line (''Refreshed: '' @ quoted (rt_target t)) @
        (if rt_backup t \<noteq> [] then line (''Backup:    '' @ quoted (rt_backup t)) else []) @
        pruned_text ''Pruned:    '' (rt_pruned t))"

text \<open>A computation that may not end: sequencing with one that does, and a destructor.\<close>

type_synonym ('w, 'a) loop_io = "'w \<Rightarrow> ('a result \<times> 'w) option"

definition ends :: "('w, 'a) io \<Rightarrow> ('w, 'a) loop_io" where
  "ends m = (\<lambda>s. Some (m s))"

definition bind_loop :: "('w, 'a) loop_io \<Rightarrow> ('a \<Rightarrow> ('w, 'b) loop_io) \<Rightarrow> ('w, 'b) loop_io" where
  "bind_loop m k = (\<lambda>s. case m s of
       None \<Rightarrow> None | Some (Inl e, s') \<Rightarrow> Some (Inl e, s') | Some (Inr x, s') \<Rightarrow> k x s')"

definition finally_loop :: "('w, 'a) loop_io \<Rightarrow> ('w \<Rightarrow> 'w) \<Rightarrow> ('w, 'a) loop_io" where
  "finally_loop m d = (\<lambda>s. map_option (\<lambda>(r, s'). (r, d s')) (m s))"

definition cmd_refresh :: "host_environment \<Rightarrow> cli_options \<Rightarrow> app_config \<Rightarrow> system_info \<Rightarrow> ('b session, nat) loop_io" where
  "cmd_refresh env cli c sys =
     (let rd = automation_runtime_directory c in
      bind_loop (ends (andthen (require_root ''refresh'') (in_world (open_refresh_lock rd)))) (\<lambda>fd.
      finally_loop
        (bind_loop (ends (in_world (take_refresh_lock rd fd))) (\<lambda>_.
         bind_loop (refresh_loop env cli c no_refresh) (\<lambda>outcome.
         ends (case outcome of Inl n \<Rightarrow> ret n | Inr t \<Rightarrow> say (refresh_summary sys t) 0))))
        (\<lambda>s. s\<lparr>se_world := release_lock fd (se_world s)\<rparr>)))"

end
