(* ===== verification/Main_Program.thy ===== *)
theory Main_Program
  imports Commands
begin

text \<open>
The remaining commands of src/main.cpp and \<open>main\<close> itself: rolling back, the commands on the generated
  menu, the dispatch, and the exit codes.
\<close>

section \<open>Rolling back\<close>

text \<open>The plan: the listing is asked for a Btrfs root only, and its failure becomes a diagnostic.\<close>

definition plan_rollback ::
  "'b btrfs_client \<Rightarrow> system_info \<Rightarrow> snapper_config_info \<Rightarrow> snapshot_info list \<Rightarrow> app_config \<Rightarrow> ('b session, rollback_plan) io" where
  "plan_rollback client sys sc snapshots c =
     bind_io (look (\<lambda>w. default_transaction_id (now w) (pid w))) (\<lambda>transaction.
     bind_io (if root_fstype sys = ''btrfs'' then in_btrfs (attempt (bc_list client ''/'')) else ret (Inr [])) (\<lambda>listing.
     ask (\<lambda>_. build_rollback_plan listing transaction sys sc snapshots c)))"

definition rollback_done_text :: "rollback_result \<Rightarrow> apply_result \<Rightarrow> nat \<Rightarrow> string" where
  "rollback_done_text done_rollback applied removed =
     line ''Rollback completed.'' @ line (''Active root:      '' @ rr_active_subvolume done_rollback) @
     line (''Preserved root:   '' @ rr_preserved_subvolume done_rollback) @
     (if ar_changed applied then
        line (''Limine updated:   '' @ quoted (ar_target applied)) @
        (if ar_backup applied \<noteq> [] then line (''Limine backup:    '' @ quoted (ar_backup applied)) else [])
      else line ''Limine updated:   no changes required'') @
     (if removed \<noteq> 0 then line (''Pruned backups:   '' @ dec removed) else []) @
     line ''Reboot required:  yes''"

text \<open>\<open>generate\<close>, \<open>planner.build\<close>, \<open>apply\<close> and \<open>prune\<close> in a row.\<close>

definition install_menu ::
  "host_environment \<Rightarrow> change_plan \<Rightarrow> system_info \<Rightarrow> app_config \<Rightarrow> ('b session, apply_result \<times> nat) io" where
  "install_menu env plan sys c =
     bind_io (in_world (sb_apply (he_temp env) (he_tool env) None plan sys c)) (\<lambda>applied.
     bind_io (in_world (prune (plan_target plan) (unat (backup_retention c)))) (\<lambda>removed.
     ret (applied, removed)))"

definition cmd_rollback ::
  "host_environment \<Rightarrow> 'b btrfs_client \<Rightarrow> cli_options \<Rightarrow> app_config \<Rightarrow> system_model \<Rightarrow> ('b session, nat) io" where
  "cmd_rollback env client cli c m =
     (let sys = model_system m in
      bind_io (plan_rollback client sys (model_snapper m) (available (model_snapshots m)) c) (\<lambda>rollback.
      if co_command cli = ''rollback-status'' then say (rollback_status_text rollback) 0
      else if co_command cli = ''rollback-plan'' then say (rollback_plan_text rollback) (if eligible rollback then 0 else 1)
      else
        andthen (require_root ''rollback'')
        (if \<not> eligible rollback then say (rollback_plan_text rollback) 1
         else
           bind_io (in_both (rollback_execute client ''/run/limine-manager'' rollback)) (\<lambda>done_rollback.
           bind_io (ask (generate env sys (selected (model_snapshots m)) c)) (\<lambda>menu.
           bind_io (look (plan_change env (si_limine_config sys) menu)) (\<lambda>plan.
           bind_io (install_menu env plan sys c) (\<lambda>(applied, removed).
           say (rollback_done_text done_rollback applied removed) 0)))))))"

section \<open>Commands on the generated menu\<close>

definition report_text :: "validation_report \<Rightarrow> string" where
  "report_text report =
     concat (map (\<lambda>item. line (''['' @ severity_to_string (severity item) @ ''] '' @ code item @ '': '' @ message item))
       (diagnostics report)) @
     line [] @
     line (''Validation '' @ (if valid report then ''passed'' else ''failed'') @ '': '' @ dec (error_count report) @
       '' error(s), '' @ dec (warning_count report) @ '' warning(s).'')"

definition status_code :: "status_report \<Rightarrow> nat" where
  "status_code status = (if \<not> healthy status then 1 else if degraded status then 2 else if changes_pending status then 3 else 0)"

definition cmd_status :: "host_environment \<Rightarrow> app_config \<Rightarrow> system_model \<Rightarrow> validation_report \<Rightarrow> string \<Rightarrow> ('b session, nat) io" where
  "cmd_status env c m report menu =
     bind_io (look (plan_change env (si_limine_config (model_system m)) menu)) (\<lambda>plan.
     bind_io (look (\<lambda>w. list_backups w (plan_target plan))) (\<lambda>backups.
     let status = build_status m report plan backups c in say (status_text status) (status_code status)))"

definition cmd_apply :: "host_environment \<Rightarrow> app_config \<Rightarrow> system_info \<Rightarrow> change_plan \<Rightarrow> ('b session, nat) io" where
  "cmd_apply env c sys plan =
     (if \<not> has_changes plan then say (line (''No changes. '' @ quoted (plan_target plan) @ '' is already up to date.'')) 0
      else
        andthen (require_root ''apply'')
        (bind_io (install_menu env plan sys c) (\<lambda>(applied, removed).
         say (line (''Applied: '' @ quoted (ar_target applied)) @
           (if ar_backup applied \<noteq> [] then line (''Backup:  '' @ quoted (ar_backup applied))
            else line ''Backup:  not required (new file)'') @
           pruned_text ''Pruned:  '' removed) 0)))"

definition cmd_on_plan :: "host_environment \<Rightarrow> cli_options \<Rightarrow> app_config \<Rightarrow> system_info \<Rightarrow> change_plan \<Rightarrow> ('b session, nat) io" where
  "cmd_on_plan env cli c sys plan =
     (if co_command cli = ''plan'' then say (plan_text plan) (if has_changes plan then 3 else 0)
      else if co_command cli = ''diff'' then
        (if \<not> has_changes plan then say (line ''No changes.'') 0 else say (render_diff plan) 3)
      else if co_command cli = ''dry-run'' then
        say (plan_text plan @ (if has_changes plan then line [] @ render_diff plan else line ''No changes would be applied.''))
          (if has_changes plan then 3 else 0)
      else cmd_apply env c sys plan)"

definition cmd_generate :: "host_environment \<Rightarrow> cli_options \<Rightarrow> app_config \<Rightarrow> system_model \<Rightarrow> ('b session, nat) io" where
  "cmd_generate env cli c m =
     (let sys = model_system m; chosen = selected (model_snapshots m) in
      bind_io (look (validate_host env sys (model_snapper m) chosen c)) (\<lambda>report.
      if co_command cli = ''validate'' then say (report_text report) (if valid report then 0 else 1)
      else
        bind_io (ask (generate env sys chosen c)) (\<lambda>menu.
        if co_command cli = ''status'' then cmd_status env c m report menu
        else if \<not> valid report then
          andthen (eprint (line (''Generation aborted because validation found '' @ dec (error_count report) @
            '' error(s). Run '' @ [SQUOTE] @ ''limine-manager validate'' @ [SQUOTE] @ '' for details.'')))
          (ret 1)
        else if co_command cli = ''preview'' then say menu 0
        else
          bind_io (look (plan_change env (si_limine_config sys) menu)) (\<lambda>plan.
          cmd_on_plan env cli c sys plan))))"

section \<open>The program\<close>

definition without_detection :: "host_environment \<Rightarrow> cli_options \<Rightarrow> loaded_config \<Rightarrow> ('b session, nat) io option" where
  "without_detection env cli loaded =
     (let c = config_value loaded; command = co_command cli; target = sp_limine_config (system c) in
      if command = ''show-config'' then Some (say (render_config loaded) 0)
      else if command = ''check-config'' then Some (cmd_check_config loaded)
      else if command = ''themes'' then Some cmd_themes
      else if command = ''automation-status'' then Some (cmd_automation_status env c)
      else if command = ''request-refresh'' then Some (cmd_request_refresh env cli c)
      else if command = ''list-backups'' then Some (cmd_list_backups target)
      else if command = ''prune-backups'' then Some (cmd_prune_backups c target)
      else if command = ''restore'' then Some (cmd_restore env cli c target)
      else None)"

definition with_detection ::
  "host_environment \<Rightarrow> 'b btrfs_client \<Rightarrow> cli_options \<Rightarrow> loaded_config \<Rightarrow> ('b session, nat) loop_io" where
  "with_detection env client cli loaded =
     (let c = config_value loaded; command = co_command cli in
      bind_loop (ends (discover_host env c)) (\<lambda>m.
      bind_loop (ends (print_system_summary (model_system m) (length (selected (model_snapshots m))) loaded cli)) (\<lambda>_.
      if command = ''refresh'' then cmd_refresh env cli c (model_system m)
      else if command = ''rollback-status'' \<or> command = ''rollback-plan'' \<or> command = ''rollback'' then
        ends (cmd_rollback env client cli c m)
      else ends (cmd_generate env cli c m))))"

definition run_command :: "host_environment \<Rightarrow> 'b btrfs_client \<Rightarrow> cli_options \<Rightarrow> ('b session, nat) loop_io" where
  "run_command env client cli =
     bind_loop (ends (ask (\<lambda>w. load_config (files_of env w) (he_default_config env) (co_config cli)))) (\<lambda>loaded.
     case without_detection env cli loaded of
       Some m \<Rightarrow> ends m
     | None \<Rightarrow> with_detection env client cli loaded)"

text \<open>\<open>main\<close>: the exit code and the state it leaves, or \<open>None\<close> when the refresh never ends.\<close>

definition main :: "host_environment \<Rightarrow> 'b btrfs_client \<Rightarrow> string list \<Rightarrow> 'b session \<Rightarrow> (nat \<times> 'b session) option" where
  "main env client args s =
     (case parse_cli args of
        None \<Rightarrow> Some (2, s\<lparr>se_err := se_err s @ usage\<rparr>)
      | Some cli \<Rightarrow>
          if co_help cli then Some (0, s\<lparr>se_out := se_out s @ usage\<rparr>)
          else if co_version cli then Some (0, s\<lparr>se_out := se_out s @ line (''limine-manager '' @ he_version env)\<rparr>)
          else (case run_command env client cli s of
              None \<Rightarrow> None
            | Some (Inr n, s') \<Rightarrow> Some (n, s')
            | Some (Inl e, s') \<Rightarrow> Some (1, s'\<lparr>se_err := se_err s' @ log_text cli ''error'' ''command.failed'' (what e)\<rparr>)))"

section \<open>Reading commands\<close>

text \<open>
  A computation of a user \<open>u\<close> that touches no file, the Btrfs client's state only if \<open>b\<close>, and yields
  a value with \<open>P\<close> if it yields one.
\<close>

definition reads :: "nat \<Rightarrow> bool \<Rightarrow> ('a \<Rightarrow> bool) \<Rightarrow> ('b session, 'a) io \<Rightarrow> bool" where
  "reads u b P m \<longleftrightarrow> (\<forall>s r s'. euid (se_world s) = u \<longrightarrow> m s = (r, s') \<longrightarrow>
     quiet (se_world s) (se_world s') \<and> (b \<or> se_btrfs s' = se_btrfs s) \<and> (\<forall>x. r = Inr x \<longrightarrow> P x))"

named_theorems reads_rules

lemma reads_ret [reads_rules]: "P x \<Longrightarrow> reads u b P (ret x)"
  by (simp add: reads_def ret_def)

lemma reads_throw [reads_rules]: "reads u b P (throw e)"
  by (simp add: reads_def throw_def)

lemma reads_bind [reads_rules]:
  assumes "reads u b (\<lambda>_. True) m" "\<And>x. reads u b P (k x)"
  shows "reads u b P (bind_io m k)"
  unfolding reads_def
proof (intro allI impI)
  fix s r s' assume u: "euid (se_world s) = u" and run: "bind_io m k s = (r, s')"
  obtain r1 s1 where 1: "m s = (r1, s1)" by force
  have q1: "quiet (se_world s) (se_world s1) \<and> (b \<or> se_btrfs s1 = se_btrfs s)" "euid (se_world s1) = u"
    using assms(1) [unfolded reads_def, rule_format, OF u 1] u by (simp_all add: quiet_def)
  show "quiet (se_world s) (se_world s') \<and> (b \<or> se_btrfs s' = se_btrfs s) \<and> (\<forall>x. r = Inr x \<longrightarrow> P x)"
  proof (cases r1)
    case (Inl e)
    with run 1 q1 show ?thesis by (auto simp: bind_io_def)
  next
    case (Inr x)
    then have "k x s1 = (r, s')" using run 1 by (simp add: bind_io_def)
    with assms(2) [of x] q1(2) have "quiet (se_world s1) (se_world s') \<and> (b \<or> se_btrfs s' = se_btrfs s1) \<and> (\<forall>x. r = Inr x \<longrightarrow> P x)"
      unfolding reads_def by blast
    with q1(1) quiet_trans show ?thesis by auto
  qed
qed

lemma reads_andthen [reads_rules]: "reads u b (\<lambda>_. True) m \<Longrightarrow> reads u b P k \<Longrightarrow> reads u b P (andthen m k)"
  unfolding andthen_def by (rule reads_bind)

lemma reads_output [reads_rules]:
  "reads u b (\<lambda>_. True) (print m)" "reads u b (\<lambda>_. True) (eprint m)" "reads u b (\<lambda>_. True) (log_message cli l e m)"
  by (simp_all add: reads_def print_def eprint_def log_message_def modify_def)

lemma reads_look [reads_rules]: "reads u b (\<lambda>_. True) (look f)" "reads u b (\<lambda>_. True) (ask q)"
  by (simp_all add: reads_def look_def ask_def)

lemma reads_branch [reads_rules]:
  "reads u b P m \<Longrightarrow> reads u b P m' \<Longrightarrow> reads u b P (if c then m else m')"
  "(\<And>x y. reads u b P (f x y)) \<Longrightarrow> reads u b P (case z of (x, y) \<Rightarrow> f x y)"
  by (simp_all split: prod.split)

lemma reads_pending [reads_rules]: "reads u b (\<lambda>_. True) (in_world (pending rd))"
  using pending_spec by (fastforce simp: reads_def in_world_def split: prod.splits)

lemma reads_btrfs [reads_rules]: "reads u True (\<lambda>_. True) (in_btrfs m)"
  by (auto simp: reads_def in_btrfs_def split: prod.splits)

lemma reads_unprivileged [reads_rules]: "u \<noteq> 0 \<Longrightarrow> reads u b P (andthen (require_root name) m)"
  by (auto simp: reads_def require_root_def andthen_def bind_io_def look_def throw_def)

lemma reads_say [reads_rules]: "P n \<Longrightarrow> reads u b P (say m n)"
  unfolding say_def by (intro reads_rules)

definition exit_code_ok :: "nat \<Rightarrow> bool" where
  "exit_code_ok n \<longleftrightarrow> n \<le> 3"

lemma exit_codes [simp]: "exit_code_ok 0" "exit_code_ok (Suc 0)" "exit_code_ok 2" "exit_code_ok 3"
  by (simp_all add: exit_code_ok_def)

text \<open>The commands that change files, with the privileges they need.\<close>

definition writing :: "string \<Rightarrow> nat \<Rightarrow> bool" where
  "writing command uid \<longleftrightarrow> command = ''request-refresh'' \<or>
     (uid = 0 \<and> (command = ''apply'' \<or> command = ''refresh'' \<or> command = ''restore'' \<or> command = ''prune-backups'' \<or>
        command = ''rollback''))"

definition asks_btrfs :: "string \<Rightarrow> bool" where
  "asks_btrfs command \<longleftrightarrow> command = ''rollback-status'' \<or> command = ''rollback-plan'' \<or> command = ''rollback''"

lemma reads_plan_rollback [reads_rules]: "reads u True (\<lambda>_. True) (plan_rollback client sys sc snapshots c)"
  unfolding plan_rollback_def by (intro reads_rules) simp

lemma reads_cmd_rollback:
  "\<not> writing (co_command cli) u \<Longrightarrow> asks_btrfs (co_command cli) \<Longrightarrow> reads u True exit_code_ok (cmd_rollback env client cli c m)"
  unfolding cmd_rollback_def Let_def
  by (rule reads_bind [OF reads_plan_rollback])
    (auto simp: writing_def asks_btrfs_def intro!: reads_say reads_unprivileged)

lemma status_code_ok [simp]: "exit_code_ok (status_code status)"
  by (simp add: status_code_def)

lemma reads_cmd_apply [reads_rules]: "u \<noteq> 0 \<Longrightarrow> reads u b exit_code_ok (cmd_apply env c sys plan)"
  unfolding cmd_apply_def by (intro reads_rules) simp

lemma reads_cmd_generate:
  assumes "\<not> writing (co_command cli) u" "co_command cli \<in> set known_commands" "\<not> asks_btrfs (co_command cli)"
    "co_command cli \<noteq> ''refresh''" "without_detection env' cli loaded = None"
  shows "reads u b exit_code_ok (cmd_generate env cli c m)"
proof -
  let ?other = "co_command cli \<noteq> ''validate'' \<and> co_command cli \<noteq> ''status'' \<and> co_command cli \<noteq> ''preview''"
  have "co_command cli = ''plan'' \<or> co_command cli = ''diff'' \<or> co_command cli = ''dry-run'' \<or> u \<noteq> 0"
    if ?other
    using assms that by (auto simp: known_commands_def asks_btrfs_def writing_def without_detection_def Let_def split: if_splits)
  then have plan: "reads u b exit_code_ok (cmd_on_plan env cli c sys plan)"
    if ?other for sys plan
    using that unfolding cmd_on_plan_def by (auto intro!: reads_say reads_cmd_apply simp del: neq0_conv)
  have "reads u b exit_code_ok (if co_command cli = ''preview'' then say menu 0
      else bind_io (look (plan_change env (si_limine_config sys) menu)) (\<lambda>plan. cmd_on_plan env cli c sys plan))"
    if "co_command cli \<noteq> ''validate''" "co_command cli \<noteq> ''status''" for sys menu
    using that by (cases "co_command cli = ''preview''") (auto simp del: neq0_conv intro!: reads_say reads_bind reads_look plan)
  moreover have "reads u b exit_code_ok (cmd_status env c m report menu)" for report menu
    unfolding cmd_status_def Let_def by (intro reads_rules) simp
  ultimately show ?thesis unfolding cmd_generate_def Let_def
    by (intro reads_bind [OF reads_look(1)], cases "co_command cli = ''validate''"; cases "co_command cli = ''status''")
      (auto intro!: reads_bind [OF reads_look(2)] reads_say reads_andthen reads_output reads_ret)
qed


section \<open>The whole program\<close>

definition reads_loop :: "nat \<Rightarrow> bool \<Rightarrow> ('a \<Rightarrow> bool) \<Rightarrow> ('b session, 'a) loop_io \<Rightarrow> bool" where
  "reads_loop u b P m \<longleftrightarrow> (\<forall>s. euid (se_world s) = u \<longrightarrow> (\<exists>r s'. m s = Some (r, s') \<and>
     quiet (se_world s) (se_world s') \<and> (b \<or> se_btrfs s' = se_btrfs s) \<and> (\<forall>x. r = Inr x \<longrightarrow> P x)))"

lemma reads_ends: "reads u b P m \<Longrightarrow> reads_loop u b P (ends m)"
  unfolding reads_def reads_loop_def ends_def by (metis surj_pair)

lemma reads_bind_loop:
  fixes m :: "('b session, 'a) io"
  assumes "reads u b Q m" "\<And>x. Q x \<Longrightarrow> reads_loop u b P (k x)"
  shows "reads_loop u b P (bind_loop (ends m) k)"
  unfolding reads_loop_def
proof (intro allI impI)
  fix s :: "'b session" assume u: "euid (se_world s) = u"
  obtain r s1 where 1: "m s = (r, s1)" by force
  note q = assms(1) [unfolded reads_def, rule_format, OF u 1]
  show "\<exists>r s'. bind_loop (ends m) k s = Some (r, s') \<and>
     quiet (se_world s) (se_world s') \<and> (b \<or> se_btrfs s' = se_btrfs s) \<and> (\<forall>x. r = Inr x \<longrightarrow> P x)"
  proof (cases r)
    case (Inl e)
    with 1 q show ?thesis by (simp add: bind_loop_def ends_def)
  next
    case (Inr x)
    have "euid (se_world s1) = u" using q u by (simp add: quiet_def)
    then obtain r' s' where "k x s1 = Some (r', s')" "quiet (se_world s1) (se_world s')" "b \<or> se_btrfs s' = se_btrfs s1"
        "\<forall>x. r' = Inr x \<longrightarrow> P x"
      using assms(2) [of x] q Inr unfolding reads_loop_def by blast
    with 1 q Inr show ?thesis by (auto simp: bind_loop_def ends_def intro: quiet_trans)
  qed
qed

lemma reads_summary [reads_rules]: "reads u b (\<lambda>_. True) (print_system_summary sys n loaded cli)"
  unfolding print_system_summary_def by (intro reads_rules) simp

lemma reads_without:
  assumes "without_detection env cli loaded = Some m" "\<not> writing (co_command cli) u"
  shows "reads u b exit_code_ok m"
proof -
  have st: "reads u b exit_code_ok (cmd_automation_status env c)" for c
    unfolding cmd_automation_status_def by (intro reads_rules) simp
  have bk: "reads u b exit_code_ok (cmd_list_backups t)" for t
    unfolding cmd_list_backups_def by (intro reads_rules) simp_all
  have w: "reads u b exit_code_ok (cmd_prune_backups c t)" "reads u b exit_code_ok (cmd_restore env cli c t)" if "u \<noteq> 0" for c t
    unfolding cmd_prune_backups_def cmd_restore_def using that by (rule reads_unprivileged)+
  from assms st bk w show ?thesis
    by (auto simp: without_detection_def writing_def Let_def cmd_check_config_def cmd_themes_def simp del: neq0_conv
        intro!: reads_say split: if_splits)
qed

lemma reads_with:
  fixes client :: "'b btrfs_client"
  assumes "without_detection env cli loaded = None" "\<not> writing (co_command cli) u" "co_command cli \<in> set known_commands"
  shows "reads_loop u (asks_btrfs (co_command cli)) exit_code_ok (with_detection env client cli loaded)"
proof -
  let ?b = "asks_btrfs (co_command cli)"
  have r: "reads_loop u ?b exit_code_ok (cmd_refresh env cli c sys :: ('b session, nat) loop_io)" if "co_command cli = ''refresh''" for c sys
  proof -
    have "u \<noteq> 0" using that assms(2) by (simp add: writing_def)
    from reads_unprivileged [OF this, where P = "\<lambda>_. False"]
    show ?thesis unfolding cmd_refresh_def Let_def by (intro reads_bind_loop) blast+
  qed
  have d: "reads u ?b (\<lambda>_. True) (discover_host env c)" for c unfolding discover_host_def by (rule reads_look)
  show ?thesis unfolding with_detection_def Let_def
  proof (intro reads_bind_loop [OF d] reads_bind_loop [OF reads_summary])
    fix m :: system_model
    let ?c = "config_value loaded"
    have "reads_loop u ?b exit_code_ok (ends (cmd_rollback env client cli ?c m))" if ?b
      using reads_cmd_rollback [OF assms(2) that] that by (auto intro!: reads_ends)
    moreover have "reads_loop u ?b exit_code_ok (ends (cmd_generate env cli ?c m) :: ('b session, nat) loop_io)"
      if "\<not> ?b" "co_command cli \<noteq> ''refresh''"
      by (rule reads_ends [OF reads_cmd_generate [OF assms(2,3) that assms(1)]])
    ultimately show "reads_loop u ?b exit_code_ok
        (if co_command cli = ''refresh'' then cmd_refresh env cli ?c (model_system m)
         else if co_command cli = ''rollback-status'' \<or> co_command cli = ''rollback-plan'' \<or> co_command cli = ''rollback'' then
           ends (cmd_rollback env client cli ?c m)
         else ends (cmd_generate env cli ?c m))"
      using r unfolding asks_btrfs_def [symmetric] by presburger
  qed
qed

lemma reads_run:
  assumes "\<not> writing (co_command cli) u" "co_command cli \<in> set known_commands"
  shows "reads_loop u (asks_btrfs (co_command cli)) exit_code_ok (run_command env client cli)"
  unfolding run_command_def
proof (rule reads_bind_loop [OF reads_look(2)])
  fix loaded
  show "reads_loop u (asks_btrfs (co_command cli)) exit_code_ok
      (case without_detection env cli loaded of None \<Rightarrow> with_detection env client cli loaded | Some m \<Rightarrow> ends m)"
    by (auto split: option.split intro!: reads_ends reads_without [OF _ assms(1)] reads_with [OF _ assms])
qed

text \<open>
  C5: without root privileges every command but \<open>request-refresh\<close> is safe to run, whatever the
  configuration and the host: it returns, with an exit code of at most 3, and has touched no file, and of
  the Btrfs client only the rollback commands make any use. The same holds for every command that is not
  meant to write, whoever runs it.
\<close>

theorem main_reads_only:
  "(case parse_cli args of None \<Rightarrow> False | Some cli \<Rightarrow> writing (co_command cli) (euid (se_world s))) \<or>
   (\<exists>n s'. main env client args s = Some (n, s') \<and> n \<le> 3 \<and> quiet (se_world s) (se_world s') \<and>
      (se_btrfs s' = se_btrfs s \<or> (\<exists>cli. parse_cli args = Some cli \<and> asks_btrfs (co_command cli))))"
proof (cases "parse_cli args")
  case None
  then show ?thesis by (simp add: main_def)
next
  case (Some cli)
  show ?thesis
  proof (cases "co_help cli \<or> co_version cli \<or> writing (co_command cli) (euid (se_world s))")
    case True
    with Some show ?thesis by (auto simp: main_def)
  next
    case False
    then have k: "co_command cli \<in> set known_commands" using Some
      by (auto simp: parse_cli_def split: option.splits if_splits)
    from reads_run [OF _ k, of "euid (se_world s)" env client] False obtain r s' where
      "run_command env client cli s = Some (r, s')" "quiet (se_world s) (se_world s')"
      "asks_btrfs (co_command cli) \<or> se_btrfs s' = se_btrfs s" "\<forall>x. r = Inr x \<longrightarrow> exit_code_ok x"
      unfolding reads_loop_def by blast
    with Some False show ?thesis by (cases r) (auto simp: main_def exit_code_ok_def)
  qed
qed

end
