(* ===== verification/Refresh_Loop.thy ===== *)
theory Refresh_Loop
  imports Commands
begin

text \<open>
The refresh command's loop over whole rounds (src/main.cpp): what a round does to the marker of the
  pending request, that the loop ends, and that it loses no request unless a call throws.

  The marker is reached through the interface \<open>request_store\<close> of theory Automation, interpreted here on
  sessions; \<open>refresh_round_stages\<close> splits a round into its parts.
\<close>

section \<open>The marker and the menu\<close>

lemma marker_filename: "filename (marker_of rd) = ''refresh.pending''"
  unfolding marker_of_def by (rule filename_path_append) code_simp

lemma marker_not_sibling: "SLASH \<notin> set sfx \<Longrightarrow> marker_of rd \<noteq> sibling t sfx p n"
proof
  assume s: "SLASH \<notin> set sfx" and e: "marker_of rd = sibling t sfx p n"
  have "last (filename (sibling t sfx p n)) = last (dec n)"
    using s by (simp add: filename_sibling)
  moreover have "isdigit (last (dec n))" using isdigit_dec [of "last (dec n)" n] by simp
  moreover have "\<not> isdigit (last ''refresh.pending'')" by code_simp
  ultimately show False using marker_filename [of rd] unfolding e by simp
qed

lemma parent_path_length: "length (parent_path p) \<le> length p"
proof -
  let ?d = "dropWhile (\<lambda>c. c \<noteq> SLASH) (rev p)"
  have d: "length ?d \<le> length p" using length_dropWhile_le [of "\<lambda>c. c \<noteq> SLASH" "rev p"] by (simp only: length_rev)
  show ?thesis
  proof (cases ?d)
    case Nil
    then show ?thesis unfolding parent_path_def by simp
  next
    case (Cons c e)
    with d have "1 \<le> length p" by simp
    moreover have "length (dropWhile (\<lambda>c. c = SLASH) ?d) \<le> length p"
      using length_dropWhile_le d by (rule order_trans)
    ultimately show ?thesis unfolding parent_path_def Let_def by simp
  qed
qed

lemma ancestors_length: "q \<in> set (ancestors n p) \<Longrightarrow> length q \<le> length p"
  by (induction n arbitrary: p) (auto split: if_splits intro: order_trans [OF _ parent_path_length])

lemma marker_not_ancestor: "marker_of rd \<notin> set (ancestors (length rd) rd)"
proof
  assume "marker_of rd \<in> set (ancestors (length rd) rd)"
  from ancestors_length [OF this] show False
    by (auto simp: marker_of_def path_append_def is_absolute_def split: if_splits)
qed

lemma marker_not_touched: "t \<noteq> marker_of rd \<Longrightarrow> marker_of rd \<notin> apply_names rd t"
  using marker_not_sibling [of "''.tmp''" rd t] marker_not_sibling [of "''.bak''" rd t] marker_not_sibling [of "''.rollback''" rd t]
    marker_not_ancestor [of rd]
  by (auto simp: apply_names_def touched_def siblings_def runtime_names_def marker_of_def path_append_def is_absolute_def)


text \<open>What a refresh may do to the state, unless Secure Boot signing is in use.\<close>

definition manages_alone :: "app_config \<Rightarrow> bool" where
  "manages_alone c \<longleftrightarrow> \<not> (secure_boot_automatic_apply c \<and> secure_boot_protect_config c)"

lemma refresh_run_marker:
  assumes run: "refresh_run env sys sc snapshots c w = (r, v)" and w: "world_ok w" and c: "manages_alone c"
  shows "world_ok v \<and>
    (lookup w (marker_of rd) = None \<and> si_limine_config sys \<noteq> marker_of rd \<and> rd = automation_runtime_directory c \<longrightarrow>
       lookup v (marker_of rd) = None) \<and>
    (\<forall>x. r = Inr x \<longrightarrow> rf_validation_passed x \<and> \<not> rf_activation_required x \<or> v = w)"
proof -
  obtain menu where menu: "generate env sys snapshots c w = Inr menu" using generate_total by blast
  define plan where "plan = plan_change env (si_limine_config sys) menu w"
  have p: "plan_target plan = si_limine_config sys" by (simp add: plan_def plan_change_def build_change_plan_def Let_def)
  show ?thesis
  proof (cases "valid (validate_host env sys sc snapshots c w) \<and> has_changes plan \<and>
      \<not> (sb_enabled (secure_boot sys) \<and> \<not> secure_boot_automatic_apply c)")
    case False
    with run menu w show ?thesis
      by (auto simp: refresh_run_def bind_io_def gets_def ret_def Let_def plan_def [symmetric] split: if_splits)
  next
    case True
    let ?rd = "automation_runtime_directory c"
    obtain r1 u where a: "apply_plan ?rd plan w = (r1, u)" by force
    have sb: "sb_apply (he_temp env) (he_tool env) None plan sys c w = (r1, u)"
      using True c a by (auto simp: sb_apply_def Let_def manages_alone_def)
    note f = apply_plan_frame [OF a w]
    have u: "world_ok u" "si_limine_config sys \<noteq> marker_of ?rd \<Longrightarrow> lookup u (marker_of ?rd) = lookup w (marker_of ?rd)"
      using f True marker_not_touched [of "si_limine_config sys" ?rd] by (auto simp: frame_def p)
    obtain r2 x where pr: "prune (plan_target plan) (unat (backup_retention c)) u = (r2, x)" by force
    note q = prune_names [OF pr u(1)]
    show ?thesis
    proof (cases r1)
      case (Inl e)
      with True sb run menu have "r = Inl e" "v = u"
        by (auto simp: refresh_run_def bind_io_def gets_def Let_def plan_def [symmetric])
      with u show ?thesis by auto
    next
      case (Inr y)
      with True sb run menu pr have "v = x \<and> (\<forall>z. r = Inr z \<longrightarrow> rf_validation_passed z \<and> \<not> rf_activation_required z)"
        by (cases r2) (auto simp: refresh_run_def bind_io_def gets_def ret_def Let_def plan_def [symmetric] empty_refresh_result_def)
      with u q show ?thesis by auto
    qed
  qed
qed

section \<open>The marker in a session\<close>

lemma in_world_run: "in_world m s = (r, s') \<longleftrightarrow> (\<exists>v. m (se_world s) = (r, v) \<and> s' = s\<lparr>se_world := v\<rparr>)"
  by (auto simp: in_world_def split: prod.splits)

definition sound :: "'b session \<Rightarrow> bool" where
  "sound s \<longleftrightarrow> world_ok (se_world s)"

definition requested :: "path \<Rightarrow> 'b session \<Rightarrow> bool" where
  "requested rd s \<longleftrightarrow> marker_present rd (se_world s)"

definition no_marker :: "path \<Rightarrow> 'b session \<Rightarrow> bool" where
  "no_marker rd s \<longleftrightarrow> lookup (se_world s) (marker_of rd) = None"

lemma same_world [simp]:
  "sound (s\<lparr>se_out := x\<rparr>) = sound s" "requested rd (s\<lparr>se_out := x\<rparr>) = requested rd s" "no_marker rd (s\<lparr>se_out := x\<rparr>) = no_marker rd s"
  "sound (s\<lparr>se_err := x\<rparr>) = sound s" "requested rd (s\<lparr>se_err := x\<rparr>) = requested rd s" "no_marker rd (s\<lparr>se_err := x\<rparr>) = no_marker rd s"
  by (simp_all add: sound_def requested_def no_marker_def)

interpretation requests: request_store sound "requested rd" "no_marker rd"
  "\<lambda>source. in_world (request_refresh rd source)" "in_world (pending rd)" "in_world (clear_pending rd)" for rd
proof unfold_locales
  show "\<not> requested rd s" if "no_marker rd s" for s :: "'b session"
    using that marker.gone_absent by (simp add: requested_def no_marker_def)
  show "sound s' \<and> (requested rd s \<longrightarrow> requested rd s') \<and> (\<forall>x. r = Inr x \<longrightarrow> requested rd s')"
    if "sound s" "in_world (request_refresh rd source) s = (r, s')" for s s' :: "'b session" and source r
    using that marker.request_law [of "se_world s" rd source r] by (auto simp: in_world_run sound_def requested_def)
  show "sound s' \<and> requested rd s' = requested rd s \<and> no_marker rd s' = no_marker rd s \<and> (\<forall>b. r = Inr b \<longrightarrow> b = requested rd s)"
    if "sound s" "in_world (pending rd) s = (r, s')" for s s' :: "'b session" and r
    using that marker.waiting_law [of "se_world s" rd r] by (auto simp: in_world_run sound_def requested_def no_marker_def)
  show "sound s' \<and> (r = Inr () \<longrightarrow> no_marker rd s') \<and> (\<forall>e. r = Inl e \<longrightarrow> requested rd s' = requested rd s)"
    if "sound s" "in_world (clear_pending rd) s = (r, s')" for s s' :: "'b session" and r
    using that marker.clear_law [of "se_world s" rd r] by (auto simp: in_world_run sound_def requested_def no_marker_def)
qed

lemma output_run:
  "andthen (eprint m) k s = k (s\<lparr>se_err := se_err s @ m\<rparr>)"
  "andthen (log_message cli l e m') k s = k (s\<lparr>se_err := se_err s @ log_text cli l e m'\<rparr>)"
  "andthen (if c then log_message cli l e m' else ret ()) k s = k (if c then s\<lparr>se_err := se_err s @ log_text cli l e m'\<rparr> else s)"
  "andthen (if c then log_message cli l e m' else log_message cli l e' m'') k s =
     k (s\<lparr>se_err := se_err s @ (if c then log_text cli l e m' else log_text cli l e' m'')\<rparr>)"
  by (simp_all add: andthen_def bind_io_def eprint_def log_message_def modify_def ret_def)

section \<open>The end of a round\<close>

definition round_outcome :: "path \<Rightarrow> 'b session \<Rightarrow> 'b session \<Rightarrow> round_end result \<Rightarrow> bool" where
  "round_outcome rd s s' r \<longleftrightarrow>
     (case r of
        Inl e \<Rightarrow> True
      | Inr (Stop n) \<Rightarrow> n = 1 \<and> (requested rd s \<longrightarrow> requested rd s')
      | Inr (Again t) \<Rightarrow> requested rd s'
      | Inr (Finished t) \<Rightarrow> \<not> requested rd s')"

lemma retry_spec:
  assumes "andthen (retry_request rd consumed) k s = (r, s')" "sound s"
  obtains (thrown) e where "r = Inl e" "sound s'" "requested rd s \<longrightarrow> requested rd s'"
    | (given) u where "k u = (r, s')" "sound u" "requested rd u = (requested rd s \<or> consumed)"
proof -
  obtain r1 u where 1: "(if consumed then bind_io (in_world (request_refresh rd ''retry'')) (\<lambda>_. ret ()) else ret ()) s = (r1, u)" by force
  note g = requests.given_back [OF 1 assms(2)]
  show thesis
  proof (cases r1)
    case (Inl e)
    then have "r = Inl e" "s' = u" using assms(1) 1 by (simp_all add: andthen_def retry_request_def bind_io_def)
    with g show ?thesis by (intro thrown) auto
  next
    case (Inr x)
    then have "k u = (r, s')" using assms(1) 1 by (simp add: andthen_def retry_request_def bind_io_def)
    with g Inr show ?thesis by (intro given [of u]) auto
  qed
qed

lemma decide_stops:
  assumes "\<not> rf_validation_passed result \<or> rf_activation_required result"
  shows "\<exists>k. refresh_decide cli rd consumed result t s = andthen (retry_request rd consumed) k s \<and>
    (\<forall>u. \<exists>m. k u = (Inr (Stop 1), u\<lparr>se_err := se_err u @ m\<rparr>))"
proof (cases "rf_validation_passed result")
  case True
  with assms have "rf_activation_required result" by simp
  with True show ?thesis unfolding refresh_decide_def
    by (simp only: not_True_eq_False if_True if_False) (rule exI, rule conjI, rule refl, auto simp: output_run ret_def)
next
  case False
  then show ?thesis unfolding refresh_decide_def
    by (simp only: not_False_eq_True if_True if_False) (rule exI, rule conjI, rule refl, auto simp: output_run ret_def)
qed

lemma refresh_decide_spec:
  assumes "refresh_decide cli rd consumed result t s = (r, s')" "sound s"
  shows "sound s' \<and> (case r of
      Inl e \<Rightarrow> requested rd s \<longrightarrow> requested rd s'
    | Inr (Stop n) \<Rightarrow> n = 1 \<and> (\<not> rf_validation_passed result \<or> rf_activation_required result) \<and> requested rd s' = (consumed \<or> requested rd s)
    | Inr (Again _) \<Rightarrow> requested rd s \<and> requested rd s'
    | Inr (Finished _) \<Rightarrow> \<not> requested rd s')"
proof (cases "\<not> rf_validation_passed result \<or> rf_activation_required result")
  case True
  then obtain k where k: "andthen (retry_request rd consumed) k s = (r, s')"
      "\<And>u. \<exists>m. k u = (Inr (Stop 1), u\<lparr>se_err := se_err u @ m\<rparr>)"
    using decide_stops assms(1) by metis
  show ?thesis
  proof (cases rule: retry_spec [OF k(1) assms(2)])
    case (2 u)
    obtain m where "k u = (Inr (Stop 1), u\<lparr>se_err := se_err u @ m\<rparr>)" using k(2) by blast
    with 2 True show ?thesis by auto
  qed simp
next
  case False
  then obtain t' u where u: "bind_io (in_world (pending rd)) (\<lambda>waiting. andthen (if waiting then log_message cli ''info'' ''refresh.coalesced'' ''another pending refresh will be processed'' else ret ())
      (bind_io (in_world (pending rd)) (\<lambda>waiting. ret (if waiting then Again t' else Finished t')))) u = (r, s')"
      "sound u" "requested rd u = requested rd s"
    using assms by (auto simp: refresh_decide_def output_run Let_def)
  obtain r1 u1 where 1: "in_world (pending rd) u = (r1, u1)" by force
  note l1 = requests.waiting_law [OF u(2) 1]
  show ?thesis
  proof (cases r1)
    case (Inl e)
    with u(1,3) 1 l1 show ?thesis by (auto simp: bind_io_def)
  next
    case (Inr b)
    define u2 where "u2 = (if b then u1\<lparr>se_err := se_err u1 @ log_text cli ''info'' ''refresh.coalesced'' ''another pending refresh will be processed''\<rparr> else u1)"
    have 2: "bind_io (in_world (pending rd)) (\<lambda>waiting. ret (if waiting then Again t' else Finished t')) u2 = (r, s')"
      using u(1) by (simp add: bind_io_Inr [where m = "in_world (pending rd)", OF 1 [unfolded Inr]] output_run u2_def)
    have s2: "sound u2" "requested rd u2 = requested rd s" using l1 u(3) by (simp_all add: u2_def)
    obtain r3 u3 where 3: "in_world (pending rd) u2 = (r3, u3)" by force
    from requests.waiting_law [OF s2(1) 3] 2 3 s2 show ?thesis
      by (cases r3) (auto simp: bind_io_def ret_def)
  qed
qed

text \<open>The marker is not the configuration that is managed.\<close>

definition marker_apart :: "app_config \<Rightarrow> bool" where
  "marker_apart c \<longleftrightarrow> sp_limine_config (system c) \<noteq> marker_of (automation_runtime_directory c)"

lemma discovered_apart:
  assumes "discover q (files_of env w) c = Inr m" "marker_apart c"
  shows "si_limine_config (model_system m) \<noteq> marker_of (automation_runtime_directory c)"
proof
  assume e: "si_limine_config (model_system m) = marker_of (automation_runtime_directory c)"
  have "detect q (files_of env w) (system c) = Inr (model_system m)"
    using assms(1) by (auto simp: discover_def bind_r_eq_Inr Let_def)
  from detected_config [OF this] discovered_config have
    "si_limine_config (model_system m) = sp_limine_config (system c) \<or> filename (si_limine_config (model_system m)) = ''limine.conf''"
    unfolding files_of_def by simp
  then show False using assms(2) by (simp add: e marker_filename marker_apart_def)
qed

section \<open>A round\<close>

lemma refresh_round_stages:
  fixes s s' :: "'b session"
  assumes "refresh_round env cli c t s = (r, s')" "sound s"
  obtains (untaken) e where "r = Inl e" "sound s'" "requested (automation_runtime_directory c) s' = requested (automation_runtime_directory c) s"
    | (undiscovered) e where "r = Inl e" "sound s'"
    | (ran) m and u :: "'b session" and r2 u2 where "sound u" "\<not> requested (automation_runtime_directory c) u" 
        "requested (automation_runtime_directory c) s \<or> no_marker (automation_runtime_directory c) s \<longrightarrow> no_marker (automation_runtime_directory c) u"
        "discover (he_queries env (se_world u)) (files_of env (se_world u)) c = Inr m"
        "refresh_run env (model_system m) (model_snapper m) (selected (model_snapshots m)) c (se_world u) = (r2, se_world u2)"
        "case r2 of Inl e \<Rightarrow> r = Inl e \<and> s' = u2 | Inr x \<Rightarrow> refresh_decide cli (automation_runtime_directory c) (requested (automation_runtime_directory c) s) x t u2 = (r, s')"
proof -
  let ?rd = "automation_runtime_directory c"
  define work :: "bool \<Rightarrow> ('b session, round_end) io" where "work consumed = bind_io (discover_host env c) (\<lambda>m.
       andthen (log_message cli ''info'' ''refresh.validation'' ''validation started'')
       (bind_io (in_world (refresh_run env (model_system m) (model_snapper m) (selected (model_snapshots m)) c)) (\<lambda>result.
        refresh_decide cli ?rd consumed result t)))" for consumed :: bool
  have run: "bind_io (in_world (pending ?rd)) (\<lambda>b. bind_io (if b then in_world (clear_pending ?rd) else ret ()) (\<lambda>_. work b)) s = (r, s')"
    using assms(1) by (simp add: refresh_round_def Let_def andthen_def work_def)
  show thesis
  proof (cases rule: requests.taken [OF run assms(2)])
    case (1 e)
    then show ?thesis by (rule untaken)
  next
    case (2 u)
    obtain d u0 where "discover_host env c u = (d, u0)" by force
    then have d: "discover_host env c u = (d, u)" "d = discover (he_queries env (se_world u)) (files_of env (se_world u)) c"
      by (auto simp: discover_host_def ask_def)
    show ?thesis
    proof (cases d)
      case (Inl e)
      with 2(1) d(1) have "r = Inl e" "s' = u" by (simp_all add: work_def bind_io_Inl)
      with 2 show ?thesis by (intro undiscovered) simp_all
    next
      case (Inr m)
      let ?run = "refresh_run env (model_system m) (model_snapper m) (selected (model_snapshots m)) c"
      have dm: "discover_host env c u = (Inr m, u)" using d(1) Inr by simp
      define u1 where "u1 = u\<lparr>se_err := se_err u @ log_text cli ''info'' ''refresh.validation'' ''validation started''\<rparr>"
      obtain r2 u2 where 3: "in_world ?run u1 = (r2, u2)" by force
      have run2: "bind_io (in_world ?run) (\<lambda>result. refresh_decide cli ?rd (requested ?rd s) result t) u1 = (r, s')"
        using 2(1) by (simp add: work_def bind_io_Inr [where m = "discover_host env c", OF dm] output_run u1_def)
      have v: "?run (se_world u) = (r2, se_world u2)" using 3 by (auto simp: in_world_run u1_def)
      have "case r2 of Inl e \<Rightarrow> r = Inl e \<and> s' = u2 | Inr x \<Rightarrow> refresh_decide cli ?rd (requested ?rd s) x t u2 = (r, s')"
      proof (cases r2)
        case r2: (Inl e)
        show ?thesis using run2 by (auto simp: bind_io_Inl [where m = "in_world ?run", OF 3 [unfolded r2]] r2)
      next
        case r2: (Inr x)
        show ?thesis using run2 by (simp add: bind_io_Inr [where m = "in_world ?run", OF 3 [unfolded r2]] r2)
      qed
      with 2 d(2) Inr v show ?thesis by (intro ran [of u m r2 u2]) simp_all
    qed
  qed
qed

lemma refresh_round_spec:
  assumes "refresh_round env cli c t s = (r, s')" "sound s" "manages_alone c"
  shows "sound s' \<and> round_outcome (automation_runtime_directory c) s s' r \<and>
    (marker_apart c \<and> requested (automation_runtime_directory c) s \<longrightarrow> (\<forall>t'. r \<noteq> Inr (Again t')))"
proof -
  let ?rd = "automation_runtime_directory c"
  show ?thesis
  proof (cases rule: refresh_round_stages [OF assms(1,2)])
    case (3 m u r2 u2)
    note run = refresh_run_marker [OF 3(5) _ assms(3), of ?rd]
    have su: "sound u2" using run 3(1) by (simp add: sound_def)
    have gone: "\<not> requested ?rd u2" if "marker_apart c" "requested ?rd s"
    proof -
      have "no_marker ?rd u2" using that run 3(1,3) discovered_apart [OF 3(4)] by (auto simp: no_marker_def sound_def)
      then show ?thesis by (rule requests.gone_absent)
    qed
    show ?thesis
    proof (cases r2)
      case (Inl e)
      with 3(6) su show ?thesis by (simp add: round_outcome_def)
    next
      case (Inr x)
      with refresh_decide_spec [OF _ su] 3(6) have "sound s' \<and> (case r of
          Inl e \<Rightarrow> requested ?rd u2 \<longrightarrow> requested ?rd s'
        | Inr (Stop n) \<Rightarrow> n = 1 \<and> (\<not> rf_validation_passed x \<or> rf_activation_required x) \<and>
            requested ?rd s' = (requested ?rd s \<or> requested ?rd u2)
        | Inr (Again _) \<Rightarrow> requested ?rd u2 \<and> requested ?rd s'
        | Inr (Finished _) \<Rightarrow> \<not> requested ?rd s')" by fastforce
      with gone show ?thesis by (auto simp: round_outcome_def split: sum.splits round_end.splits)
    qed
  qed (simp_all add: round_outcome_def)
qed

section \<open>The loop\<close>

lemma refresh_loop_once:
  "refresh_loop env cli c t s = (case refresh_round env cli c t s of
       (Inr (Again t'), s') \<Rightarrow> refresh_loop env cli c t' s'
     | (r, s') \<Rightarrow> Some (map_sum id (\<lambda>x. case x of Stop n \<Rightarrow> Inl n | Finished t' \<Rightarrow> Inr t' | Again t' \<Rightarrow> Inr t') r, s'))"
  by (subst refresh_loop.simps) (auto split: prod.splits sum.splits round_end.splits)


text \<open>What a loop that ended has done with the requests.\<close>

definition loop_outcome :: "path \<Rightarrow> 'b session \<Rightarrow> (nat + refresh_totals) result \<times> 'b session \<Rightarrow> bool" where
  "loop_outcome rd s y \<longleftrightarrow>
     (case y of
        (Inl e, s') \<Rightarrow> True
      | (Inr (Inl n), s') \<Rightarrow> n = 1 \<and> (requested rd s \<longrightarrow> requested rd s')
      | (Inr (Inr t), s') \<Rightarrow> \<not> requested rd s')"

lemma refresh_loop_outcome:
  "refresh_loop env cli c t s = Some y \<Longrightarrow> sound s \<and> manages_alone c \<longrightarrow> loop_outcome (automation_runtime_directory c) s y"
proof (rule refresh_loop.raw_induct [where P = "\<lambda>env cli c t s y. sound s \<and> manages_alone c \<longrightarrow>
    loop_outcome (automation_runtime_directory c) s y"], goal_cases)
  case (1 loop env cli c t s y)
  obtain r s1 where r1: "refresh_round env cli c t s = (r, s1)" by force
  show ?case
  proof (rule impI)
    assume a: "sound s \<and> manages_alone c"
    with refresh_round_spec [OF r1] have rs: "sound s1" "round_outcome (automation_runtime_directory c) s s1 r" by blast+
    show "loop_outcome (automation_runtime_directory c) s y"
    proof (cases "\<exists>t'. r = Inr (Again t')")
      case True
      then obtain t' where t': "r = Inr (Again t')" by blast
      with 1(3) r1 have "loop env cli c t' s1 = Some y" by simp
      with 1(2) [OF this] a rs t' show ?thesis
        by (auto simp: loop_outcome_def round_outcome_def split: prod.splits sum.splits)
    next
      case False
      with 1(3) r1 rs show ?thesis
        by (auto simp: loop_outcome_def round_outcome_def split: sum.splits round_end.splits)
    qed
  qed
qed assumption


definition waiting_session :: "unit session" where
  "waiting_session = \<lparr>se_world = sample_host ((''/run/limine-manager/refresh.pending'', plain_file (''1 pacman'' @ [NL])) # installed_files) [],
     se_btrfs = (), se_out = [], se_err = []\<rparr>"

lemma failed_round_drops_request:
  "let rd = automation_runtime_directory keep_all in
   marker_present rd (se_world waiting_session) \<and>
   (case refresh_round sample_environment default_options keep_all no_refresh waiting_session of
      (Inl e, s') \<Rightarrow> \<not> marker_present rd (se_world s')
    | (Inr x, s') \<Rightarrow> False)"
  by code_simp

lemma waiting_session_ok: "world_ok (se_world waiting_session)"
  unfolding waiting_session_def by simp


text \<open>A host that answers, but does not pass the validation.\<close>

definition answering_environment :: host_environment where
  "answering_environment = sample_environment\<lparr>he_queries := (\<lambda>_ argv.
     Inr \<lparr>exit_code = 0, proc_output = (if argv ! 0 = ''snapper'' then [] else ''x'')\<rparr>)\<rparr>"

definition refused_round :: "round_end result \<times> unit session" where
  "refused_round = refresh_round answering_environment default_options keep_all no_refresh waiting_session"

lemma refused_round_runs:
  "case refused_round of (Inr (Stop n), s') \<Rightarrow> n = 1 | _ \<Rightarrow> False" "marker_present ''/run/limine-manager'' (se_world waiting_session)"
  by code_simp+



end
