(* ===== verification/Refresh_Protocol.thy ===== *)
theory Refresh_Protocol
  imports Refresh_Loop
begin

text \<open>
The refresh loop and the processes that make requests meanwhile, as a state machine: the accesses of
  src/main.cpp (the do-while loop of the refresh command) to the marker file one by one, interleaved with
  requests. Its invariant gives that no request is lost, and the rounds of theory Refresh_Loop are shown
  to be runs of it. Other refreshes are kept out by the refresh lock.
\<close>

section \<open>The protocol\<close>

datatype ending = Done | Refused | Thrown

datatype phase = At_check | At_clear | At_discover | At_run | At_decide | Left ending

record protocol =
  pr_phase :: phase
  pr_marker :: bool
  pr_taken :: bool
  pr_unseen :: bool
  pr_running :: bool

text \<open>
  \<open>pr_unseen\<close>: some request is younger than the last discovery that was followed by a finished run;
  \<open>pr_running\<close>: some request is older than the current discovery, whose run has not finished.
\<close>

inductive refresh_step :: "protocol \<Rightarrow> protocol \<Rightarrow> bool" where
  request: "refresh_step p (p\<lparr>pr_marker := True, pr_unseen := True\<rparr>)"
| check: "pr_phase p = At_check \<Longrightarrow> refresh_step p (p\<lparr>pr_phase := At_clear, pr_taken := pr_marker p\<rparr>)"
| clear: "pr_phase p = At_clear \<Longrightarrow>
    refresh_step p (p\<lparr>pr_phase := At_discover, pr_marker := (if pr_taken p then False else pr_marker p)\<rparr>)"
| discover: "pr_phase p = At_discover \<Longrightarrow>
    refresh_step p (p\<lparr>pr_phase := At_run, pr_running := pr_unseen p, pr_unseen := False\<rparr>)"
| finish_run: "pr_phase p = At_run \<Longrightarrow> refresh_step p (p\<lparr>pr_phase := At_decide, pr_running := False\<rparr>)"
| refuse: "pr_phase p = At_run \<Longrightarrow>
    refresh_step p (p\<lparr>pr_phase := Left Refused, pr_marker := pr_marker p \<or> pr_taken p,
      pr_unseen := pr_unseen p \<or> pr_running p, pr_running := False\<rparr>)"
| again: "pr_phase p = At_decide \<Longrightarrow> pr_marker p \<Longrightarrow> refresh_step p (p\<lparr>pr_phase := At_check\<rparr>)"
| finish: "pr_phase p = At_decide \<Longrightarrow> \<not> pr_marker p \<Longrightarrow> refresh_step p (p\<lparr>pr_phase := Left Done\<rparr>)"
| throw_away: "\<forall>e. pr_phase p \<noteq> Left e \<Longrightarrow>
    refresh_step p (p\<lparr>pr_phase := Left Thrown, pr_unseen := pr_unseen p \<or> pr_running p, pr_running := False\<rparr>)"

text \<open>The start: requests that were made left the marker.\<close>

definition at_start :: "protocol \<Rightarrow> bool" where
  "at_start p \<longleftrightarrow> pr_phase p = At_check \<and> \<not> pr_running p \<and> (pr_marker p \<or> \<not> pr_unseen p)"

inductive reachable :: "protocol \<Rightarrow> bool" where
  start: "at_start p \<Longrightarrow> reachable p"
| step: "reachable p \<Longrightarrow> refresh_step p q \<Longrightarrow> reachable q"

inductive_cases left_step: "refresh_step p q"

definition accounted :: "protocol \<Rightarrow> bool" where
  "accounted p \<longleftrightarrow>
     (case pr_phase p of
        At_discover \<Rightarrow> (pr_unseen p \<longrightarrow> pr_marker p \<or> pr_taken p) \<and> \<not> pr_running p
      | At_run \<Rightarrow> (pr_unseen p \<longrightarrow> pr_marker p) \<and> (pr_running p \<longrightarrow> pr_marker p \<or> pr_taken p)
      | Left Thrown \<Rightarrow> \<not> pr_running p
      | _ \<Rightarrow> (pr_unseen p \<longrightarrow> pr_marker p) \<and> \<not> pr_running p)"

lemma accounted_step: "refresh_step p q \<Longrightarrow> accounted p \<Longrightarrow> accounted q"
  by (induction rule: refresh_step.induct) (auto simp: accounted_def split: phase.splits ending.splits if_splits)

lemma reachable_accounted: "reachable p \<Longrightarrow> accounted p"
proof (induction rule: reachable.induct)
  case (start p)
  then show ?case by (auto simp: accounted_def at_start_def)
next
  case (step p q)
  then show ?case by (blast intro: accounted_step)
qed

text \<open>
  C7: with other processes making requests at any moment, no request is ever forgotten: when the
  refresh has left the loop other than by an exception, a request that no finished run has seen has its
  marker on disk, so the next refresh will take it.
\<close>

theorem no_request_lost:
  assumes "reachable p" and "pr_phase p = Left Done \<or> pr_phase p = Left Refused" and "pr_unseen p"
  shows "pr_marker p"
  using reachable_accounted [OF assms(1)] assms(2,3) by (auto simp: accounted_def)

section \<open>The code follows the protocol\<close>

text \<open>A session at the head of the loop, with \<open>unseen\<close> as the protocol's ghost.\<close>

definition protocol_of :: "path \<Rightarrow> 'b session \<Rightarrow> bool \<Rightarrow> protocol" where
  "protocol_of rd s unseen =
     \<lparr>pr_phase = At_check, pr_marker = requested rd s, pr_taken = False, pr_unseen = unseen, pr_running = False\<rparr>"

definition phase_of :: "round_end result \<Rightarrow> phase" where
  "phase_of r =
     (case r of
        Inl e \<Rightarrow> Left Thrown
      | Inr (Stop n) \<Rightarrow> Left Refused
      | Inr (Again t) \<Rightarrow> At_check
      | Inr (Finished t) \<Rightarrow> Left Done)"

definition marker_plain :: "path \<Rightarrow> 'b session \<Rightarrow> bool" where
  "marker_plain rd s \<longleftrightarrow>
     (case inode_at (se_world s) (marker_of rd) of
        None \<Rightarrow> True
      | Some i \<Rightarrow> (case ino_kind i of Symlink _ \<Rightarrow> False | _ \<Rightarrow> True))"

lemma plain_requested: "marker_plain rd s \<Longrightarrow> \<not> requested rd s \<Longrightarrow> no_marker rd s"
proof -
  assume p: "marker_plain rd s" "\<not> requested rd s"
  have "last_name (Suc n) (se_world s) (marker_of rd) = Some (marker_of rd)" for n
    using p(1) by (auto simp: marker_plain_def split: option.splits file_kind.splits)
  from this [of 39] have l: "last_name 40 (se_world s) (marker_of rd) = Some (marker_of rd)" by simp
  with p(2) show ?thesis by (simp add: requested_def marker_present_def no_marker_def)
qed

abbreviation refresh_steps :: "protocol \<Rightarrow> protocol \<Rightarrow> bool" where
  "refresh_steps \<equiv> refresh_step\<^sup>*\<^sup>*"

text \<open>The steps up to the run, one after the other, when nobody else makes a request.\<close>

lemma protocol_runs:
  fixes m u :: bool
  defines "p \<equiv> \<lparr>pr_phase = At_check, pr_marker = m, pr_taken = False, pr_unseen = u, pr_running = False\<rparr>"
  shows "refresh_steps p \<lparr>pr_phase = Left Thrown, pr_marker = m, pr_taken = False, pr_unseen = u, pr_running = False\<rparr>"
    "refresh_steps p \<lparr>pr_phase = Left Thrown, pr_marker = False, pr_taken = m, pr_unseen = u, pr_running = False\<rparr>"
    "refresh_steps p \<lparr>pr_phase = Left Refused, pr_marker = m, pr_taken = m, pr_unseen = u, pr_running = False\<rparr>"
    "refresh_steps p \<lparr>pr_phase = Left Done, pr_marker = False, pr_taken = m, pr_unseen = False, pr_running = False\<rparr>"
proof -
  let ?st = "\<lambda>ph k t un ru. \<lparr>pr_phase = ph, pr_marker = k, pr_taken = t, pr_unseen = un, pr_running = ru\<rparr>"
  have 1: "refresh_step p (?st At_clear m m u False)" using check [of p] by (simp add: p_def)
  have 2: "refresh_step (?st At_clear m m u False) (?st At_discover False m u False)"
    using clear [of "?st At_clear m m u False"] by (cases m) simp_all
  have 3: "refresh_step (?st At_discover False m u False) (?st At_run False m False u)"
    using discover [of "?st At_discover False m u False"] by simp
  have 4: "refresh_step (?st At_run False m False u) (?st At_decide False m False False)"
    using finish_run [of "?st At_run False m False u"] by simp
  have 5: "refresh_step (?st At_decide False m False False) (?st (Left Done) False m False False)"
    using finish [of "?st At_decide False m False False"] by simp
  have 6: "refresh_step (?st At_run False m False u) (?st (Left Refused) m m u False)"
    using refuse [of "?st At_run False m False u"] by simp
  have 7: "refresh_step (?st At_run False m False u) (?st (Left Thrown) False m u False)"
    using throw_away [of "?st At_run False m False u"] by simp
  have 8: "refresh_step p (?st (Left Thrown) m False u False)" using throw_away [of p] by (simp add: p_def)
  show "refresh_steps p (?st (Left Thrown) m False u False)" using 8 by simp
  have run: "refresh_steps p (?st At_run False m False u)" using 1 2 3 by (meson r_into_rtranclp rtranclp_trans)
  from run 7 show "refresh_steps p (?st (Left Thrown) False m u False)" by (rule rtranclp.rtrancl_into_rtrancl)
  from run 6 show "refresh_steps p (?st (Left Refused) m m u False)" by (rule rtranclp.rtrancl_into_rtrancl)
  from run 4 5 show "refresh_steps p (?st (Left Done) False m False False)" by (meson rtranclp.rtrancl_into_rtrancl)
qed




lemma reachable_steps: "refresh_steps p q \<Longrightarrow> reachable p \<Longrightarrow> reachable q"
  by (induction rule: rtranclp_induct) (blast intro: reachable.step)+

lemma start_reachable: "\<not> unseen \<or> requested rd s \<Longrightarrow> reachable (protocol_of rd s unseen)"
  by (rule reachable.start) (auto simp: at_start_def protocol_of_def)

text \<open>An exception after the request was taken forgets it.\<close>

lemma exception_loses_request: "\<exists>p. reachable p \<and> pr_phase p = Left Thrown \<and> pr_unseen p \<and> \<not> pr_marker p"
proof -
  let ?p = "\<lparr>pr_phase = At_check, pr_marker = True, pr_taken = False, pr_unseen = True, pr_running = False\<rparr>"
  have "reachable ?p" by (rule reachable.start) (simp add: at_start_def)
  from reachable_steps [OF protocol_runs(2) this] show ?thesis by auto
qed

theorem no_request_lost_witness:
  "\<exists>p. reachable p \<and> pr_phase p = Left Refused \<and> pr_unseen p \<and> pr_marker p"
proof -
  let ?p = "\<lparr>pr_phase = At_check, pr_marker = True, pr_taken = False, pr_unseen = True, pr_running = False\<rparr>"
  let ?q = "\<lparr>pr_phase = Left Refused, pr_marker = True, pr_taken = True, pr_unseen = True, pr_running = False\<rparr>"
  have "reachable ?p" by (rule reachable.start) (simp add: at_start_def)
  from reachable_steps [OF protocol_runs(3) this] have q: "reachable ?q" .
  from no_request_lost [OF q] q show ?thesis by auto
qed


end
