(* ===== verification/Process_Runner.thy ===== *)
theory Process_Runner
  imports Posix System_Model
begin

text \<open>
  The process runner (infrastructure/process.cpp): a child with its output on a pipe, the loop that reads
  it, and waiting for it. The descriptors and children of the manager are the state; the calls may be
  interrupted, fail, or transfer less, as a script says. A run always ends, leaves no descriptor open and,
  when it returns, has the whole output and has waited for the child; where no call fails for good it is a
  function from the command to its result, which is how the other components use it.
\<close>

section \<open>Children and descriptors\<close>

datatype wait_status = Exited "8 word" | Signaled nat | Other_status

record child_process =
  ch_output :: string
  ch_status :: wait_status

text \<open>
  The parameters: whether \<open>dup2\<close> fails in the child, and what a program does when it is executed, or the
  error of \<open>execvp\<close>.
\<close>

record process_host =
  ph_dup_fails :: bool
  ph_exec :: "string list \<Rightarrow> errno + child_process"

text \<open>The environment's choice for a call: it goes through, fails, or (\<open>read\<close>) yields \<open>n\<close> bytes at most.\<close>

datatype process_event = Goes | Breaks errno | Partly nat

text \<open>
  \<open>pw_open\<close>: the descriptors the manager has open; \<open>pw_pipe\<close>: what the child writes and nobody has read;
  \<open>pw_children\<close>: the children not waited for, with the status they end with.
\<close>

record process_world =
  pw_open :: "nat list"
  pw_next_fd :: nat
  pw_pipe :: string
  pw_children :: "(nat \<times> wait_status) list"
  pw_next_pid :: nat
  pw_script :: "process_event list"

definition close_fd :: "nat \<Rightarrow> process_world \<Rightarrow> process_world" where
  "close_fd fd w = w\<lparr>pw_open := remove1 fd (pw_open w)\<rparr>"

fun next_event :: "process_event list \<Rightarrow> process_event" where
  "next_event [] = Goes"
| "next_event (e # s) = e"

definition rest_of :: "process_world \<Rightarrow> process_world" where
  "rest_of w = w\<lparr>pw_script := tl (pw_script w)\<rparr>"

definition sys_pipe :: "process_world \<Rightarrow> (errno + nat \<times> nat) \<times> process_world" where
  "sys_pipe w =
     (case next_event (pw_script w) of
        Breaks e \<Rightarrow> (Inl e, rest_of w)
      | _ \<Rightarrow> (Inr (pw_next_fd w, pw_next_fd w + 1),
          (rest_of w)\<lparr>pw_open := pw_next_fd w # (pw_next_fd w + 1) # pw_open w, pw_next_fd := pw_next_fd w + 2, pw_pipe := []\<rparr>))"

text \<open>The child between \<open>fork\<close> and \<open>execvp\<close>.\<close>

definition child_of :: "process_host \<Rightarrow> string list \<Rightarrow> child_process" where
  "child_of host argv =
     (if ph_dup_fails host then \<lparr>ch_output = [], ch_status = Exited 126\<rparr>
      else case ph_exec host argv of
        Inl e \<Rightarrow> \<lparr>ch_output = [], ch_status = Exited (if e = ENOENT then 127 else 126)\<rparr>
      | Inr c \<Rightarrow> c)"

definition sys_fork :: "process_host \<Rightarrow> string list \<Rightarrow> process_world \<Rightarrow> (errno + nat) \<times> process_world" where
  "sys_fork host argv w =
     (case next_event (pw_script w) of
        Breaks e \<Rightarrow> (Inl e, rest_of w)
      | _ \<Rightarrow> (Inr (pw_next_pid w),
          (rest_of w)\<lparr>pw_pipe := ch_output (child_of host argv),
            pw_children := (pw_next_pid w, ch_status (child_of host argv)) # pw_children w, pw_next_pid := pw_next_pid w + 1\<rparr>))"

text \<open>
  \<open>read\<close> on the pipe; \<open>None\<close>: it waits for ever, because the pipe is empty and the reader itself still has
  the end for writing open.
\<close>

definition take_bytes :: "nat \<Rightarrow> nat \<Rightarrow> process_world \<Rightarrow> ((errno + string) \<times> process_world) option" where
  "take_bytes writer n w =
     (if pw_pipe w = [] then (if writer \<in> set (pw_open w) then None else Some (Inr [], rest_of w))
      else Some (Inr (take n (pw_pipe w)), (rest_of w)\<lparr>pw_pipe := drop n (pw_pipe w)\<rparr>))"

definition sys_read_pipe :: "nat \<Rightarrow> process_world \<Rightarrow> ((errno + string) \<times> process_world) option" where
  "sys_read_pipe writer w =
     (case next_event (pw_script w) of
        Breaks e \<Rightarrow> Some (Inl e, rest_of w)
      | Partly n \<Rightarrow> take_bytes writer (max 1 (min n 4096)) w
      | Goes \<Rightarrow> take_bytes writer 4096 w)"

definition sys_waitpid :: "nat \<Rightarrow> process_world \<Rightarrow> (errno + wait_status) \<times> process_world" where
  "sys_waitpid p w =
     (case next_event (pw_script w) of
        Breaks e \<Rightarrow> (Inl e, rest_of w)
      | _ \<Rightarrow> (case map_of (pw_children w) p of
            None \<Rightarrow> (Inl (Errno 10), rest_of w)
          | Some st \<Rightarrow> (Inr st, (rest_of w)\<lparr>pw_children := filter (\<lambda>c. fst c \<noteq> p) (pw_children w)\<rparr>)))"

section \<open>Running a program\<close>

lemma script_rest [simp]: "length (pw_script (rest_of w)) \<le> length (pw_script w)"
  by (simp add: rest_of_def)

lemma script_broken: "next_event (pw_script w) = Breaks e \<Longrightarrow> length (pw_script (rest_of w)) < length (pw_script w)"
  by (cases "pw_script w") (simp_all add: rest_of_def)

lemma rest_of_simps [simp]:
  "pw_pipe (rest_of w) = pw_pipe w" "pw_open (rest_of w) = pw_open w" "pw_children (rest_of w) = pw_children w"
  "pw_next_fd (rest_of w) = pw_next_fd w" "pw_next_pid (rest_of w) = pw_next_pid w"
  by (simp_all add: rest_of_def)

lemma take_bytes_cases:
  assumes "take_bytes writer n w = Some (r, v)" "0 < n"
  obtains (finished) "r = Inr []" "v = rest_of w" "pw_pipe w = []"
    | (some) b where "r = Inr b" "b \<noteq> []" "pw_pipe w = b @ pw_pipe v" "v = (rest_of w)\<lparr>pw_pipe := pw_pipe v\<rparr>"
  using assms by (cases "pw_pipe w") (auto simp: take_bytes_def split: if_splits)

lemma read_pipe_cases:
  assumes "sys_read_pipe writer w = Some (r, v)"
  obtains (broken) e where "r = Inl e" "v = rest_of w" "next_event (pw_script w) = Breaks e"
    | (finished) "r = Inr []" "v = rest_of w" "pw_pipe w = []"
    | (some) b where "r = Inr b" "b \<noteq> []" "pw_pipe w = b @ pw_pipe v" "v = (rest_of w)\<lparr>pw_pipe := pw_pipe v\<rparr>"
proof (cases "next_event (pw_script w)")
  case (Breaks e)
  with assms show ?thesis by (intro broken) (auto simp: sys_read_pipe_def)
next
  case Goes
  with assms have "take_bytes writer 4096 w = Some (r, v)" by (simp add: sys_read_pipe_def)
  then show ?thesis by (cases rule: take_bytes_cases) (simp, (rule finished some; assumption)+)
next
  case (Partly n)
  with assms have "take_bytes writer (max 1 (min n 4096)) w = Some (r, v)" by (simp add: sys_read_pipe_def)
  then show ?thesis by (cases rule: take_bytes_cases) (simp, (rule finished some; assumption)+)
qed

lemma read_pipe_shorter:
  assumes "sys_read_pipe writer w = Some (r, v)" "r \<noteq> Inr []"
  shows "length (pw_pipe v) + length (pw_script v) < length (pw_pipe w) + length (pw_script w)"
  using assms(1)
proof (cases rule: read_pipe_cases)
  case (broken e)
  with script_broken [of w e] show ?thesis by simp
next
  case (some b)
  have "length (pw_script v) \<le> length (pw_script w)" using script_rest [of w] some(4) by (metis process_world.select_convs(6) process_world.surjective process_world.update_convs(3))
  moreover have "length (pw_pipe v) < length (pw_pipe w)" using some(2,3) by simp
  ultimately show ?thesis by simp
qed (use assms(2) in simp)

function collect_output :: "nat \<Rightarrow> nat \<Rightarrow> string \<Rightarrow> process_world \<Rightarrow> (string result \<times> process_world) option" where
  "collect_output reader writer out w =
     (case sys_read_pipe writer w of
        None \<Rightarrow> None
      | Some (Inr bytes, v) \<Rightarrow> if bytes \<noteq> [] then collect_output reader writer (out @ bytes) v else Some (Inr out, v)
      | Some (Inl e, v) \<Rightarrow>
          if e = EINTR then collect_output reader writer out v
          else Some (Inl (Runtime_error (''read from child failed: '' @ strerror e)), close_fd reader v))"
  by pat_completeness auto
termination
  by (relation "measure (\<lambda>(reader, writer, out, w). length (pw_pipe w) + length (pw_script w))")
    (auto dest!: read_pipe_shorter)

declare collect_output.simps [simp del]

lemma waitpid_shorter: "sys_waitpid p w = (Inl EINTR, v) \<Longrightarrow> length (pw_script v) < length (pw_script w)"
  using script_broken [of w EINTR] by (auto simp: sys_waitpid_def split: process_event.splits option.splits)

function wait_child :: "nat \<Rightarrow> process_world \<Rightarrow> wait_status result \<times> process_world" where
  "wait_child p w =
     (case sys_waitpid p w of
        (Inr st, v) \<Rightarrow> (Inr st, v)
      | (Inl e, v) \<Rightarrow> if e \<noteq> EINTR then (Inl (Runtime_error (''waitpid failed: '' @ strerror e)), v) else wait_child p v)"
  by pat_completeness auto
termination
  by (relation "measure (\<lambda>(p, w). length (pw_script w))") (auto dest: waitpid_shorter [OF sym])

declare wait_child.simps [simp del]

definition exit_code_of :: "wait_status \<Rightarrow> int" where
  "exit_code_of st = (case st of Exited c \<Rightarrow> uint c | Signaled n \<Rightarrow> 128 + int n | Other_status \<Rightarrow> 128 + 0)"

definition process_run :: "process_host \<Rightarrow> string list \<Rightarrow> process_world \<Rightarrow> (process_result result \<times> process_world) option" where
  "process_run host argv w =
     (if argv = [] then Some (Inl (Invalid_argument ''Process argument list is empty''), w)
      else case sys_pipe w of
        (Inl e, v) \<Rightarrow> Some (Inl (Runtime_error (''pipe failed: '' @ strerror e)), v)
      | (Inr (reader, writer), v) \<Rightarrow>
          (case sys_fork host argv v of
             (Inl e, u) \<Rightarrow> Some (Inl (Runtime_error (''fork failed: '' @ strerror e)), close_fd writer (close_fd reader u))
           | (Inr p, u) \<Rightarrow>
               (case collect_output reader writer [] (close_fd writer u) of
                  None \<Rightarrow> None
                | Some (Inl e, x) \<Rightarrow> Some (Inl e, x)
                | Some (Inr out, x) \<Rightarrow>
                    (case wait_child p (close_fd reader x) of
                       (Inl e, y) \<Rightarrow> Some (Inl e, y)
                     | (Inr st, y) \<Rightarrow> Some (Inr \<lparr>exit_code = exit_code_of st, proc_output = out\<rparr>, y)))))"


section \<open>What a run returns and leaves\<close>

text \<open>Descriptors are numbered upwards, and so are the children.\<close>

definition process_ok :: "process_world \<Rightarrow> bool" where
  "process_ok w \<longleftrightarrow> list_all (\<lambda>fd. fd < pw_next_fd w) (pw_open w) \<and> list_all (\<lambda>c. fst c < pw_next_pid w) (pw_children w)"

text \<open>Calls that are interrupted, and nothing worse, from some event on.\<close>

definition harmless :: "process_event \<Rightarrow> bool" where
  "harmless ev \<longleftrightarrow> (case ev of Breaks e \<Rightarrow> e = EINTR | _ \<Rightarrow> True)"

text \<open>Apart from the script and the pipe the read loop changes nothing but the reader it closes when it throws.\<close>

definition reading :: "process_world \<Rightarrow> process_world \<Rightarrow> bool" where
  "reading w v \<longleftrightarrow> pw_open v = pw_open w \<and> pw_children v = pw_children w \<and> pw_next_fd v = pw_next_fd w \<and>
     pw_next_pid v = pw_next_pid w \<and> (list_all harmless (pw_script w) \<longrightarrow> list_all harmless (pw_script v))"

lemma reading_trans: "reading w v \<Longrightarrow> reading v u \<Longrightarrow> reading w u"
  by (simp add: reading_def)

lemma harmless_tl: "list_all harmless s \<Longrightarrow> list_all harmless (tl s)"
  by (cases s) simp_all

lemma reading_rest [simp]: "reading w (rest_of w)" "reading w ((rest_of w)\<lparr>pw_pipe := b\<rparr>)"
  by (simp_all add: reading_def rest_of_def harmless_tl)

lemma harmless_broken: "list_all harmless (pw_script w) \<Longrightarrow> next_event (pw_script w) = Breaks e \<Longrightarrow> e = EINTR"
  by (cases "pw_script w") (simp_all add: harmless_def)

lemma read_pipe_some: "writer \<notin> set (pw_open w) \<Longrightarrow> \<exists>r v. sys_read_pipe writer w = Some (r, v) \<and> reading w v"
  by (auto simp: sys_read_pipe_def take_bytes_def split: process_event.split)

lemma collect_output_spec:
  assumes "writer \<notin> set (pw_open w)"
  shows "\<exists>r v u. collect_output reader writer out w = Some (r, v) \<and> reading w u \<and>
    (case r of
       Inr text \<Rightarrow> v = u \<and> text = out @ pw_pipe w
     | Inl e \<Rightarrow> v = close_fd reader u \<and> \<not> list_all harmless (pw_script w))"
  using assms
proof (induction reader writer out w rule: collect_output.induct)
  case (1 reader writer out w)
  obtain r v where rv: "sys_read_pipe writer w = Some (r, v)" "reading w v" using read_pipe_some [OF "1.prems"] by blast
  have v: "writer \<notin> set (pw_open v)" using "1.prems" rv(2) by (simp add: reading_def)
  from rv(1) show ?case
  proof (cases rule: read_pipe_cases)
    case (broken e)
    show ?thesis
    proof (cases "e = EINTR")
      case True
      have "pw_pipe v = pw_pipe w" using broken by simp
      with "1.IH"(1) [OF rv(1) refl broken(1) True v] True broken(1) rv show ?thesis
        by (subst collect_output.simps) (fastforce simp: reading_def split: sum.splits)
    next
      case False
      with broken rv harmless_broken [of w e] show ?thesis
        by (subst collect_output.simps) (auto intro!: exI [of _ "rest_of w"])
    qed
  next
    case finished
    with rv show ?thesis by (subst collect_output.simps) auto
  next
    case (some b)
    with "1.IH"(2) [OF rv(1) refl some(1) some(2) v] rv show ?thesis
      by (subst collect_output.simps) (fastforce simp: reading_def split: sum.splits)
  qed
qed


lemma wait_child_spec:
  assumes "map_of (pw_children w) p = Some st"
  shows "\<exists>r v. wait_child p w = (r, v) \<and> pw_open v = pw_open w \<and> pw_next_fd v = pw_next_fd w \<and> pw_next_pid v = pw_next_pid w \<and>
    (case r of
       Inr st' \<Rightarrow> st' = st \<and> pw_children v = filter (\<lambda>c. fst c \<noteq> p) (pw_children w)
     | Inl e \<Rightarrow> pw_children v = pw_children w \<and> \<not> list_all harmless (pw_script w))"
  using assms
proof (induction p w rule: wait_child.induct)
  case (1 p w)
  show ?case
  proof (cases "\<exists>e. next_event (pw_script w) = Breaks e")
    case True
    then obtain e where e: "next_event (pw_script w) = Breaks e" by blast
    then have call: "sys_waitpid p w = (Inl e, rest_of w)" by (simp add: sys_waitpid_def)
    show ?thesis
    proof (cases "e = EINTR")
      case False
      have "wait_child p w = (Inl (Runtime_error (''waitpid failed: '' @ strerror e)), rest_of w)"
        unfolding wait_child.simps [of p w] by (simp add: call False)
      with e False harmless_broken [of w e] show ?thesis by auto
    next
      case True
      have c: "map_of (pw_children (rest_of w)) p = Some st" using "1.prems" by simp
      have h: "list_all harmless (pw_script w) \<longrightarrow> list_all harmless (pw_script (rest_of w))"
        using reading_rest(1) [of w] by (simp add: reading_def)
      have eq: "wait_child p w = wait_child p (rest_of w)" unfolding wait_child.simps [of p w] by (simp add: call True)
      have "\<not> e \<noteq> EINTR" using True by simp
      from "1.IH" [OF call [symmetric] refl this c] obtain r v where ih: "wait_child p (rest_of w) = (r, v)"
        "pw_open v = pw_open w" "pw_next_fd v = pw_next_fd w" "pw_next_pid v = pw_next_pid w"
        "case r of Inr st' \<Rightarrow> st' = st \<and> pw_children v = filter (\<lambda>c. fst c \<noteq> p) (pw_children w)
         | Inl e \<Rightarrow> pw_children v = pw_children w \<and> \<not> list_all harmless (pw_script (rest_of w))"
        unfolding rest_of_simps by blast
      then show ?thesis using h unfolding eq by (cases r) auto
    qed
  next
    case False
    then have "sys_waitpid p w = (Inr st, (rest_of w)\<lparr>pw_children := filter (\<lambda>c. fst c \<noteq> p) (pw_children w)\<rparr>)"
      using "1.prems" by (auto simp: sys_waitpid_def split: process_event.split)
    then have "wait_child p w = (Inr st, (rest_of w)\<lparr>pw_children := filter (\<lambda>c. fst c \<noteq> p) (pw_children w)\<rparr>)"
      unfolding wait_child.simps [of p w] by simp
    then show ?thesis by simp
  qed
qed

text \<open>The calls \<open>pipe\<close> and \<open>fork\<close> are not retried.\<close>

definition breaks_early :: "process_event list \<Rightarrow> bool" where
  "breaks_early s \<longleftrightarrow> list_ex (\<lambda>ev. case ev of Breaks e \<Rightarrow> True | _ \<Rightarrow> False) (take 2 s)"

lemma breaks_early_iff: "breaks_early s \<longleftrightarrow> (\<exists>e. next_event s = Breaks e) \<or> (\<exists>e. next_event (tl s) = Breaks e)"
  by (cases s rule: next_event.cases; cases "tl s") (auto simp: breaks_early_def split: process_event.splits)

definition program_runs :: "process_host \<Rightarrow> string list \<Rightarrow> process_world \<Rightarrow> process_result result \<Rightarrow> process_world \<Rightarrow> bool" where
  "program_runs host argv w r v \<longleftrightarrow>
     pw_open v = pw_open w \<and>
     (case r of
        Inr x \<Rightarrow> argv \<noteq> [] \<and> proc_output x = ch_output (child_of host argv) \<and>
          exit_code x = exit_code_of (ch_status (child_of host argv)) \<and> pw_children v = pw_children w
      | Inl e \<Rightarrow> argv = [] \<or> \<not> list_all harmless (pw_script w) \<or> breaks_early (pw_script w))"

text \<open>A failing \<open>pipe\<close> or \<open>fork\<close>: an exception, and what was opened is closed.\<close>

lemma run_breaks_early:
  assumes "process_ok w" "argv \<noteq> []" "breaks_early (pw_script w)"
  shows "\<exists>m v. process_run host argv w = Some (Inl m, v) \<and> process_ok v \<and> pw_open v = pw_open w"
proof (cases "\<exists>e. next_event (pw_script w) = Breaks e")
  case True
  then have "\<exists>m. process_run host argv w = Some (Inl m, rest_of w)" using assms(2)
    by (auto simp: process_run_def sys_pipe_def)
  with assms(1) show ?thesis by (auto simp: process_ok_def)
next
  case False
  then obtain e where e: "next_event (tl (pw_script w)) = Breaks e" using assms(3) by (auto simp: breaks_early_iff)
  let ?rd = "pw_next_fd w" and ?wr = "pw_next_fd w + 1"
  let ?v = "(rest_of w)\<lparr>pw_open := ?rd # ?wr # pw_open w, pw_next_fd := ?rd + 2, pw_pipe := []\<rparr>"
  have "sys_pipe w = (Inr (?rd, ?wr), ?v)" using False by (auto simp: sys_pipe_def split: process_event.split)
  moreover have "sys_fork host argv ?v = (Inl e, rest_of ?v)" using e by (simp add: sys_fork_def rest_of_def)
  ultimately have "\<exists>m. process_run host argv w = Some (Inl m, close_fd ?wr (close_fd ?rd (rest_of ?v)))"
    using assms(2) by (simp add: process_run_def)
  moreover have "pw_open (close_fd ?wr (close_fd ?rd (rest_of ?v))) = pw_open w" by (simp add: close_fd_def)
  moreover have "process_ok (close_fd ?wr (close_fd ?rd (rest_of ?v)))" using assms(1)
    by (auto simp: process_ok_def close_fd_def list_all_iff)
  ultimately show ?thesis by blast
qed

text \<open>The world after \<open>fork\<close>, when the manager has closed its end for writing, and what follows from there.\<close>

definition started :: "process_host \<Rightarrow> string list \<Rightarrow> process_world \<Rightarrow> process_world" where
  "started host argv w = (rest_of (rest_of w))\<lparr>pw_open := pw_next_fd w # pw_open w, pw_next_fd := pw_next_fd w + 2,
     pw_pipe := ch_output (child_of host argv),
     pw_children := (pw_next_pid w, ch_status (child_of host argv)) # pw_children w, pw_next_pid := pw_next_pid w + 1\<rparr>"

lemma run_started:
  assumes "argv \<noteq> []" "\<not> breaks_early (pw_script w)"
  shows "process_run host argv w =
    (case collect_output (pw_next_fd w) (pw_next_fd w + 1) [] (started host argv w) of
       None \<Rightarrow> None
     | Some (Inl e, x) \<Rightarrow> Some (Inl e, x)
     | Some (Inr out, x) \<Rightarrow> (case wait_child (pw_next_pid w) (close_fd (pw_next_fd w) x) of
          (Inl e, y) \<Rightarrow> Some (Inl e, y)
        | (Inr st, y) \<Rightarrow> Some (Inr \<lparr>exit_code = exit_code_of st, proc_output = out\<rparr>, y)))"
proof -
  let ?rd = "pw_next_fd w" and ?wr = "pw_next_fd w + 1" and ?p = "pw_next_pid w"
  have n: "\<nexists>e. next_event (pw_script w) = Breaks e" "\<nexists>e. next_event (tl (pw_script w)) = Breaks e"
    using assms(2) by (simp_all add: breaks_early_iff)
  let ?v = "(rest_of w)\<lparr>pw_open := ?rd # ?wr # pw_open w, pw_next_fd := ?rd + 2, pw_pipe := []\<rparr>"
  have 1: "sys_pipe w = (Inr (?rd, ?wr), ?v)" using n(1) by (auto simp: sys_pipe_def split: process_event.split)
  let ?x = "(rest_of ?v)\<lparr>pw_pipe := ch_output (child_of host argv),
    pw_children := (?p, ch_status (child_of host argv)) # pw_children w, pw_next_pid := ?p + 1\<rparr>"
  have "pw_script ?v = tl (pw_script w)" by (simp add: rest_of_def)
  then have 2: "sys_fork host argv ?v = (Inr ?p, ?x)"
    using n(2) by (cases "next_event (tl (pw_script w))") (simp_all add: sys_fork_def)
  have 3: "close_fd ?wr ?x = started host argv w" by (simp add: started_def close_fd_def rest_of_def)
  show ?thesis using assms(1) by (simp only: process_run_def 1 2 3 if_False prod.case sum.case)
qed

lemma process_run_spec:
  assumes "process_ok w"
  shows "\<exists>r v. process_run host argv w = Some (r, v) \<and> process_ok v \<and> program_runs host argv w r v"
proof (cases "argv = [] \<or> breaks_early (pw_script w)")
  case True
  with assms run_breaks_early [OF assms, of argv host] show ?thesis
    by (cases "argv = []") (auto simp: process_run_def program_runs_def)
next
  case False
  let ?rd = "pw_next_fd w" and ?wr = "pw_next_fd w + 1" and ?p = "pw_next_pid w" and ?u = "started host argv w"
    and ?st = "ch_status (child_of host argv)"
  have ne: "argv \<noteq> []" and nb: "\<not> breaks_early (pw_script w)" using False by simp_all
  note run = run_started [OF ne nb, of host]
  have fresh: "?wr \<notin> set (pw_open ?u)" "filter (\<lambda>c. fst c \<noteq> ?p) (pw_children w) = pw_children w"
    using assms by (auto simp: started_def process_ok_def list_all_iff intro!: filter_True)
  have h: "list_all harmless (pw_script w) \<longrightarrow> list_all harmless (pw_script ?u)"
    by (simp add: started_def rest_of_def harmless_tl)
  obtain r x v where c: "collect_output ?rd ?wr [] ?u = Some (r, x)" "reading ?u v"
    "case r of Inr bytes \<Rightarrow> x = v \<and> bytes = pw_pipe ?u | Inl e \<Rightarrow> x = close_fd ?rd v \<and> \<not> list_all harmless (pw_script ?u)"
    using collect_output_spec [OF fresh(1), of ?rd "[]", unfolded append_Nil] by blast
  have closed: "pw_open (close_fd ?rd v) = pw_open w" "process_ok (close_fd ?rd v)" "pw_children (close_fd ?rd v) = (?p, ?st) # pw_children w"
    using c(2) assms by (auto simp: reading_def started_def close_fd_def process_ok_def list_all_iff)
  show ?thesis
  proof (cases r)
    case (Inl e)
    with c closed h ne run show ?thesis by (auto simp: program_runs_def)
  next
    case (Inr bytes)
    have cr: "x = v" "bytes = ch_output (child_of host argv)" using c(3) Inr by (simp_all add: started_def)
    have "map_of (pw_children (close_fd ?rd v)) ?p = Some ?st" using closed(3) by simp
    from wait_child_spec [OF this] obtain r2 y where wc: "wait_child ?p (close_fd ?rd v) = (r2, y)"
      "pw_open y = pw_open (close_fd ?rd v)" "pw_next_fd y = pw_next_fd (close_fd ?rd v)" "pw_next_pid y = pw_next_pid (close_fd ?rd v)"
      "case r2 of Inr st' \<Rightarrow> st' = ?st \<and> pw_children y = filter (\<lambda>c. fst c \<noteq> ?p) (pw_children (close_fd ?rd v))
       | Inl e \<Rightarrow> pw_children y = pw_children (close_fd ?rd v) \<and> \<not> list_all harmless (pw_script (close_fd ?rd v))" by blast
    have ok: "process_ok y" using closed(2) wc by (cases r2) (auto simp: process_ok_def list_all_iff)
    have h2: "list_all harmless (pw_script w) \<longrightarrow> list_all harmless (pw_script (close_fd ?rd v))"
      using h c(2) by (simp add: reading_def close_fd_def)
    have r2: "case r2 of Inr st' \<Rightarrow> st' = ?st \<and> pw_children y = pw_children w | Inl e \<Rightarrow> \<not> list_all harmless (pw_script w)"
      using wc(5) closed(3) fresh(2) h2 by (cases r2) auto
    show ?thesis using r2 c(1) cr Inr run wc closed(1) ok ne
      by (cases r2) (auto simp: program_runs_def)
  qed
qed


text \<open>
  Where no call fails for good, running a program is what the other components take it for: a function from
  the command to its result.
\<close>

definition runner_of :: "process_host \<Rightarrow> query_runner" where
  "runner_of host argv =
     (if argv = [] then Inl (Invalid_argument ''Process argument list is empty'')
      else Inr \<lparr>exit_code = exit_code_of (ch_status (child_of host argv)), proc_output = ch_output (child_of host argv)\<rparr>)"

lemma process_run_answers:
  assumes "process_ok w" "list_all harmless (pw_script w)" "\<not> breaks_early (pw_script w)"
  shows "\<exists>v. process_run host argv w = Some (runner_of host argv, v) \<and> pw_open v = pw_open w \<and> pw_children v = pw_children w"
proof (cases "argv = []")
  case True
  then show ?thesis by (simp add: process_run_def runner_of_def)
next
  case False
  obtain r v where r: "process_run host argv w = Some (r, v)" "program_runs host argv w r v"
    using process_run_spec [OF assms(1)] by blast
  with assms False obtain x where "r = Inr x" by (cases r) (simp_all add: program_runs_def)
  with r False show ?thesis by (auto simp: program_runs_def runner_of_def)
qed

definition sample_program :: process_host where
  "sample_program = \<lparr>ph_dup_fails = False, ph_exec = (\<lambda>_. Inr \<lparr>ch_output = ''hello'', ch_status = Exited 3\<rparr>)\<rparr>"

definition interrupted_world :: process_world where
  "interrupted_world = \<lparr>pw_open = [0, 1, 2], pw_next_fd = 3, pw_pipe = [], pw_children = [], pw_next_pid = 100,
     pw_script = [Goes, Goes, Partly 2, Breaks EINTR, Goes, Goes, Breaks EINTR]\<rparr>"


text \<open>When reading fails for another reason, the child is not waited for.\<close>

lemma read_failure_leaves_child:
  "case process_run sample_program [''echo''] (interrupted_world\<lparr>pw_script := [Goes, Goes, Breaks EIO]\<rparr>) of
     Some (Inl e, v) \<Rightarrow> pw_children v = [(100, Exited 3)]
   | _ \<Rightarrow> False"
  by code_simp

end
