(* ===== verification/Unique_Fd.thy ===== *)
theory Unique_Fd
  imports Prelude
begin

text \<open>
  The class UniqueFd (infrastructure/secure_file_ops.cpp), owner of a file descriptor: construction,
  destruction, moves and assignments as transitions, with the invariant that every open descriptor has
  exactly one owner, so that none is closed twice and none stays open.
\<close>

section \<open>Handles\<close>

text \<open>
  The live objects of the class with the descriptor each holds, \<open>-1\<close> for none, the descriptors the process
  has open, and whether one was closed that was not open: closed a second time, or another's by then.
\<close>

record fd_state =
  fs_handles :: "nat \<Rightarrow> int option"
  fs_open :: "int set"
  fs_misused :: bool

definition close_descriptor :: "int \<Rightarrow> fd_state \<Rightarrow> fd_state" where
  "close_descriptor fd w =
     (if fd \<in> fs_open w then w\<lparr>fs_open := fs_open w - {fd}\<rparr> else w\<lparr>fs_misused := True\<rparr>)"

definition set_handle :: "nat \<Rightarrow> int option \<Rightarrow> fd_state \<Rightarrow> fd_state" where
  "set_handle h fd w = w\<lparr>fs_handles := (fs_handles w)(h := fd)\<rparr>"

text \<open>\<open>fd_get\<close> of a live object; dead ones are never asked.\<close>

definition fd_get :: "fd_state \<Rightarrow> nat \<Rightarrow> int" where
  "fd_get w h = (case fs_handles w h of Some fd \<Rightarrow> fd | None \<Rightarrow> -1)"

definition fd_construct :: "nat \<Rightarrow> int \<Rightarrow> fd_state \<Rightarrow> fd_state" where
  "fd_construct h fd = set_handle h (Some fd)"

definition fd_destroy :: "nat \<Rightarrow> fd_state \<Rightarrow> fd_state" where
  "fd_destroy h w = set_handle h None (if 0 \<le> fd_get w h then close_descriptor (fd_get w h) w else w)"

definition fd_move_construct :: "nat \<Rightarrow> nat \<Rightarrow> fd_state \<Rightarrow> fd_state" where
  "fd_move_construct h other w = set_handle other (Some (-1)) (set_handle h (Some (fd_get w other)) w)"

definition fd_move_assign :: "nat \<Rightarrow> nat \<Rightarrow> fd_state \<Rightarrow> fd_state" where
  "fd_move_assign h other w =
     (if h \<noteq> other then
        (let u = (if 0 \<le> fd_get w h then close_descriptor (fd_get w h) w else w) in
         set_handle other (Some (-1)) (set_handle h (Some (fd_get u other)) u))
      else w)"

section \<open>The life of handles\<close>

text \<open>
  What a program may do with the class: construct an object from the result of \<open>open\<close>, which is a new
  descriptor or \<open>-1\<close>, or from nothing, move objects, assign a fresh result to one, and let them die.
\<close>

inductive fd_step :: "fd_state \<Rightarrow> fd_state \<Rightarrow> bool" where
  opened: "fs_handles w h = None \<Longrightarrow> 0 \<le> fd \<Longrightarrow> fd \<notin> fs_open w \<Longrightarrow>
    fd_step w (fd_construct h fd (w\<lparr>fs_open := insert fd (fs_open w)\<rparr>))"
| empty: "fs_handles w h = None \<Longrightarrow> fd_step w (fd_construct h (-1) w)"
| moved: "fs_handles w h = None \<Longrightarrow> fs_handles w other \<noteq> None \<Longrightarrow> fd_step w (fd_move_construct h other w)"
| assigned: "fs_handles w h \<noteq> None \<Longrightarrow> fs_handles w other \<noteq> None \<Longrightarrow> fd_step w (fd_move_assign h other w)"
| died: "fs_handles w h \<noteq> None \<Longrightarrow> fd_step w (fd_destroy h w)"

definition fd_start :: "fd_state \<Rightarrow> bool" where
  "fd_start w \<longleftrightarrow> fs_handles w = (\<lambda>_. None) \<and> fs_open w = {} \<and> \<not> fs_misused w"

inductive fd_reachable :: "fd_state \<Rightarrow> bool" where
  start: "fd_start w \<Longrightarrow> fd_reachable w"
| step: "fd_reachable w \<Longrightarrow> fd_step w v \<Longrightarrow> fd_reachable v"

text \<open>Every open descriptor has exactly one owner, and owners hold open descriptors only.\<close>

definition fd_owned :: "fd_state \<Rightarrow> bool" where
  "fd_owned w \<longleftrightarrow> \<not> fs_misused w \<and> (\<forall>fd\<in>fs_open w. 0 \<le> fd) \<and>
     (\<forall>h fd. fs_handles w h = Some fd \<and> 0 \<le> fd \<longrightarrow> fd \<in> fs_open w) \<and>
     (\<forall>fd\<in>fs_open w. \<exists>h. fs_handles w h = Some fd) \<and>
     (\<forall>h h' fd. fs_handles w h = Some fd \<and> fs_handles w h' = Some fd \<and> 0 \<le> fd \<longrightarrow> h = h')"

text \<open>Closing what a handle owns leaves the others as they own.\<close>

definition fd_released :: "nat \<Rightarrow> fd_state \<Rightarrow> fd_state" where
  "fd_released h w = set_handle h (Some (-1)) (if 0 \<le> fd_get w h then close_descriptor (fd_get w h) w else w)"

lemma fd_ownedI:
  assumes "\<not> fs_misused w" "\<And>fd. fd \<in> fs_open w \<Longrightarrow> 0 \<le> fd \<and> (\<exists>h. fs_handles w h = Some fd)"
    "\<And>h fd. fs_handles w h = Some fd \<Longrightarrow> 0 \<le> fd \<Longrightarrow> fd \<in> fs_open w"
    "\<And>h h' fd. fs_handles w h = Some fd \<Longrightarrow> fs_handles w h' = Some fd \<Longrightarrow> 0 \<le> fd \<Longrightarrow> h = h'"
  shows "fd_owned w"
  unfolding fd_owned_def using assms by blast

lemma fd_ownedD:
  assumes "fd_owned w"
  shows "\<not> fs_misused w" "fd \<in> fs_open w \<Longrightarrow> 0 \<le> fd" "fd \<in> fs_open w \<Longrightarrow> \<exists>h. fs_handles w h = Some fd"
    "fs_handles w h = Some fd \<Longrightarrow> 0 \<le> fd \<Longrightarrow> fd \<in> fs_open w"
    "fs_handles w h = Some fd \<Longrightarrow> fs_handles w h' = Some fd \<Longrightarrow> 0 \<le> fd \<Longrightarrow> h = h'"
  using assms unfolding fd_owned_def by blast+

lemma owned_released:
  assumes "fd_owned w" "fs_handles w h \<noteq> None"
  shows "fd_owned (fd_released h w)"
proof -
  obtain fd where fd: "fs_handles w h = Some fd" using assms(2) by blast
  let ?hs = "(fs_handles w)(h := Some (-1))"
  have kept: "\<exists>k. ?hs k = Some fda" if fda: "fda \<in> fs_open w" "fda \<noteq> fd" for fda
  proof -
    obtain k where k: "fs_handles w k = Some fda" using fd_ownedD(3) [OF assms(1) fda(1)] by blast
    with fd fda(2) have "k \<noteq> h" by auto
    with k show ?thesis by (intro exI [of _ k]) simp
  qed
  show ?thesis
  proof (cases "0 \<le> fd")
    case True
    then have "fd \<in> fs_open w" using fd_ownedD(4) [OF assms(1) fd] by simp
    then have eq: "fd_released h w = w\<lparr>fs_open := fs_open w - {fd}, fs_handles := ?hs\<rparr>"
      using True fd by (simp add: fd_released_def fd_get_def close_descriptor_def set_handle_def)
    show ?thesis unfolding eq
    proof (rule fd_ownedI, goal_cases)
      case 1 then show ?case using fd_ownedD(1) [OF assms(1)] by simp
    next
      case (2 fda) then show ?case using kept [of fda] fd_ownedD(2) [OF assms(1), of fda] by simp
    next
      case (3 k fda)
      then have k: "k \<noteq> h" "fs_handles w k = Some fda" by (auto split: if_splits)
      then have "fda \<noteq> fd" using fd_ownedD(5) [OF assms(1), of k fda h] fd True by auto
      then show ?case using fd_ownedD(4) [OF assms(1) k(2) 3(2)] by simp
    next
      case (4 k k' fda) then show ?case using fd_ownedD(5) [OF assms(1), of k fda k'] by (auto split: if_splits)
    qed
  next
    case False
    then have eq: "fd_released h w = w\<lparr>fs_handles := ?hs\<rparr>"
      using fd by (simp add: fd_released_def fd_get_def set_handle_def)
    show ?thesis unfolding eq
    proof (rule fd_ownedI, goal_cases)
      case 1 then show ?case using fd_ownedD(1) [OF assms(1)] by simp
    next
      case (2 fda)
      then have "0 \<le> fda" using fd_ownedD(2) [OF assms(1), of fda] by simp
      then show ?case using kept [of fda] 2 False by auto
    next
      case (3 k fda) then show ?case using fd_ownedD(4) [OF assms(1), of k fda] by (auto split: if_splits)
    next
      case (4 k k' fda) then show ?case using fd_ownedD(5) [OF assms(1), of k fda k'] by (auto split: if_splits)
    qed
  qed
qed

text \<open>A handle without a descriptor can die, or take over what another gives up.\<close>

lemma owned_dead:
  assumes "fd_owned w" "fs_handles w h = Some (-1)"
  shows "fd_owned (set_handle h None w)"
proof (rule fd_ownedI, goal_cases)
  case 1 then show ?case using fd_ownedD(1) [OF assms(1)] by (simp add: set_handle_def)
next
  case (2 fd)
  then have fd: "0 \<le> fd" "\<exists>k. fs_handles w k = Some fd" using fd_ownedD(2,3) [OF assms(1), of fd] by (simp_all add: set_handle_def)
  then obtain k where k: "fs_handles w k = Some fd" by blast
  with assms(2) fd(1) have "k \<noteq> h" by auto
  with k fd(1) show ?case by (auto simp: set_handle_def intro!: exI [of _ k])
next
  case (3 k fd) then show ?case using fd_ownedD(4) [OF assms(1), of k fd] by (auto simp: set_handle_def split: if_splits)
next
  case (4 k k' fd) then show ?case using fd_ownedD(5) [OF assms(1), of k fd k'] by (auto simp: set_handle_def split: if_splits)
qed

definition fd_free :: "nat \<Rightarrow> fd_state \<Rightarrow> bool" where
  "fd_free h w \<longleftrightarrow> fs_handles w h = None \<or> fs_handles w h = Some (-1)"

lemma owned_handed_over:
  assumes "fd_owned w" "fd_free h w" "fs_handles w other = Some fd" "h \<noteq> other"
  shows "fd_owned (set_handle other (Some (-1)) (set_handle h (Some fd) w))"
proof (rule fd_ownedI, goal_cases)
  case 1 then show ?case using fd_ownedD(1) [OF assms(1)] by (simp add: set_handle_def)
next
  case (2 fda)
  then have fda: "0 \<le> fda" "\<exists>k. fs_handles w k = Some fda" using fd_ownedD(2,3) [OF assms(1), of fda] by (simp_all add: set_handle_def)
  then obtain k where k: "fs_handles w k = Some fda" by blast
  show ?case
  proof (cases "k = other")
    case True with k assms(3,4) fda(1) show ?thesis by (auto simp: set_handle_def intro!: exI [of _ h])
  next
    case False
    have "k \<noteq> h" using k assms(2) fda(1) by (auto simp: fd_free_def)
    with False k fda(1) show ?thesis by (auto simp: set_handle_def intro!: exI [of _ k])
  qed
next
  case (3 k fda)
  then show ?case using fd_ownedD(4) [OF assms(1), of k fda] fd_ownedD(4) [OF assms(1) assms(3)]
    by (auto simp: set_handle_def split: if_splits)
next
  case (4 k k' fda)
  then show ?case using fd_ownedD(5) [OF assms(1), of k fda k'] fd_ownedD(5) [OF assms(1) assms(3), of k]
      fd_ownedD(5) [OF assms(1) assms(3), of k'] assms(4)
    by (auto simp: set_handle_def split: if_splits)
qed

lemma owned_new:
  assumes "fd_owned w" "fs_handles w h = None"
  shows "0 \<le> fd \<Longrightarrow> fd \<notin> fs_open w \<Longrightarrow> fd_owned (fd_construct h fd (w\<lparr>fs_open := insert fd (fs_open w)\<rparr>))"
    and "fd_owned (fd_construct h (-1) w)"
proof -
  have other: "\<exists>k. k \<noteq> h \<and> fs_handles w k = Some fda" if "fda \<in> fs_open w" for fda
    using fd_ownedD(3) [OF assms(1) that] assms(2) by force
  show "fd_owned (fd_construct h (-1) w)"
  proof (rule fd_ownedI, goal_cases)
    case 1 then show ?case using fd_ownedD(1) [OF assms(1)] by (simp add: fd_construct_def set_handle_def)
  next
    case (2 fda) then show ?case using fd_ownedD(2) [OF assms(1), of fda] other [of fda] by (auto simp: fd_construct_def set_handle_def)
  next
    case (3 k fda) then show ?case using fd_ownedD(4) [OF assms(1), of k fda] by (auto simp: fd_construct_def set_handle_def split: if_splits)
  next
    case (4 k k' fda) then show ?case using fd_ownedD(5) [OF assms(1), of k fda k'] by (auto simp: fd_construct_def set_handle_def split: if_splits)
  qed
  assume fd: "0 \<le> fd" "fd \<notin> fs_open w"
  show "fd_owned (fd_construct h fd (w\<lparr>fs_open := insert fd (fs_open w)\<rparr>))"
  proof (rule fd_ownedI, goal_cases)
    case 1 then show ?case using fd_ownedD(1) [OF assms(1)] by (simp add: fd_construct_def set_handle_def)
  next
    case (2 fda) then show ?case using fd fd_ownedD(2) [OF assms(1), of fda] other [of fda] by (auto simp: fd_construct_def set_handle_def)
  next
    case (3 k fda) then show ?case using fd_ownedD(4) [OF assms(1), of k fda] by (auto simp: fd_construct_def set_handle_def split: if_splits)
  next
    case (4 k k' fda) then show ?case using fd_ownedD(5) [OF assms(1), of k fda k'] fd fd_ownedD(4) [OF assms(1), of _ fd]
      by (auto simp: fd_construct_def set_handle_def split: if_splits)
  qed
qed

section \<open>Destruction and moves in these terms\<close>

lemma released_handle [simp]: "fs_handles (fd_released h w) h = Some (-1)" "k \<noteq> h \<Longrightarrow> fs_handles (fd_released h w) k = fs_handles w k"
  by (simp_all add: fd_released_def set_handle_def close_descriptor_def)

lemma fd_destroy_released: "fd_destroy h w = set_handle h None (fd_released h w)"
  by (simp add: fd_destroy_def fd_released_def set_handle_def)

lemma fd_move_assign_released:
  assumes "h \<noteq> other"
  shows "fd_move_assign h other w = set_handle other (Some (-1)) (set_handle h (Some (fd_get w other)) (fd_released h w))"
  using assms by (simp add: fd_move_assign_def fd_released_def set_handle_def close_descriptor_def fd_get_def)

lemma owned_step: "fd_step w v \<Longrightarrow> fd_owned w \<Longrightarrow> fd_owned v"
proof (induction rule: fd_step.induct)
  case (moved w h other)
  then obtain fd where "fs_handles w other = Some fd" "h \<noteq> other" by force
  with moved show ?case unfolding fd_move_construct_def
    using owned_handed_over [of w h other fd] by (auto simp: fd_free_def fd_get_def)
next
  case (assigned w h other)
  then obtain fd where fd: "fs_handles w other = Some fd" by blast
  show ?case
  proof (cases "h = other")
    case True with assigned show ?thesis by (simp add: fd_move_assign_def)
  next
    case False
    have "fd_owned (fd_released h w)" using owned_released assigned by blast
    from owned_handed_over [OF this, of h other fd] fd False show ?thesis
      by (simp add: fd_move_assign_released fd_free_def fd_get_def)
  qed
next
  case (died w h)
  with owned_dead [OF owned_released, of w h] show ?case by (simp add: fd_destroy_released)
qed (simp_all add: owned_new)

text \<open>
  C26: however objects of the class are made, moved, assigned and destroyed, no descriptor is closed that
  is not open (none twice, none that is another's by then), every open one is held by exactly one live
  object, and with the last object the last descriptor is closed.
\<close>

theorem fd_owned_once:
  assumes "fd_reachable w"
  shows "\<not> fs_misused w \<and> (\<forall>fd\<in>fs_open w. \<exists>!h. fs_handles w h = Some fd) \<and>
    (\<forall>h. fs_handles w h \<noteq> None \<longrightarrow> 0 \<le> fd_get w h \<longrightarrow> fd_get w h \<in> fs_open w) \<and>
    (fs_handles w = (\<lambda>_. None) \<longrightarrow> fs_open w = {})"
proof -
  have owned: "fd_owned w" using assms
  proof (induction rule: fd_reachable.induct)
    case (start w) then show ?case by (simp add: fd_start_def fd_owned_def)
  qed (rule owned_step)
  have "\<exists>!h. fs_handles w h = Some fd" if "fd \<in> fs_open w" for fd
    using fd_ownedD(2,3) [OF owned that] fd_ownedD(5) [OF owned] by blast
  moreover have "fs_open w = {}" if "fs_handles w = (\<lambda>_. None)" using fd_ownedD(3) [OF owned] that by auto
  ultimately show ?thesis using fd_ownedD(1,4) [OF owned] by (auto simp: fd_get_def)
qed

definition no_handles :: fd_state where
  "no_handles = \<lparr>fs_handles = (\<lambda>_. None), fs_open = {}, fs_misused = False\<rparr>"

theorem fd_owned_once_witness:
  "let w = fd_destroy 0 (fd_move_assign 1 0 (fd_construct 1 (-1) (fd_construct 0 3 (no_handles\<lparr>fs_open := insert 3 (fs_open no_handles)\<rparr>))))
   in fs_open w = {3} \<and> fd_get w 1 = 3 \<and> \<not> fs_misused w"
proof -
  let ?a = "fd_construct 0 3 (no_handles\<lparr>fs_open := insert 3 (fs_open no_handles)\<rparr>)"
  let ?b = "fd_construct 1 (-1) ?a" and ?c = "fd_move_assign 1 0 (fd_construct 1 (-1) ?a)"
  note s = no_handles_def fd_construct_def set_handle_def fd_move_assign_def fd_get_def fd_destroy_def close_descriptor_def Let_def
  have "fd_reachable no_handles" by (rule fd_reachable.start) (simp add: fd_start_def no_handles_def)
  then have "fd_reachable ?a" by (rule fd_reachable.step) (rule fd_step.opened, simp_all add: s)
  then have "fd_reachable ?b" by (rule fd_reachable.step) (rule fd_step.empty, simp add: s)
  then have "fd_reachable ?c" by (rule fd_reachable.step) (rule fd_step.assigned, simp_all add: s)
  then have "fd_reachable (fd_destroy 0 ?c)" by (rule fd_reachable.step) (rule fd_step.died, simp add: s)
  from fd_owned_once [OF this] show ?thesis by (simp add: s)
qed

end
